theory Spec2Isabelle
  imports Main
begin

section \<open>Values and strings\<close>

text \<open>
  Message fragments are \<^verbatim>\<open>unknown[]\<close> in the source. The code passes them to
  \<^verbatim>\<open>console.log\<close> as they are and converts them to strings in
  \<^verbatim>\<open>messages.join(' ')\<close>. The model keeps \<^verbatim>\<open>undefined\<close>, \<^verbatim>\<open>null\<close> and strings
  (lists of characters) as such, and of every other value what the code can observe of
  it: the outcome of its conversion to a string, which is a text (\<^verbatim>\<open>1e+21\<close> for the
  number \<^verbatim>\<open>1e21\<close>) or an exception (a Symbol, an object whose \<^verbatim>\<open>toString\<close>
  throws).
\<close>

datatype conversion = Text string | Throws string

datatype jsval = JUndefined | JNull | JStr string | JOther conversion

text \<open>
  The exceptions, by where they are raised: \<open>Error msg\<close> is the
  \<^verbatim>\<open>throw new Error(msg)\<close> of the source; \<open>TypeError\<close> is what a method called on
  something that is no logger raises at its first property access; \<open>FsError code\<close> is
  what a call of \<^verbatim>\<open>node:fs\<close> throws; \<open>Thrown what\<close> is what the string conversion
  of a fragment throws.
\<close>

datatype js_error = Error string | TypeError | FsError string | Thrown string

text \<open>
  Decimal rendering of an integer, as a template literal or \<^verbatim>\<open>toString()\<close> gives it
  for the integers the code renders (line numbers, years, months, days and differences
  of clock readings, all far below \<^verbatim>\<open>1e21\<close>).
\<close>

fun decimal :: "nat \<Rightarrow> string" where
  "decimal n =
     (if n < 10 then [''0123456789'' ! n]
      else decimal (n div 10) @ [''0123456789'' ! (n mod 10)])"

declare decimal.simps [simp del]

definition int_toString :: "int \<Rightarrow> string" where
  "int_toString i = (if i < 0 then CHR ''-'' # decimal (nat (- i)) else decimal (nat i))"

text \<open>\<^verbatim>\<open>String.prototype.padStart(n, c)\<close> with a one-character pad.\<close>

definition padStart :: "nat \<Rightarrow> char \<Rightarrow> string \<Rightarrow> string" where
  "padStart n c s = replicate (n - length s) c @ s"

fun startsWith :: "string \<Rightarrow> string \<Rightarrow> bool" where
  "startsWith s [] = True"
| "startsWith [] (c # cs) = False"
| "startsWith (x # xs) (c # cs) = (x = c \<and> startsWith xs cs)"

text \<open>\<^verbatim>\<open>String.prototype.includes\<close>: the second string occurs in the first.\<close>

fun str_includes :: "string \<Rightarrow> string \<Rightarrow> bool" where
  "str_includes [] t = (t = [])"
| "str_includes (x # xs) t = (startsWith (x # xs) t \<or> str_includes xs t)"

text \<open>
  \<^verbatim>\<open>Array.prototype.join\<close>: \<^verbatim>\<open>undefined\<close> and \<^verbatim>\<open>null\<close> become the empty string,
  every other element is converted to a string, in order; the first conversion that
  throws ends the join with its exception.
\<close>

fun join_item :: "jsval \<Rightarrow> js_error + string" where
  "join_item JUndefined = Inr []"
| "join_item JNull = Inr []"
| "join_item (JStr s) = Inr s"
| "join_item (JOther (Text s)) = Inr s"
| "join_item (JOther (Throws what)) = Inl (Thrown what)"

fun join :: "string \<Rightarrow> jsval list \<Rightarrow> js_error + string" where
  "join sep [] = Inr []"
| "join sep [x] = join_item x"
| "join sep (x # y # ys) =
     (case join_item x of
        Inl err \<Rightarrow> Inl err
      | Inr s \<Rightarrow>
          (case join sep (y # ys) of
             Inl err \<Rightarrow> Inl err
           | Inr rest \<Rightarrow> Inr (s @ sep @ rest)))"

section \<open>Plain objects\<close>

text \<open>
  The enum object and the timer map are plain objects: a key they do not hold
  themselves is looked up in \<^verbatim>\<open>Object.prototype\<close>. These are the property names of
  the built-in \<^verbatim>\<open>Object.prototype\<close>. All are methods but \<^verbatim>\<open>__proto__\<close>, whose
  getter gives \<^verbatim>\<open>Object.prototype\<close> itself and whose setter ignores a number.
  Where such a value is compared with \<^verbatim>\<open><\<close> or subtracted, it is first converted
  to a primitive, which is the string \<open>inherited_text\<close>: the source text of the native
  function, or \<^verbatim>\<open>[object Object]\<close>.
\<close>

definition Object_prototype :: "string list" where
  "Object_prototype =
     [''constructor'', ''__defineGetter__'', ''__defineSetter__'', ''hasOwnProperty'',
      ''__lookupGetter__'', ''__lookupSetter__'', ''isPrototypeOf'',
      ''propertyIsEnumerable'', ''toString'', ''valueOf'', ''__proto__'',
      ''toLocaleString'']"

definition inherited_text :: "string \<Rightarrow> string" where
  "inherited_text key =
     (if key = ''__proto__'' then ''[object Object]''
      else ''function '' @ (if key = ''constructor'' then ''Object'' else key) @
           ''() { [native code] }'')"

section \<open>The registries of values.ts\<close>

text \<open>
  \<^verbatim>\<open>enum LoggerLevels { SILLY = 0, ..., FATAL = 10 }\<close>. A numeric TypeScript enum is an
  object at run time that carries, beside each name with its rank, the reverse entry
  from the rank (as a property key, its decimal string) to the name. The source indexes
  that object with a level name that is a string at run time, so the model gives the
  lookup for every string: a rank, a name (reverse entry), a property inherited from
  \<^verbatim>\<open>Object.prototype\<close> (kept as its primitive text), or \<^verbatim>\<open>undefined\<close>.
\<close>

datatype member = Rank nat | Name string | Inherited string | Undefined

definition levels :: "(string \<times> nat) list" where
  "levels =
     [(''SILLY'', 0), (''TRACE'', 1), (''DEBUG'', 2), (''VERBOSE'', 3), (''INFO'', 4),
      (''TIME'', 5), (''HTTP'', 6), (''SUCCESS'', 7), (''WARN'', 8), (''ERROR'', 9),
      (''FATAL'', 10)]"

definition LoggerLevels :: "string \<Rightarrow> member" where
  "LoggerLevels key =
     (case map_of levels key of
        Some n \<Rightarrow> Rank n
      | None \<Rightarrow>
          (case map_of (map (\<lambda>(k, n). (decimal n, k)) levels) key of
             Some k \<Rightarrow> Name k
           | None \<Rightarrow>
               if key \<in> set Object_prototype then Inherited (inherited_text key)
               else Undefined))"

text \<open>
  The comparison \<^verbatim>\<open>a < b\<close> of two lookup results. Two numbers compare as numbers.
  A level name and the primitive of an inherited property are strings: two strings
  compare by their code units. In every other combination one side converts to
  \<^verbatim>\<open>NaN\<close> (\<^verbatim>\<open>undefined\<close>, or a string that is no numeral beside a number) and the
  comparison is false.
\<close>

fun string_less :: "string \<Rightarrow> string \<Rightarrow> bool" where
  "string_less [] [] = False"
| "string_less [] (y # ys) = True"
| "string_less (x # xs) [] = False"
| "string_less (x # xs) (y # ys) =
     ((of_char x :: nat) < of_char y \<or> (x = y \<and> string_less xs ys))"

fun js_less :: "member \<Rightarrow> member \<Rightarrow> bool" where
  "js_less (Rank a) (Rank b) = (a < b)"
| "js_less (Name a) (Name b) = string_less a b"
| "js_less (Name a) (Inherited b) = string_less a b"
| "js_less (Inherited a) (Name b) = string_less a b"
| "js_less (Inherited a) (Inherited b) = string_less a b"
| "js_less a b = False"

text \<open>The entries of \<^verbatim>\<open>LoggerColors\<close> the logger uses.\<close>

definition esc :: "string \<Rightarrow> string" where
  "esc code = CHR 0x1B # CHR ''['' # code @ ''m''"

definition Reset :: string where "Reset = esc ''0''"
definition FgRed :: string where "FgRed = esc ''31''"
definition FgGreen :: string where "FgGreen = esc ''32''"
definition FgYellow :: string where "FgYellow = esc ''33''"
definition FgBlue :: string where "FgBlue = esc ''34''"
definition FgMagenta :: string where "FgMagenta = esc ''35''"
definition FgCyan :: string where "FgCyan = esc ''36''"
definition FgWhite :: string where "FgWhite = esc ''37''"
definition FgGray :: string where "FgGray = esc ''90''"
definition BgBlack :: string where "BgBlack = esc ''40''"
definition BgRed :: string where "BgRed = esc ''41''"

section \<open>What a call observes of its surroundings\<close>

text \<open>
  The call stack, the clock, the module's file name and the working directory are read
  by the code and not computed by it. Each call takes them in an \<open>env\<close>:
  \<^item> \<open>filename\<close> is \<^verbatim>\<open>__filename\<close>, \<open>relative\<close> is
    \<^verbatim>\<open>path.relative(process.cwd(), _)\<close>;
  \<^item> \<open>stack\<close> is what \<^verbatim>\<open>err.stack\<close> holds when the called method reaches
    \<^verbatim>\<open>__getCallerInfo\<close> (\<open>None\<close> when no array of call sites is there, and the
    loop's first access throws), \<open>ctorStack\<close> the same for the field initialiser of an
    instance the call constructs;
  \<^item> \<open>now\<close> is the \<^verbatim>\<open>new Date()\<close> of \<^verbatim>\<open>__log\<close>, \<open>today\<close> the one of
    \<^verbatim>\<open>__logToFile\<close>, \<open>dateNow\<close> is \<^verbatim>\<open>Date.now()\<close>;
  \<^item> \<open>mkdirSyncThrows\<close> and \<open>appendFileSyncThrows\<close> are the answer of the file
    system to the \<^verbatim>\<open>fs.mkdirSync\<close> and the \<^verbatim>\<open>fs.appendFileSync\<close> of the call:
    the code of the error it throws (\<^verbatim>\<open>ENOTDIR\<close>, \<^verbatim>\<open>EACCES\<close>, \<^verbatim>\<open>ENOSPC\<close> ...),
    or \<open>None\<close> when it carries the call out.
\<close>

record callSite =
  getFileName :: "string option"
  getFunctionName :: "string option"
  getLineNumber :: "nat option"

record date =
  toISOString :: string
  getFullYear :: int
  getMonth :: nat
  getDate :: nat

record env =
  filename :: string
  relative :: "string \<Rightarrow> string"
  stack :: "callSite list option"
  ctorStack :: "callSite list option"
  now :: date
  today :: date
  dateNow :: int
  mkdirSyncThrows :: "string option"
  appendFileSyncThrows :: "string option"

section \<open>Caller resolution\<close>

record callerInfo =
  fileName :: string
  methodName :: string

text \<open>
  The \<^verbatim>\<open>for\<close> loop of \<^verbatim>\<open>__getCallerInfo\<close> over the call sites from index 2 on. It
  stops at the first site whose file name is truthy and differs from \<^verbatim>\<open>__filename\<close>;
  the line number is taken only when that file name does not contain
  \<^verbatim>\<open>logger.ts\<close>. The result is (callerFile, callerMethod, lineNumber).
\<close>

fun scanStack :: "env \<Rightarrow> callSite list \<Rightarrow> string option \<times> string option \<times> nat option" where
  "scanStack e [] = (None, None, None)"
| "scanStack e (site # rest) =
     (case getFileName site of
        None \<Rightarrow> scanStack e rest
      | Some f \<Rightarrow>
          if f \<noteq> [] \<and> f \<noteq> filename e then
            (Some (relative e f),
             Some (case getFunctionName site of
                     None \<Rightarrow> ''anonymous''
                   | Some g \<Rightarrow> if g = [] then ''anonymous'' else g),
             if \<not> str_includes f ''logger.ts'' then getLineNumber site else None)
          else scanStack e rest)"

definition private_getCallerInfo :: "env \<Rightarrow> callSite list option \<Rightarrow> callerInfo" where
  "private_getCallerInfo e stk =
     (case (case stk of None \<Rightarrow> (None, None, None) | Some sites \<Rightarrow> scanStack e (drop 2 sites)) of
        (callerFile, callerMethod, lineNumber) \<Rightarrow>
          \<lparr>fileName =
             (case callerFile of
                None \<Rightarrow> ''unknown''
              | Some f \<Rightarrow> if f = [] then ''unknown'' else f) @ '':'' @
             (case lineNumber of
                None \<Rightarrow> ''-1''
              | Some n \<Rightarrow> if n = 0 then ''-1'' else decimal n),
           methodName =
             (case callerMethod of
                None \<Rightarrow> ''unknown''
              | Some g \<Rightarrow> if g = [] then ''unknown'' else g)\<rparr>)"

section \<open>Loggers and the process-wide state\<close>

datatype trace_link =
  Trace (parentPrefix: "string option") (parentCreationInfo: callerInfo)
        (childCreationInfo: callerInfo) (inheritedTrace: "trace_link option")

text \<open>
  The timer map holds the start times stored in it (its own properties). Reading
  \<^verbatim>\<open>this.timeMap[label]\<close> gives a stored number, a property inherited from
  \<^verbatim>\<open>Object.prototype\<close>, or \<^verbatim>\<open>undefined\<close>; the assignment
  \<^verbatim>\<open>this.timeMap[label] = n\<close> stores \<open>n\<close> under every label but
  \<^verbatim>\<open>__proto__\<close>, where the inherited setter ignores it.
\<close>

datatype property = Own int | FromPrototype | Missing

definition timeMap_get :: "(string \<rightharpoonup> int) \<Rightarrow> string \<Rightarrow> property" where
  "timeMap_get m label =
     (case m label of
        Some n \<Rightarrow> Own n
      | None \<Rightarrow> if label \<in> set Object_prototype then FromPrototype else Missing)"

definition timeMap_set :: "(string \<rightharpoonup> int) \<Rightarrow> string \<Rightarrow> int \<Rightarrow> (string \<rightharpoonup> int)" where
  "timeMap_set m label n = (if label = ''__proto__'' then m else m(label \<mapsto> n))"

record logger =
  timeMap :: "string \<rightharpoonup> int"
  prefix :: "string option"
  creationInfo :: callerInfo
  parentTrace :: "trace_link option"

text \<open>
  Logger instances are objects with identity: the heap holds them, a reference is an
  index into it. The static fields of the class, the console and the file system are
  the rest of the state. The console keeps one argument list per \<^verbatim>\<open>console.log\<close>
  call, oldest first; the file system keeps the directories that exist and the content
  of each file. A call that raises has run up to the raise: its result is the error
  with the state reached (\<open>Inl\<close>), as a call that returns gives its value with the
  state reached (\<open>Inr\<close>).
\<close>

record state =
  globalLogLevel :: string
  logDirectory :: string
  enableFileLogging :: bool
  heap :: "logger list"
  console :: "jsval list list"
  directories :: "string list"
  files :: "string \<rightharpoonup> string"

definition deref :: "state \<Rightarrow> nat \<Rightarrow> logger option" where
  "deref st r = (if r < length (heap st) then Some (heap st ! r) else None)"

section \<open>Paths and the file system\<close>

text \<open>
  \<^verbatim>\<open>path.join\<close> is Node's, not this repository's. The model is the POSIX one for two
  arguments: the non-empty arguments are joined with a slash and the result is
  normalised (empty and \<^verbatim>\<open>.\<close> segments dropped, \<^verbatim>\<open>..\<close> resolved against the
  segment before it, a trailing slash kept).
\<close>

fun splitOn :: "char \<Rightarrow> string \<Rightarrow> string list" where
  "splitOn c [] = [[]]"
| "splitOn c (x # xs) =
     (if x = c then [] # splitOn c xs
      else (case splitOn c xs of [] \<Rightarrow> [[x]] | w # ws \<Rightarrow> (x # w) # ws))"

fun joinWith :: "string \<Rightarrow> string list \<Rightarrow> string" where
  "joinWith sep [] = []"
| "joinWith sep [x] = x"
| "joinWith sep (x # y # ys) = x @ sep @ joinWith sep (y # ys)"

text \<open>
  The segments kept so far are held newest first. \<open>allowAbove\<close> is \<^verbatim>\<open>allowAboveRoot\<close>: a
  relative path keeps the \<^verbatim>\<open>..\<close> it cannot resolve.
\<close>

fun normalizeSegments :: "bool \<Rightarrow> string list \<Rightarrow> string list \<Rightarrow> string list" where
  "normalizeSegments allowAbove res [] = rev res"
| "normalizeSegments allowAbove res (s # ss) =
     (if s = [] \<or> s = ''.'' then normalizeSegments allowAbove res ss
      else if s = ''..'' then
        (case res of
           r # rs \<Rightarrow>
             if r \<noteq> ''..'' then normalizeSegments allowAbove rs ss
             else if allowAbove then normalizeSegments allowAbove (''..'' # res) ss
             else normalizeSegments allowAbove res ss
         | [] \<Rightarrow>
             if allowAbove then normalizeSegments allowAbove [''..''] ss
             else normalizeSegments allowAbove [] ss)
      else normalizeSegments allowAbove (s # res) ss)"

definition normalize :: "string \<Rightarrow> string" where
  "normalize p =
     (if p = [] then ''.''
      else
        let isAbsolute = (hd p = CHR ''/'');
            trailingSeparator = (last p = CHR ''/'');
            q = joinWith ''/'' (normalizeSegments (\<not> isAbsolute) [] (splitOn CHR ''/'' p))
        in if q = [] then (if isAbsolute then ''/'' else if trailingSeparator then ''./'' else ''.'')
           else (if isAbsolute then ''/'' else []) @ q @ (if trailingSeparator then ''/'' else []))"

definition path_join :: "string \<Rightarrow> string \<Rightarrow> string" where
  "path_join a b =
     (case filter (\<lambda>part. part \<noteq> []) [a, b] of
        [] \<Rightarrow> ''.''
      | parts \<Rightarrow> normalize (joinWith ''/'' parts))"

text \<open>
  \<^verbatim>\<open>fs.existsSync\<close>, \<^verbatim>\<open>fs.mkdirSync(dir, {recursive: true})\<close> and
  \<^verbatim>\<open>fs.appendFileSync\<close> on the state's file system. \<^verbatim>\<open>existsSync\<close> never throws.
  The other two throw when the file system refuses them, as the environment says, and
  leave the state as it was; carried out, \<^verbatim>\<open>mkdirSync\<close> records the directory asked
  for (not the ancestors the recursive flag creates) and \<^verbatim>\<open>appendFileSync\<close> creates
  the file that is not there yet.
\<close>

definition existsSync :: "string \<Rightarrow> state \<Rightarrow> bool" where
  "existsSync p st = (p \<in> set (directories st) \<or> files st p \<noteq> None)"

definition mkdirSync :: "env \<Rightarrow> string \<Rightarrow> state \<Rightarrow> js_error \<times> state + state" where
  "mkdirSync e dir st =
     (case mkdirSyncThrows e of
        Some code \<Rightarrow> Inl (FsError code, st)
      | None \<Rightarrow> Inr (st\<lparr>directories := dir # directories st\<rparr>))"

definition appendFileSync :: "env \<Rightarrow> string \<Rightarrow> string \<Rightarrow> state \<Rightarrow> js_error \<times> state + state" where
  "appendFileSync e file data st =
     (case appendFileSyncThrows e of
        Some code \<Rightarrow> Inl (FsError code, st)
      | None \<Rightarrow>
          Inr (st\<lparr>files := (files st)(file \<mapsto>
                 (case files st file of None \<Rightarrow> [] | Some old \<Rightarrow> old) @ data)\<rparr>))"

section \<open>The class Logger\<close>

subsection \<open>Static configuration\<close>

definition setLogLevel :: "string \<Rightarrow> state \<Rightarrow> js_error + state" where
  "setLogLevel level st =
     (if LoggerLevels level \<noteq> Undefined then Inr (st\<lparr>globalLogLevel := level\<rparr>)
      else Inl (Error (''Invalid log level: '' @ level)))"

definition setLogDirectory :: "string \<Rightarrow> state \<Rightarrow> state" where
  "setLogDirectory directory st = st\<lparr>logDirectory := directory\<rparr>"

definition setFileLogging :: "bool \<Rightarrow> state \<Rightarrow> state" where
  "setFileLogging enable st = st\<lparr>enableFileLogging := enable\<rparr>"

text \<open>
  The state a process starts in: the static initialisers of the class, no logger, an
  empty console; \<open>cwd\<close> is \<^verbatim>\<open>process.cwd()\<close>.
\<close>

definition initial_state :: "string \<Rightarrow> string list \<Rightarrow> (string \<rightharpoonup> string) \<Rightarrow> state" where
  "initial_state cwd dirs fs =
     \<lparr>globalLogLevel = ''INFO'', logDirectory = path_join cwd ''.logs'',
      enableFileLogging = True, heap = [], console = [], directories = dirs, files = fs\<rparr>"

subsection \<open>Construction and child loggers\<close>

text \<open>
  \<^verbatim>\<open>new Logger(prefix)\<close>: the field initialisers run first (an empty timer map, the
  creation info from the stack the initialiser sees), then the constructor body stores
  the prefix. The new instance gets a fresh reference.
\<close>

definition new_Logger :: "env \<Rightarrow> string option \<Rightarrow> state \<Rightarrow> nat \<times> state" where
  "new_Logger e pfx st =
     (length (heap st),
      st\<lparr>heap := heap st @
        [\<lparr>timeMap = Map.empty, prefix = pfx,
          creationInfo = private_getCallerInfo e (ctorStack e), parentTrace = None\<rparr>]\<rparr>)"

text \<open>
  \<^verbatim>\<open>child(prefix?, trace = false)\<close>. The template literal
  \<^verbatim>\<open>`${this.prefix} -> ${prefix}`\<close> renders a missing \<open>pfx\<close> as the text
  \<^verbatim>\<open>undefined\<close>.
\<close>

definition child :: "env \<Rightarrow> nat \<Rightarrow> string option \<Rightarrow> bool \<Rightarrow> state \<Rightarrow> js_error \<times> state + nat \<times> state" where
  "child e this pfx trace st =
     (case deref st this of
        None \<Rightarrow> Inl (TypeError, st)
      | Some self \<Rightarrow>
          let childInfo = private_getCallerInfo e (stack e);
              (newLogger, st1) =
                new_Logger e
                  (case prefix self of
                     None \<Rightarrow> pfx
                   | Some own \<Rightarrow>
                       if own \<noteq> []
                       then Some (own @ '' -> '' @
                                  (case pfx of None \<Rightarrow> ''undefined'' | Some p \<Rightarrow> p))
                       else pfx) st
          in if trace then
               Inr (newLogger,
                    st1\<lparr>heap := (heap st1)[newLogger :=
                      (heap st1 ! newLogger)\<lparr>parentTrace :=
                        Some (Trace (prefix self) (creationInfo self) childInfo (parentTrace self))\<rparr>]\<rparr>)
             else Inr (newLogger, st1))"

subsection \<open>The log pipeline\<close>

text \<open>
  \<^verbatim>\<open>__logToFile(message)\<close>: nothing when file logging is off; otherwise the line goes
  to the day's file under the year and year-month directories of the log directory,
  which is created when it is not there. Nothing catches what the file system throws.
\<close>

definition private_logToFile :: "env \<Rightarrow> string \<Rightarrow> state \<Rightarrow> js_error \<times> state + state" where
  "private_logToFile e message st =
     (if \<not> enableFileLogging st then Inr st
      else
        let year = int_toString (getFullYear (today e));
            month = padStart 2 CHR ''0'' (decimal (getMonth (today e) + 1));
            day = padStart 2 CHR ''0'' (decimal (getDate (today e)));
            logDir = path_join (logDirectory st) (year @ ''/'' @ year @ ''-'' @ month);
            logFile = path_join logDir (year @ ''-'' @ month @ ''-'' @ day @ ''.log'')
        in case (if \<not> existsSync logDir st then mkdirSync e logDir st else Inr st) of
             Inl failure \<Rightarrow> Inl failure
           | Inr st1 \<Rightarrow> appendFileSync e logFile (message @ ''\<newline>'') st1)"

text \<open>
  \<^verbatim>\<open>__log(level, messages, color, bgColor)\<close>: the level filter, then one
  \<^verbatim>\<open>console.log\<close> call, then the file line for \<^verbatim>\<open>ERROR\<close> and \<^verbatim>\<open>FATAL\<close>.
  The template literal of the file line joins the messages before
  \<^verbatim>\<open>__logToFile\<close> is called; an exception of the join or of the file system leaves
  the method after the console write. Otherwise it returns \<^verbatim>\<open>this\<close>.
\<close>

definition private_log ::
  "env \<Rightarrow> nat \<Rightarrow> string \<Rightarrow> jsval list \<Rightarrow> string \<Rightarrow> string \<Rightarrow> state \<Rightarrow> js_error \<times> state + nat \<times> state" where
  "private_log e this level messages color bgColor st =
     (case deref st this of
        None \<Rightarrow> Inl (TypeError, st)
      | Some self \<Rightarrow>
          if js_less (LoggerLevels level) (LoggerLevels (globalLogLevel st)) then Inr (this, st)
          else
            let timestamp = toISOString (now e);
                info = private_getCallerInfo e (stack e);
                st1 = st\<lparr>console := console st @
                  [[JStr (bgColor @ color @ ''\<newline>'' @ timestamp @ '' |''),
                    JStr (padStart 10 CHR '' '' level),
                    JStr ''\<newline>|---'',
                    JStr (fileName info),
                    JStr ''\<newline>|---'',
                    JStr (methodName info),
                    JStr (case prefix self of
                            None \<Rightarrow> []
                          | Some p \<Rightarrow> if p \<noteq> [] then ''\<newline>|--- '' @ p else []),
                    JStr (''\<newline>'' @ Reset @ Reset)]
                   @ messages @ [JStr ''\<newline>'']]\<rparr>
            in if level \<in> set [''ERROR'', ''FATAL''] then
                 (case join '' '' messages of
                    Inl err \<Rightarrow> Inl (err, st1)
                  | Inr joined \<Rightarrow>
                      (case private_logToFile e
                              (timestamp @ '' | '' @ level @ '' | '' @ fileName info @ '' | '' @
                               methodName info @
                               (case prefix self of
                                  None \<Rightarrow> []
                                | Some p \<Rightarrow> if p \<noteq> [] then '' | '' @ p else []) @
                               '' | '' @ joined)
                              st1 of
                         Inl failure \<Rightarrow> Inl failure
                       | Inr st2 \<Rightarrow> Inr (this, st2)))
               else Inr (this, st1))"

text \<open>
  The \<^verbatim>\<open>while\<close> loop of \<^verbatim>\<open>log\<close>: one line for the current link, then on to the
  inherited one, until there is none.
\<close>

fun traceMessages :: "trace_link \<Rightarrow> string list" where
  "traceMessages (Trace pp parentInfo childInfo inherited) =
     (''Trace: Parent created at '' @ fileName parentInfo @
      '', Child created at '' @ fileName childInfo) #
     (case inherited of None \<Rightarrow> [] | Some older \<Rightarrow> traceMessages older)"

text \<open>
  \<^verbatim>\<open>log(level, ...messages)\<close>: with a trace link, the reversed trace lines are pushed
  onto the messages; then \<^verbatim>\<open>__log\<close> with the default colours.
\<close>

definition log :: "env \<Rightarrow> nat \<Rightarrow> string \<Rightarrow> jsval list \<Rightarrow> state \<Rightarrow> js_error \<times> state + nat \<times> state" where
  "log e this level messages st =
     (case deref st this of
        None \<Rightarrow> Inl (TypeError, st)
      | Some self \<Rightarrow>
          (case parentTrace self of
             None \<Rightarrow> private_log e this level messages Reset Reset st
           | Some link \<Rightarrow>
               private_log e this level (messages @ map JStr (rev (traceMessages link)))
                 Reset Reset st))"

subsection \<open>The severity methods\<close>

type_synonym severity_method = "env \<Rightarrow> nat \<Rightarrow> jsval list \<Rightarrow> state \<Rightarrow> js_error \<times> state + nat \<times> state"

definition info :: severity_method where
  "info e this messages st = private_log e this ''INFO'' messages FgCyan BgBlack st"

definition warn :: severity_method where
  "warn e this messages st = private_log e this ''WARN'' messages FgYellow BgBlack st"

definition error :: severity_method where
  "error e this messages st = private_log e this ''ERROR'' messages FgRed BgBlack st"

definition success :: severity_method where
  "success e this messages st = private_log e this ''SUCCESS'' messages FgGreen BgBlack st"

definition debug :: severity_method where
  "debug e this messages st = private_log e this ''DEBUG'' messages FgBlue BgBlack st"

definition verbose :: severity_method where
  "verbose e this messages st = private_log e this ''VERBOSE'' messages FgMagenta BgBlack st"

definition fatal :: severity_method where
  "fatal e this messages st = private_log e this ''FATAL'' messages FgWhite BgRed st"

definition silly :: severity_method where
  "silly e this messages st = private_log e this ''SILLY'' messages FgGray BgBlack st"

definition http :: severity_method where
  "http e this messages st = private_log e this ''HTTP'' messages FgMagenta BgBlack st"

definition trace :: severity_method where
  "trace e this messages st = private_log e this ''TRACE'' messages FgWhite BgBlack st"

subsection \<open>Timers\<close>

definition timeStart :: "env \<Rightarrow> nat \<Rightarrow> string \<Rightarrow> state \<Rightarrow> js_error \<times> state + nat \<times> state" where
  "timeStart e this label st =
     (case deref st this of
        None \<Rightarrow> Inl (TypeError, st)
      | Some self \<Rightarrow>
          Inr (this,
               st\<lparr>heap := (heap st)[this :=
                 self\<lparr>timeMap := timeMap_set (timeMap self) label (dateNow e)\<rparr>]\<rparr>))"

text \<open>
  \<^verbatim>\<open>timeEnd(label)\<close>. The test \<^verbatim>\<open>if (startTime)\<close> is on the truthiness of what
  the lookup gives: \<^verbatim>\<open>undefined\<close> and a stored 0 take the \<^verbatim>\<open>else\<close> branch, which
  is \<open>timeEnd_missing\<close>; a stored number other than 0 and an inherited property take
  the first branch. There the duration is \<^verbatim>\<open>Date.now() - startTime\<close>, which is
  \<^verbatim>\<open>NaN\<close> for an inherited property, and \<^verbatim>\<open>delete\<close> after the log call removes
  the stored entry, if there is one.
\<close>

definition timeEnd_missing :: "env \<Rightarrow> nat \<Rightarrow> string \<Rightarrow> state \<Rightarrow> js_error \<times> state + nat \<times> state" where
  "timeEnd_missing e this label st =
     (case private_log e this ''TIME'' [JStr (label @ '': -1ms'')] FgRed BgBlack st of
        Inl failure \<Rightarrow> Inl failure
      | Inr (r, st1) \<Rightarrow> Inr (this, st1))"

definition timeEnd_found :: "env \<Rightarrow> nat \<Rightarrow> string \<Rightarrow> string \<Rightarrow> state \<Rightarrow> js_error \<times> state + nat \<times> state" where
  "timeEnd_found e this label duration st =
     (case private_log e this ''TIME'' [JStr (label @ '': '' @ duration @ ''ms'')]
             FgGreen BgBlack st of
        Inl failure \<Rightarrow> Inl failure
      | Inr (r, st1) \<Rightarrow>
          (case deref st1 this of
             None \<Rightarrow> Inl (TypeError, st1)
           | Some self1 \<Rightarrow>
               Inr (this,
                    st1\<lparr>heap := (heap st1)[this :=
                      self1\<lparr>timeMap := (timeMap self1)(label := None)\<rparr>]\<rparr>)))"

definition timeEnd :: "env \<Rightarrow> nat \<Rightarrow> string \<Rightarrow> state \<Rightarrow> js_error \<times> state + nat \<times> state" where
  "timeEnd e this label st =
     (case deref st this of
        None \<Rightarrow> Inl (TypeError, st)
      | Some self \<Rightarrow>
          (case timeMap_get (timeMap self) label of
             Missing \<Rightarrow> timeEnd_missing e this label st
           | FromPrototype \<Rightarrow> timeEnd_found e this label ''NaN'' st
           | Own startTime \<Rightarrow>
               if startTime \<noteq> 0
               then timeEnd_found e this label (int_toString (dateNow e - startTime)) st
               else timeEnd_missing e this label st))"

section \<open>Vocabulary of the statements\<close>

text \<open>
  The severity methods with their level names, and the public entry points that log at a
  level \<open>L\<close>: the generic \<^verbatim>\<open>log\<close> (which consults the trace chain, marked
  \<open>True\<close>) and the shortcut bound to \<open>L\<close>, when there is one.
\<close>

definition shortcuts :: "(string \<times> severity_method) list" where
  "shortcuts =
     [(''INFO'', info), (''WARN'', warn), (''ERROR'', error), (''SUCCESS'', success),
      (''DEBUG'', debug), (''VERBOSE'', verbose), (''FATAL'', fatal), (''SILLY'', silly),
      (''HTTP'', http), (''TRACE'', trace)]"

definition rendered_trace :: "logger \<Rightarrow> jsval list" where
  "rendered_trace self =
     (case parentTrace self of None \<Rightarrow> [] | Some link \<Rightarrow> map JStr (rev (traceMessages link)))"

definition entry_points :: "string \<Rightarrow> (severity_method \<times> bool) list" where
  "entry_points L =
     (\<lambda>e this messages st. log e this L messages st, True) #
     map (\<lambda>(name, m). (m, False)) (filter (\<lambda>(name, m). name = L) shortcuts)"

text \<open>
  The state a call ends in, whether it returns or raises, and what it answers: the
  error raised or the value returned; the same for \<^verbatim>\<open>__logToFile\<close>, which returns
  nothing. \<open>returning\<close> turns the outcome of \<^verbatim>\<open>__logToFile\<close> into that of a method
  that returns \<^verbatim>\<open>this\<close> after it.
\<close>

definition state_of :: "js_error \<times> state + nat \<times> state \<Rightarrow> state" where
  "state_of r = (case r of Inl (err, s) \<Rightarrow> s | Inr (v, s) \<Rightarrow> s)"

definition answer_of :: "js_error \<times> state + nat \<times> state \<Rightarrow> js_error + nat" where
  "answer_of r = (case r of Inl (err, s) \<Rightarrow> Inl err | Inr (v, s) \<Rightarrow> Inr v)"

definition sink_state :: "js_error \<times> state + state \<Rightarrow> state" where
  "sink_state r = (case r of Inl (err, s) \<Rightarrow> s | Inr s \<Rightarrow> s)"

definition sink_answer :: "js_error \<times> state + state \<Rightarrow> js_error option" where
  "sink_answer r = (case r of Inl (err, s) \<Rightarrow> Some err | Inr s \<Rightarrow> None)"

definition returning :: "nat \<Rightarrow> js_error \<times> state + state \<Rightarrow> js_error \<times> state + nat \<times> state" where
  "returning this r = (case r of Inl failure \<Rightarrow> Inl failure | Inr s \<Rightarrow> Inr (this, s))"

text \<open>
  The eight leading arguments of the \<^verbatim>\<open>console.log\<close> call of \<^verbatim>\<open>__log\<close>, and the
  line it hands to \<^verbatim>\<open>__logToFile\<close> once the fragments are joined.
\<close>

definition console_block :: "env \<Rightarrow> logger \<Rightarrow> string \<Rightarrow> string \<Rightarrow> string \<Rightarrow> jsval list" where
  "console_block e self level color bgColor =
     [JStr (bgColor @ color @ ''\<newline>'' @ toISOString (now e) @ '' |''),
      JStr (padStart 10 CHR '' '' level),
      JStr ''\<newline>|---'',
      JStr (fileName (private_getCallerInfo e (stack e))),
      JStr ''\<newline>|---'',
      JStr (methodName (private_getCallerInfo e (stack e))),
      JStr (case prefix self of None \<Rightarrow> [] | Some p \<Rightarrow> if p \<noteq> [] then ''\<newline>|--- '' @ p else []),
      JStr (''\<newline>'' @ Reset @ Reset)]"

definition file_line :: "env \<Rightarrow> logger \<Rightarrow> string \<Rightarrow> string \<Rightarrow> string" where
  "file_line e self level joined =
     toISOString (now e) @ '' | '' @ level @ '' | '' @
     fileName (private_getCallerInfo e (stack e)) @ '' | '' @
     methodName (private_getCallerInfo e (stack e)) @
     (case prefix self of None \<Rightarrow> [] | Some p \<Rightarrow> if p \<noteq> [] then '' | '' @ p else []) @
     '' | '' @ joined"

text \<open>The prefix \<^verbatim>\<open>child\<close> passes to the constructor of the new logger.\<close>

definition child_prefix :: "logger \<Rightarrow> string option \<Rightarrow> string option" where
  "child_prefix self pfx =
     (case prefix self of
        None \<Rightarrow> pfx
      | Some own \<Rightarrow>
          if own \<noteq> [] then Some (own @ '' -> '' @ (case pfx of None \<Rightarrow> ''undefined'' | Some p \<Rightarrow> p))
          else pfx)"

text \<open>
  The links of a trace chain in traversal order (newest first), the line rendered for
  one link, and the length of the chain a logger holds.
\<close>

fun chain :: "trace_link \<Rightarrow> trace_link list" where
  "chain (Trace pp parentInfo childInfo inherited) =
     Trace pp parentInfo childInfo inherited #
     (case inherited of None \<Rightarrow> [] | Some older \<Rightarrow> chain older)"

definition trace_line :: "trace_link \<Rightarrow> string" where
  "trace_line link =
     ''Trace: Parent created at '' @ fileName (parentCreationInfo link) @
     '', Child created at '' @ fileName (childCreationInfo link)"

definition chain_length :: "trace_link option \<Rightarrow> nat" where
  "chain_length t = (case t of None \<Rightarrow> 0 | Some link \<Rightarrow> length (chain link))"

text \<open>
  A line of descent: \<^verbatim>\<open>child\<close> called on a logger, then on the child it returned,
  and so on, one call per edge (its environment, prefix argument and trace flag).
\<close>

fun descend ::
  "(env \<times> string option \<times> bool) list \<Rightarrow> nat \<Rightarrow> state \<Rightarrow> js_error \<times> state + nat \<times> state" where
  "descend [] this st = Inr (this, st)"
| "descend ((e, pfx, tr) # edges) this st =
     (case child e this pfx tr st of
        Inl failure \<Rightarrow> Inl failure
      | Inr (c, st') \<Rightarrow> descend edges c st')"

text \<open>The state in which the logger \<open>this\<close> has no prefix, all else equal.\<close>

definition drop_prefix :: "nat \<Rightarrow> state \<Rightarrow> state" where
  "drop_prefix this st =
     (case deref st this of
        None \<Rightarrow> st
      | Some self \<Rightarrow> st\<lparr>heap := (heap st)[this := self\<lparr>prefix := None\<rparr>]\<rparr>)"

text \<open>
  The console after a \<^verbatim>\<open>TIME\<close>-level call of \<^verbatim>\<open>__log\<close> with one fragment and the
  given foreground colour: unchanged when \<^verbatim>\<open>TIME\<close> is below the global minimum, one
  more write otherwise.
\<close>

definition time_console :: "env \<Rightarrow> logger \<Rightarrow> string \<Rightarrow> state \<Rightarrow> string \<Rightarrow> jsval list list" where
  "time_console e self color st line =
     (if js_less (LoggerLevels ''TIME'') (LoggerLevels (globalLogLevel st)) then console st
      else console st @
             [console_block e self ''TIME'' color BgBlack @ [JStr line, JStr ''\<newline>'']])"

text \<open>
  The path of the day's log file, as the specification writes it:
  \<^verbatim>\<open><logDirectory>/<YYYY>/<YYYY>-<MM>/<YYYY>-<MM>-<DD>.log\<close> with month and day padded
  to two digits (\<open>day_file\<close>), and as the code builds it with \<^verbatim>\<open>path.join\<close>
  (\<open>joined_day_file\<close>, in the directory \<open>joined_day_dir\<close>). A path is clean when
  \<^verbatim>\<open>path.join\<close> has nothing to normalise in it: no empty, \<^verbatim>\<open>.\<close> or \<^verbatim>\<open>..\<close>
  segment and no trailing slash. The file system accepts the write of a call
  (\<open>sink_accepts\<close>) when it refuses neither the \<^verbatim>\<open>mkdirSync\<close>, where the directory
  is not there, nor the \<^verbatim>\<open>appendFileSync\<close>.
\<close>

definition clean_segment :: "string \<Rightarrow> bool" where
  "clean_segment s = (s \<noteq> [] \<and> s \<noteq> ''.'' \<and> s \<noteq> ''..'' \<and> CHR ''/'' \<notin> set s)"

definition clean_path :: "string \<Rightarrow> bool" where
  "clean_path p =
     (p \<noteq> [] \<and> list_all clean_segment (splitOn CHR ''/'' (if hd p = CHR ''/'' then tl p else p)))"

definition two_digits :: "nat \<Rightarrow> string" where
  "two_digits n = (if n < 10 then CHR ''0'' # decimal n else decimal n)"

definition day_file :: "string \<Rightarrow> date \<Rightarrow> string" where
  "day_file dir d =
     dir @ ''/'' @ int_toString (getFullYear d) @
     ''/'' @ int_toString (getFullYear d) @ ''-'' @ two_digits (getMonth d + 1) @
     ''/'' @ int_toString (getFullYear d) @ ''-'' @ two_digits (getMonth d + 1) @ ''-'' @
       two_digits (getDate d) @ ''.log''"

definition joined_day_dir :: "string \<Rightarrow> date \<Rightarrow> string" where
  "joined_day_dir dir d =
     (let year = int_toString (getFullYear d);
          month = padStart 2 CHR ''0'' (decimal (getMonth d + 1))
      in path_join dir (year @ ''/'' @ year @ ''-'' @ month))"

definition sink_accepts :: "env \<Rightarrow> state \<Rightarrow> bool" where
  "sink_accepts e st =
     ((existsSync (joined_day_dir (logDirectory st) (today e)) st \<or> mkdirSyncThrows e = None) \<and>
      appendFileSyncThrows e = None)"

definition joined_day_file :: "string \<Rightarrow> date \<Rightarrow> string" where
  "joined_day_file dir d =
     (let year = int_toString (getFullYear d);
          month = padStart 2 CHR ''0'' (decimal (getMonth d + 1));
          day = padStart 2 CHR ''0'' (decimal (getDate d))
      in path_join (path_join dir (year @ ''/'' @ year @ ''-'' @ month))
           (year @ ''-'' @ month @ ''-'' @ day @ ''.log''))"

section \<open>A concrete process\<close>

text \<open>
  One environment and one state for the examples: a logger with prefix \<^verbatim>\<open>A\<close> created
  at line 3 of \<^verbatim>\<open>src/server.js\<close>, calls made from \<^verbatim>\<open>main\<close> at line 12, on
  2024-03-07, with the log directory \<^verbatim>\<open>/tmp/logs\<close>.
\<close>

definition example_env :: env where
  "example_env =
     \<lparr>filename = ''/app/node_modules/@tfpkgr/logger/dist/index.js'',
      relative = (\<lambda>f. drop 5 f),
      stack = Some
        [\<lparr>getFileName = Some ''/app/node_modules/@tfpkgr/logger/dist/index.js'',
          getFunctionName = Some ''__getCallerInfo'', getLineNumber = Some 150\<rparr>,
         \<lparr>getFileName = Some ''/app/node_modules/@tfpkgr/logger/dist/index.js'',
          getFunctionName = Some ''__log'', getLineNumber = Some 202\<rparr>,
         \<lparr>getFileName = Some ''/app/node_modules/@tfpkgr/logger/dist/index.js'',
          getFunctionName = Some ''info'', getLineNumber = Some 258\<rparr>,
         \<lparr>getFileName = Some ''/app/src/server.js'',
          getFunctionName = Some ''main'', getLineNumber = Some 12\<rparr>],
      ctorStack = Some
        [\<lparr>getFileName = Some ''/app/node_modules/@tfpkgr/logger/dist/index.js'',
          getFunctionName = Some ''__getCallerInfo'', getLineNumber = Some 150\<rparr>,
         \<lparr>getFileName = Some ''/app/node_modules/@tfpkgr/logger/dist/index.js'',
          getFunctionName = Some ''Logger'', getLineNumber = Some 40\<rparr>,
         \<lparr>getFileName = Some ''/app/src/server.js'',
          getFunctionName = None, getLineNumber = Some 3\<rparr>],
      now = \<lparr>toISOString = ''2024-03-07T10:15:30.000Z'', getFullYear = 2024, getMonth = 2, getDate = 7\<rparr>,
      today = \<lparr>toISOString = ''2024-03-07T10:15:30.001Z'', getFullYear = 2024, getMonth = 2, getDate = 7\<rparr>,
      dateNow = 1709806530000,
      mkdirSyncThrows = None, appendFileSyncThrows = None\<rparr>"

definition example_state :: state where
  "example_state = snd (new_Logger example_env (Some ''A'') ((initial_state ''/app'' [] Map.empty)\<lparr>logDirectory := ''/tmp/logs''\<rparr>))"


definition example_logger :: logger where
  "example_logger =
     \<lparr>timeMap = Map.empty, prefix = Some ''A'',
      creationInfo = \<lparr>fileName = ''src/server.js:3'', methodName = ''anonymous''\<rparr>,
      parentTrace = None\<rparr>"


text \<open>The same process with the global minimum raised to \<^verbatim>\<open>FATAL\<close>.\<close>

definition strict_state :: state where
  "strict_state = example_state\<lparr>globalLogLevel := ''FATAL''\<rparr>"


text \<open>
  The environment of a \<^verbatim>\<open>child\<close> call made from line \<open>n\<close> of
  \<^verbatim>\<open>src/server.js\<close>; the state after \<^verbatim>\<open>child('B', true)\<close> at line 30 on the first
  logger and \<^verbatim>\<open>child('C', true)\<close> at line 40 on the result, with the leaf it holds;
  and the state with a second logger whose prefix is the empty string.
\<close>

definition env_at :: "nat \<Rightarrow> env" where
  "env_at n =
     example_env
       \<lparr>stack := Some
          [\<lparr>getFileName = Some (filename example_env),
            getFunctionName = Some ''__getCallerInfo'', getLineNumber = Some 150\<rparr>,
           \<lparr>getFileName = Some (filename example_env),
            getFunctionName = Some ''child'', getLineNumber = Some 88\<rparr>,
           \<lparr>getFileName = Some ''/app/src/server.js'',
            getFunctionName = Some ''main'', getLineNumber = Some n\<rparr>],
        ctorStack := Some
          [\<lparr>getFileName = Some (filename example_env),
            getFunctionName = Some ''__getCallerInfo'', getLineNumber = Some 150\<rparr>,
           \<lparr>getFileName = Some (filename example_env),
            getFunctionName = Some ''Logger'', getLineNumber = Some 40\<rparr>,
           \<lparr>getFileName = Some (filename example_env),
            getFunctionName = Some ''child'', getLineNumber = Some 89\<rparr>,
           \<lparr>getFileName = Some ''/app/src/server.js'',
            getFunctionName = Some ''main'', getLineNumber = Some n\<rparr>]\<rparr>"

definition nested_state :: state where
  "nested_state =
     (case child (env_at 30) 0 (Some ''B'') True example_state of
        Inl err \<Rightarrow> example_state
      | Inr (a, s2) \<Rightarrow>
          (case child (env_at 40) a (Some ''C'') True s2 of
             Inl err \<Rightarrow> s2
           | Inr (b, s3) \<Rightarrow> s3))"

definition example_link :: trace_link where
  "example_link =
     Trace (Some ''A -> B'') \<lparr>fileName = ''src/server.js:30'', methodName = ''main''\<rparr>
       \<lparr>fileName = ''src/server.js:40'', methodName = ''main''\<rparr>
       (Some (Trace (Some ''A'') \<lparr>fileName = ''src/server.js:3'', methodName = ''anonymous''\<rparr>
                \<lparr>fileName = ''src/server.js:30'', methodName = ''main''\<rparr> None))"

definition example_leaf :: logger where
  "example_leaf =
     \<lparr>timeMap = Map.empty, prefix = Some ''A -> B -> C'',
      creationInfo = \<lparr>fileName = ''src/server.js:40'', methodName = ''main''\<rparr>,
      parentTrace = Some example_link\<rparr>"

definition blank_state :: state where
  "blank_state = snd (new_Logger example_env (Some []) example_state)"


text \<open>
  The first logger with a timer \<^verbatim>\<open>x\<close> started, and an environment 250 ms later.
\<close>

definition timed_state :: state where
  "timed_state =
     (case timeStart example_env 0 ''x'' example_state of
        Inl err \<Rightarrow> example_state
      | Inr (r, s) \<Rightarrow> s)"

definition later_env :: env where
  "later_env = example_env\<lparr>dateNow := dateNow example_env + 250\<rparr>"


text \<open>
  The same process with the log directory under the device \<^verbatim>\<open>/dev/null\<close>, where the
  file system refuses to make a directory, with a file system that refuses the append,
  and with the log directory \<^verbatim>\<open>./logs\<close>.
\<close>

definition refusing_env :: env where
  "refusing_env = example_env\<lparr>mkdirSyncThrows := Some ''ENOTDIR''\<rparr>"

definition readonly_env :: env where
  "readonly_env = example_env\<lparr>appendFileSyncThrows := Some ''EACCES''\<rparr>"

definition devnull_state :: state where
  "devnull_state = example_state\<lparr>logDirectory := ''/dev/null''\<rparr>"

definition dotted_state :: state where
  "dotted_state = example_state\<lparr>logDirectory := ''./logs''\<rparr>"

text \<open>
  The first logger with a timer \<^verbatim>\<open>x\<close> started at the clock reading 0, and an
  environment whose clock has gone back by 100 ms since the timer of \<open>timed_state\<close>
  was started.
\<close>

definition epoch_state :: state where
  "epoch_state =
     (case timeStart (example_env\<lparr>dateNow := 0\<rparr>) 0 ''x'' example_state of
        Inl failure \<Rightarrow> example_state
      | Inr (r, s) \<Rightarrow> s)"

definition earlier_env :: env where
  "earlier_env = example_env\<lparr>dateNow := dateNow example_env - 100\<rparr>"

section \<open>The pipeline, step by step\<close>

lemma deref_console_update [simp]: "deref (st\<lparr>console := c\<rparr>) r = deref st r"
  by (simp add: deref_def)

lemma private_logToFile_cases:
  "private_logToFile e line st =
     (if \<not> enableFileLogging st then Inr st
      else if \<not> existsSync (joined_day_dir (logDirectory st) (today e)) st \<and> mkdirSyncThrows e \<noteq> None
      then Inl (FsError (the (mkdirSyncThrows e)), st)
      else
        let st1 = (if existsSync (joined_day_dir (logDirectory st) (today e)) st then st
                   else st\<lparr>directories := joined_day_dir (logDirectory st) (today e) # directories st\<rparr>)
        in case appendFileSyncThrows e of
             Some code \<Rightarrow> Inl (FsError code, st1)
           | None \<Rightarrow>
               Inr (st1\<lparr>files := (files st)(joined_day_file (logDirectory st) (today e) \<mapsto>
                  (case files st (joined_day_file (logDirectory st) (today e)) of
                     None \<Rightarrow> [] | Some old \<Rightarrow> old) @ line @ ''\<newline>'')\<rparr>))"
  by (auto simp: private_logToFile_def joined_day_dir_def joined_day_file_def Let_def
        mkdirSync_def appendFileSync_def split: option.splits)

lemma private_logToFile_frame [simp]:
  "heap (sink_state (private_logToFile e line st)) = heap st"
  "console (sink_state (private_logToFile e line st)) = console st"
  "globalLogLevel (sink_state (private_logToFile e line st)) = globalLogLevel st"
  "logDirectory (sink_state (private_logToFile e line st)) = logDirectory st"
  "enableFileLogging (sink_state (private_logToFile e line st)) = enableFileLogging st"
  by (simp_all add: private_logToFile_cases sink_state_def Let_def split: option.splits)

lemma private_logToFile_files:
  "files (sink_state (private_logToFile e line st)) =
     (if enableFileLogging st \<and> sink_accepts e st
      then (files st)(joined_day_file (logDirectory st) (today e) \<mapsto>
             (case files st (joined_day_file (logDirectory st) (today e)) of
                None \<Rightarrow> [] | Some old \<Rightarrow> old) @ line @ ''\<newline>'')
      else files st)"
  by (auto simp: private_logToFile_cases sink_state_def sink_accepts_def Let_def
        split: option.splits)

lemma private_logToFile_answer:
  "sink_answer (private_logToFile e line st) =
     (if \<not> enableFileLogging st then None
      else if \<not> existsSync (joined_day_dir (logDirectory st) (today e)) st \<and> mkdirSyncThrows e \<noteq> None
      then map_option FsError (mkdirSyncThrows e)
      else map_option FsError (appendFileSyncThrows e))"
  by (auto simp: private_logToFile_cases sink_answer_def Let_def split: option.splits)

lemma sink_result: "r = (case sink_answer r of None \<Rightarrow> Inr (sink_state r) | Some err \<Rightarrow> Inl (err, sink_state r))"
  by (auto simp: sink_answer_def sink_state_def split: sum.splits)

lemma private_logToFile_returns:
  "enableFileLogging st \<longrightarrow> sink_accepts e st \<Longrightarrow>
   private_logToFile e line st = Inr (sink_state (private_logToFile e line st))"
  by (subst sink_result[of "private_logToFile e line st"])
     (auto simp: private_logToFile_answer sink_accepts_def split: option.splits)

lemma private_logToFile_raises:
  "enableFileLogging st \<Longrightarrow> \<not> sink_accepts e st \<Longrightarrow>
   \<exists>code. private_logToFile e line st = Inl (FsError code, sink_state (private_logToFile e line st))"
  by (subst sink_result[of "private_logToFile e line st"])
     (auto simp: private_logToFile_answer sink_accepts_def split: option.splits)

lemma private_log_filtered:
  "deref st this = Some self \<Longrightarrow> js_less (LoggerLevels L) (LoggerLevels (globalLogLevel st))
   \<Longrightarrow> private_log e this L msgs c b st = Inr (this, st)"
  by (simp add: private_log_def)

lemma private_log_admitted:
  "deref st this = Some self \<Longrightarrow> \<not> js_less (LoggerLevels L) (LoggerLevels (globalLogLevel st))
   \<Longrightarrow> private_log e this L msgs c b st =
       (if L = ''ERROR'' \<or> L = ''FATAL''
        then (case join '' '' msgs of
                Inl err \<Rightarrow>
                  Inl (err, st\<lparr>console := console st @
                         [console_block e self L c b @ msgs @ [JStr ''\<newline>'']]\<rparr>)
              | Inr joined \<Rightarrow>
                  returning this (private_logToFile e (file_line e self L joined)
                    (st\<lparr>console := console st @
                         [console_block e self L c b @ msgs @ [JStr ''\<newline>'']]\<rparr>)))
        else Inr (this, st\<lparr>console := console st @
                         [console_block e self L c b @ msgs @ [JStr ''\<newline>'']]\<rparr>))"
  by (simp add: private_log_def console_block_def file_line_def returning_def Let_def
      split: sum.splits)

lemma state_of_returning [simp]: "state_of (returning this r) = sink_state r"
  by (simp add: state_of_def returning_def sink_state_def split: sum.splits prod.splits)

lemma answer_of_returning:
  "answer_of (returning this r) = (case sink_answer r of None \<Rightarrow> Inr this | Some err \<Rightarrow> Inl err)"
  by (simp add: answer_of_def returning_def sink_answer_def split: sum.splits prod.splits)

lemma answer_of_simps [simp]:
  "answer_of (Inr (v, s)) = Inr v" "answer_of (Inl (err, s)) = Inl err"
  by (simp_all add: answer_of_def)

lemma state_of_simps [simp]:
  "state_of (Inr (v, s)) = s" "state_of (Inl (err, s)) = s"
  by (simp_all add: state_of_def)

lemma sink_accepts_console [simp]: "sink_accepts e (st\<lparr>console := c\<rparr>) = sink_accepts e st"
  by (simp add: sink_accepts_def existsSync_def)

text \<open>What an admitted call leaves behind, whether it returns or raises.\<close>

lemma private_log_admitted_console:
  assumes "deref st this = Some self"
    and "\<not> js_less (LoggerLevels L) (LoggerLevels (globalLogLevel st))"
  shows "console (state_of (private_log e this L msgs c b st)) =
           console st @ [console_block e self L c b @ msgs @ [JStr ''\<newline>'']]"
    and "heap (state_of (private_log e this L msgs c b st)) = heap st"
    and "globalLogLevel (state_of (private_log e this L msgs c b st)) = globalLogLevel st"
    and "logDirectory (state_of (private_log e this L msgs c b st)) = logDirectory st"
    and "enableFileLogging (state_of (private_log e this L msgs c b st)) = enableFileLogging st"
  unfolding private_log_admitted[OF assms]
  by (simp_all split: sum.splits)

lemma private_log_admitted_files:
  assumes "deref st this = Some self"
    and "\<not> js_less (LoggerLevels L) (LoggerLevels (globalLogLevel st))"
  shows "files (state_of (private_log e this L msgs c b st)) =
           (case join '' '' msgs of
              Inl err \<Rightarrow> files st
            | Inr joined \<Rightarrow>
                if (L = ''ERROR'' \<or> L = ''FATAL'') \<and> enableFileLogging st \<and> sink_accepts e st
                then (files st)(joined_day_file (logDirectory st) (today e) \<mapsto>
                       (case files st (joined_day_file (logDirectory st) (today e)) of
                          None \<Rightarrow> [] | Some old \<Rightarrow> old) @
                       file_line e self L joined @ ''\<newline>'')
                else files st)"
proof (cases "join '' '' msgs")
  case (Inl err)
  then show ?thesis unfolding private_log_admitted[OF assms] by simp
next
  case (Inr joined)
  show ?thesis
  proof (cases "L = ''ERROR'' \<or> L = ''FATAL''")
    case True
    then show ?thesis unfolding private_log_admitted[OF assms] using Inr
      by (simp add: private_logToFile_files)
  next
    case False
    then show ?thesis unfolding private_log_admitted[OF assms] using Inr by simp
  qed
qed

lemma private_log_admitted_returns:
  assumes "deref st this = Some self"
    and "\<not> js_less (LoggerLevels L) (LoggerLevels (globalLogLevel st))"
    and "(L \<noteq> ''ERROR'' \<and> L \<noteq> ''FATAL'') \<or>
         ((\<exists>joined. join '' '' msgs = Inr joined) \<and> (enableFileLogging st \<longrightarrow> sink_accepts e st))"
  shows "private_log e this L msgs c b st =
           Inr (this, state_of (private_log e this L msgs c b st))"
proof (cases "L = ''ERROR'' \<or> L = ''FATAL''")
  case False
  then show ?thesis unfolding private_log_admitted[OF assms(1,2)] by simp
next
  case True
  then obtain joined where j: "join '' '' msgs = Inr joined"
    and a: "enableFileLogging st \<longrightarrow> sink_accepts e st"
    using assms(3) by auto
  let ?st1 = "st\<lparr>console := console st @ [console_block e self L c b @ msgs @ [JStr ''\<newline>'']]\<rparr>"
  have "enableFileLogging ?st1 \<longrightarrow> sink_accepts e ?st1" using a by simp
  from private_logToFile_returns[OF this, of "file_line e self L joined"]
  obtain s where s: "private_logToFile e (file_line e self L joined) ?st1 = Inr s" by blast
  show ?thesis
    unfolding private_log_admitted[OF assms(1,2)] using True j s
    by (simp add: returning_def)
qed

lemma private_log_admitted_raises:
  assumes "deref st this = Some self"
    and "\<not> js_less (LoggerLevels L) (LoggerLevels (globalLogLevel st))"
    and "L = ''ERROR'' \<or> L = ''FATAL''"
    and "(\<exists>err. join '' '' msgs = Inl err) \<or> (enableFileLogging st \<and> \<not> sink_accepts e st)"
  shows "\<exists>err. private_log e this L msgs c b st =
           Inl (err, state_of (private_log e this L msgs c b st))"
proof (cases "join '' '' msgs")
  case (Inl err)
  then show ?thesis unfolding private_log_admitted[OF assms(1,2)] using assms(3) by simp
next
  case (Inr joined)
  let ?st1 = "st\<lparr>console := console st @ [console_block e self L c b @ msgs @ [JStr ''\<newline>'']]\<rparr>"
  have "enableFileLogging ?st1" "\<not> sink_accepts e ?st1" using assms(4) Inr by simp_all
  from private_logToFile_raises[OF this, of "file_line e self L joined"]
  obtain code s where s: "private_logToFile e (file_line e self L joined) ?st1 = Inl (FsError code, s)"
    by blast
  show ?thesis
    unfolding private_log_admitted[OF assms(1,2)] using assms(3) Inr s
    by (simp add: returning_def)
qed

lemma join_item_Thrown: "join_item x = Inl err \<Longrightarrow> \<exists>what. err = Thrown what"
  by (cases x rule: join_item.cases) auto

lemma join_Thrown: "join sep xs = Inl err \<Longrightarrow> \<exists>what. err = Thrown what"
  by (induction sep xs rule: join.induct)
     (auto dest: join_item_Thrown split: sum.splits)

lemma private_logToFile_FsError:
  "private_logToFile e line st = Inl (err, s) \<Longrightarrow> \<exists>code. err = FsError code"
  by (auto simp: private_logToFile_cases Let_def split: if_splits option.splits)

lemma private_log_raised:
  assumes "private_log e this L msgs c b st = Inl (err, s)"
  shows "(err = TypeError \<and> deref st this = None) \<or>
         ((L = ''ERROR'' \<or> L = ''FATAL'') \<and> ((\<exists>what. err = Thrown what) \<or> (\<exists>code. err = FsError code)))"
proof (cases "deref st this")
  case None
  then show ?thesis using assms by (simp add: private_log_def)
next
  case (Some self)
  show ?thesis
  proof (cases "js_less (LoggerLevels L) (LoggerLevels (globalLogLevel st))")
    case True
    then show ?thesis using assms Some by (simp add: private_log_filtered)
  next
    case False
    note adm = private_log_admitted[OF Some False, of e msgs c b]
    show ?thesis
    proof (cases "L = ''ERROR'' \<or> L = ''FATAL''")
      case False
      then show ?thesis using assms adm by simp
    next
      case True
      show ?thesis
      proof (cases "join '' '' msgs")
        case (Inl err')
        then show ?thesis using assms adm True join_Thrown[OF Inl] by auto
      next
        case (Inr joined)
        then show ?thesis using assms adm True
          by (auto simp: returning_def split: sum.splits dest: private_logToFile_FsError)
      qed
    qed
  qed
qed

lemma private_log_no_Error: "private_log e this L msgs c b st \<noteq> Inl (Error x, s)"
  using private_log_raised[of e this L msgs c b st "Error x" s] by auto

lemma private_log_result:
  "deref st this = Some self \<Longrightarrow>
   private_log e this L msgs c b st = Inr (this, state_of (private_log e this L msgs c b st)) \<or>
   (\<exists>err. private_log e this L msgs c b st =
       Inl (err, state_of (private_log e this L msgs c b st)))"
  by (cases "private_log e this L msgs c b st")
     (auto simp: private_log_def Let_def returning_def split: sum.splits if_splits)

lemma shortcut_private_log:
  assumes "(name, f) \<in> set shortcuts"
  shows "\<exists>c b. \<forall>e this messages st.
           f e this messages st = private_log e this name messages c b st"
proof -
  from assms have "(name, f) = (''INFO'', info) \<or> (name, f) = (''WARN'', warn) \<or>
      (name, f) = (''ERROR'', error) \<or> (name, f) = (''SUCCESS'', success) \<or>
      (name, f) = (''DEBUG'', debug) \<or> (name, f) = (''VERBOSE'', verbose) \<or>
      (name, f) = (''FATAL'', fatal) \<or> (name, f) = (''SILLY'', silly) \<or>
      (name, f) = (''HTTP'', http) \<or> (name, f) = (''TRACE'', trace)"
    unfolding shortcuts_def by simp
  then show ?thesis
  proof (elim disjE)
    assume "(name, f) = (''INFO'', info)"
    then show ?thesis by (simp only: prod.inject info_def) blast
  next
    assume "(name, f) = (''WARN'', warn)"
    then show ?thesis by (simp only: prod.inject warn_def) blast
  next
    assume "(name, f) = (''ERROR'', error)"
    then show ?thesis by (simp only: prod.inject error_def) blast
  next
    assume "(name, f) = (''SUCCESS'', success)"
    then show ?thesis by (simp only: prod.inject success_def) blast
  next
    assume "(name, f) = (''DEBUG'', debug)"
    then show ?thesis by (simp only: prod.inject debug_def) blast
  next
    assume "(name, f) = (''VERBOSE'', verbose)"
    then show ?thesis by (simp only: prod.inject verbose_def) blast
  next
    assume "(name, f) = (''FATAL'', fatal)"
    then show ?thesis by (simp only: prod.inject fatal_def) blast
  next
    assume "(name, f) = (''SILLY'', silly)"
    then show ?thesis by (simp only: prod.inject silly_def) blast
  next
    assume "(name, f) = (''HTTP'', http)"
    then show ?thesis by (simp only: prod.inject http_def) blast
  next
    assume "(name, f) = (''TRACE'', trace)"
    then show ?thesis by (simp only: prod.inject trace_def) blast
  qed
qed


lemma log_as_private_log:
  "deref st this = Some self \<Longrightarrow>
   log e this L msgs st = private_log e this L (msgs @ rendered_trace self) Reset Reset st"
  by (simp add: log_def rendered_trace_def split: option.splits)

lemma entry_point_as_private_log:
  assumes "(m, tr) \<in> set (entry_points L)" "deref st this = Some self"
  shows "\<exists>c b. m e this msgs st =
           private_log e this L (msgs @ (if tr then rendered_trace self else [])) c b st"
proof -
  from assms(1) have "(m = (\<lambda>e this messages st. log e this L messages st) \<and> tr) \<or>
      ((L, m) \<in> set shortcuts \<and> \<not> tr)"
    unfolding entry_points_def by auto
  then show ?thesis
  proof
    assume "m = (\<lambda>e this messages st. log e this L messages st) \<and> tr"
    then show ?thesis using log_as_private_log[OF assms(2)] by auto
  next
    assume a: "(L, m) \<in> set shortcuts \<and> \<not> tr"
    then obtain c b where "\<forall>e this messages st.
           m e this messages st = private_log e this L messages c b st"
      using shortcut_private_log by blast
    then show ?thesis using a by auto
  qed
qed

lemma example_state_eq:
  "example_state = \<lparr>globalLogLevel = ''INFO'', logDirectory = ''/tmp/logs'',
      enableFileLogging = True, heap = [example_logger], console = [], directories = [],
      files = Map.empty\<rparr>"
  by (simp add: example_state_def new_Logger_def initial_state_def example_logger_def
      private_getCallerInfo_def example_env_def decimal.simps)

lemma LoggerLevels_simps:
  "LoggerLevels ''SILLY'' = Rank 0" "LoggerLevels ''TRACE'' = Rank 1"
  "LoggerLevels ''DEBUG'' = Rank 2" "LoggerLevels ''VERBOSE'' = Rank 3"
  "LoggerLevels ''INFO'' = Rank 4" "LoggerLevels ''TIME'' = Rank 5"
  "LoggerLevels ''HTTP'' = Rank 6" "LoggerLevels ''SUCCESS'' = Rank 7"
  "LoggerLevels ''WARN'' = Rank 8" "LoggerLevels ''ERROR'' = Rank 9"
  "LoggerLevels ''FATAL'' = Rank 10"
  by (simp_all add: LoggerLevels_def levels_def)


lemma strict_state_simps:
  "deref strict_state 0 = Some example_logger"
  "globalLogLevel strict_state = ''FATAL''"
  "console strict_state = []"
  by (simp_all add: strict_state_def example_state_eq deref_def)

lemma child_result:
  assumes "deref st this = Some self"
  shows "child e this pfx tr st =
     Inr (length (heap st),
          st\<lparr>heap := heap st @
            [\<lparr>timeMap = Map.empty, prefix = child_prefix self pfx,
              creationInfo = private_getCallerInfo e (ctorStack e),
              parentTrace = (if tr then Some (Trace (prefix self) (creationInfo self)
                   (private_getCallerInfo e (stack e)) (parentTrace self)) else None)\<rparr>]\<rparr>)"
  using assms
  by (simp add: child_def new_Logger_def child_prefix_def Let_def split: option.splits)

lemma entry_point_uniform:
  assumes "(m, tr) \<in> set (entry_points L)"
  shows "\<exists>c b. \<forall>e this msgs st self. deref st this = Some self \<longrightarrow>
           m e this msgs st =
           private_log e this L (msgs @ (if tr then rendered_trace self else [])) c b st"
proof -
  from assms have "(m = (\<lambda>e this messages st. log e this L messages st) \<and> tr) \<or>
      ((L, m) \<in> set shortcuts \<and> \<not> tr)"
    unfolding entry_points_def by auto
  then show ?thesis
  proof
    assume "m = (\<lambda>e this messages st. log e this L messages st) \<and> tr"
    then show ?thesis using log_as_private_log by auto
  next
    assume a: "(L, m) \<in> set shortcuts \<and> \<not> tr"
    then obtain c b where "\<forall>e this messages st.
           m e this messages st = private_log e this L messages c b st"
      using shortcut_private_log by blast
    then show ?thesis using a by auto
  qed
qed

lemma timeStart_result:
  "deref st this = Some self \<Longrightarrow>
   timeStart e this label st =
     Inr (this, st\<lparr>heap := (heap st)[this :=
            self\<lparr>timeMap := timeMap_set (timeMap self) label (dateNow e)\<rparr>]\<rparr>)"
  by (simp add: timeStart_def)

lemma deref_drop_prefix:
  "deref st this = Some self \<Longrightarrow> deref (drop_prefix this st) this = Some (self\<lparr>prefix := None\<rparr>)"
  by (auto simp: deref_def drop_prefix_def split: if_splits option.splits)

lemma drop_prefix_fields [simp]:
  "globalLogLevel (drop_prefix this st) = globalLogLevel st"
  "console (drop_prefix this st) = console st"
  "files (drop_prefix this st) = files st"
  "directories (drop_prefix this st) = directories st"
  "enableFileLogging (drop_prefix this st) = enableFileLogging st"
  "logDirectory (drop_prefix this st) = logDirectory st"
  by (simp_all add: drop_prefix_def split: option.splits)

lemma private_logToFile_outputs:
  assumes "files s = files t" "directories s = directories t"
    "enableFileLogging s = enableFileLogging t" "logDirectory s = logDirectory t"
  shows "files (sink_state (private_logToFile e line s)) =
         files (sink_state (private_logToFile e line t))"
    and "directories (sink_state (private_logToFile e line s)) =
         directories (sink_state (private_logToFile e line t))"
    and "sink_answer (private_logToFile e line s) = sink_answer (private_logToFile e line t)"
proof -
  have x: "existsSync p s = existsSync p t" for p
    using assms(1,2) by (simp add: existsSync_def)
  then have a: "sink_accepts e s = sink_accepts e t"
    using assms by (simp add: sink_accepts_def)
  show "files (sink_state (private_logToFile e line s)) =
         files (sink_state (private_logToFile e line t))"
    unfolding private_logToFile_files using assms a by simp
  show "sink_answer (private_logToFile e line s) = sink_answer (private_logToFile e line t)"
    unfolding private_logToFile_answer using assms x by simp
  show "directories (sink_state (private_logToFile e line s)) =
         directories (sink_state (private_logToFile e line t))"
    unfolding private_logToFile_cases using assms x
    by (simp add: sink_state_def Let_def split: option.splits)
qed

lemma private_log_drop_prefix:
  assumes "deref st this = Some self" and "prefix self = Some []"
  shows "answer_of (private_log e this L frags c b st) =
         answer_of (private_log e this L frags c b (drop_prefix this st))"
    and "console (state_of (private_log e this L frags c b st)) =
         console (state_of (private_log e this L frags c b (drop_prefix this st)))"
    and "files (state_of (private_log e this L frags c b st)) =
         files (state_of (private_log e this L frags c b (drop_prefix this st)))"
    and "directories (state_of (private_log e this L frags c b st)) =
         directories (state_of (private_log e this L frags c b (drop_prefix this st)))"
proof -
  let ?st0 = "drop_prefix this st"
  let ?self0 = "self\<lparr>prefix := None\<rparr>"
  have d0: "deref ?st0 this = Some ?self0" by (rule deref_drop_prefix[OF assms(1)])
  have cb: "console_block e ?self0 L c b = console_block e self L c b"
    by (simp add: console_block_def assms(2))
  have fl: "file_line e ?self0 L joined = file_line e self L joined" for joined
    by (simp add: file_line_def assms(2))
  have "answer_of (private_log e this L frags c b st) =
         answer_of (private_log e this L frags c b ?st0) \<and>
        console (state_of (private_log e this L frags c b st)) =
         console (state_of (private_log e this L frags c b ?st0)) \<and>
        files (state_of (private_log e this L frags c b st)) =
         files (state_of (private_log e this L frags c b ?st0)) \<and>
        directories (state_of (private_log e this L frags c b st)) =
         directories (state_of (private_log e this L frags c b ?st0))"
  proof (cases "js_less (LoggerLevels L) (LoggerLevels (globalLogLevel st))")
    case True
    then have "js_less (LoggerLevels L) (LoggerLevels (globalLogLevel ?st0))" by simp
    then show ?thesis
      using private_log_filtered[OF assms(1) True] private_log_filtered[OF d0] by simp
  next
    case False
    then have F0: "\<not> js_less (LoggerLevels L) (LoggerLevels (globalLogLevel ?st0))" by simp
    have o: "files (sink_state (private_logToFile e line (st\<lparr>console := con\<rparr>))) =
             files (sink_state (private_logToFile e line (?st0\<lparr>console := con\<rparr>)))"
      "directories (sink_state (private_logToFile e line (st\<lparr>console := con\<rparr>))) =
       directories (sink_state (private_logToFile e line (?st0\<lparr>console := con\<rparr>)))"
      "sink_answer (private_logToFile e line (st\<lparr>console := con\<rparr>)) =
       sink_answer (private_logToFile e line (?st0\<lparr>console := con\<rparr>))"
      for line con
      using private_logToFile_outputs[of "st\<lparr>console := con\<rparr>" "?st0\<lparr>console := con\<rparr>" e line]
      by simp_all
    show ?thesis
      unfolding private_log_admitted[OF assms(1) False] private_log_admitted[OF d0 F0] cb fl
      by (simp add: answer_of_returning o split: sum.splits)
  qed
  then show "answer_of (private_log e this L frags c b st) =
         answer_of (private_log e this L frags c b (drop_prefix this st))"
    and "console (state_of (private_log e this L frags c b st)) =
         console (state_of (private_log e this L frags c b (drop_prefix this st)))"
    and "files (state_of (private_log e this L frags c b st)) =
         files (state_of (private_log e this L frags c b (drop_prefix this st)))"
    and "directories (state_of (private_log e this L frags c b st)) =
         directories (state_of (private_log e this L frags c b (drop_prefix this st)))"
    by simp_all
qed

lemma traceMessages_chain: "traceMessages link = map trace_line (chain link)"
  by (induction link rule: chain.induct) (simp add: trace_line_def split: option.splits)

lemma chain_nonempty: "chain link \<noteq> []"
  by (cases link) simp

lemma chain_last: "inheritedTrace (last (chain link)) = None"
  by (induction link rule: chain.induct) (auto simp: chain_nonempty split: option.splits)

lemma child_trace:
  assumes "deref st this = Some self"
  shows "\<exists>c st' new. child e this pfx tr st = Inr (c, st') \<and> deref st' c = Some new \<and>
           parentTrace new = (if tr then Some (Trace (prefix self) (creationInfo self)
               (private_getCallerInfo e (stack e)) (parentTrace self)) else None) \<and>
           creationInfo new = private_getCallerInfo e (ctorStack e)"
  unfolding child_result[OF assms] by (simp add: deref_def)

lemma chain_length_child:
  "chain_length (Some (Trace pp pinfo cinfo inh)) = Suc (chain_length inh)"
  by (simp add: chain_length_def split: option.splits)

lemma takeWhile_rev_snoc_count:
  "length (takeWhile P (rev (x # xs))) =
     (if list_all P xs then (if P x then Suc (length xs) else length xs)
      else length (takeWhile P (rev xs)))"
  by (auto simp: takeWhile_append list_all_iff)

lemma descend_chain:
  assumes "deref st this = Some self"
  shows "\<exists>l st' new. descend edges this st = Inr (l, st') \<and> deref st' l = Some new \<and>
           chain_length (parentTrace new) =
             (if list_all (\<lambda>(e, pfx, tr). tr) edges
              then chain_length (parentTrace self) + length edges
              else length (takeWhile (\<lambda>(e, pfx, tr). tr) (rev edges)))"
  using assms
proof (induction edges arbitrary: this st self)
  case Nil
  then show ?case by simp
next
  case (Cons edge edges)
  obtain e pfx tr where edge: "edge = (e, pfx, tr)" by (cases edge) auto
  obtain c st1 new1 where ch: "child e this pfx tr st = Inr (c, st1)"
    and d1: "deref st1 c = Some new1"
    and p1: "parentTrace new1 = (if tr then Some (Trace (prefix self) (creationInfo self)
               (private_getCallerInfo e (stack e)) (parentTrace self)) else None)"
    using child_trace[OF Cons.prems, of e pfx tr] by blast
  obtain l st' new where de: "descend edges c st1 = Inr (l, st')" and dl: "deref st' l = Some new"
    and cl: "chain_length (parentTrace new) =
             (if list_all (\<lambda>(e, pfx, tr). tr) edges
              then chain_length (parentTrace new1) + length edges
              else length (takeWhile (\<lambda>(e, pfx, tr). tr) (rev edges)))"
    using Cons.IH[OF d1] by blast
  have r: "descend (edge # edges) this st = Inr (l, st')" using edge ch de by simp
  have k: "chain_length (parentTrace new1) = (if tr then Suc (chain_length (parentTrace self)) else 0)"
    using p1 by (simp add: chain_length_child) (simp add: chain_length_def)
  have "chain_length (parentTrace new) =
             (if list_all (\<lambda>(e, pfx, tr). tr) (edge # edges)
              then chain_length (parentTrace self) + length (edge # edges)
              else length (takeWhile (\<lambda>(e, pfx, tr). tr) (rev (edge # edges))))"
    unfolding takeWhile_rev_snoc_count using cl k edge by (auto simp: list_all_iff)
  with r dl show ?case by blast
qed


lemma env_at_info:
  "n \<noteq> 0 \<Longrightarrow> private_getCallerInfo (env_at n) (stack (env_at n)) =
      \<lparr>fileName = ''src/server.js:'' @ decimal n, methodName = ''main''\<rparr>"
  "n \<noteq> 0 \<Longrightarrow> private_getCallerInfo (env_at n) (ctorStack (env_at n)) =
      \<lparr>fileName = ''src/server.js:'' @ decimal n, methodName = ''main''\<rparr>"
  by (simp_all add: private_getCallerInfo_def env_at_def example_env_def)

lemma new_Logger_deref:
  "new_Logger e pfx st = (c, st') \<Longrightarrow>
   c = length (heap st) \<and> deref st c = None \<and>
   deref st' c = Some \<lparr>timeMap = Map.empty, prefix = pfx,
        creationInfo = private_getCallerInfo e (ctorStack e), parentTrace = None\<rparr> \<and>
   (\<forall>r. r \<noteq> c \<longrightarrow> deref st' r = deref st r)"
  by (auto simp: new_Logger_def deref_def nth_append)

lemma log_with_trace:
  assumes "deref st this = Some self" and "parentTrace self = Some link"
  shows "log e this L msgs st =
     private_log e this L (msgs @ map (\<lambda>t. JStr (trace_line t)) (rev (chain link))) Reset Reset st"
  using assms by (simp add: log_def traceMessages_chain rev_map comp_def)

lemma nested_state_simps:
  "deref nested_state 2 = Some example_leaf"
  "globalLogLevel nested_state = ''INFO''"
  "console nested_state = []"
proof -
  have s: "deref example_state 0 = Some example_logger"
    by (simp add: example_state_eq deref_def)
  have i: "private_getCallerInfo (env_at 30) (stack (env_at 30)) =
      \<lparr>fileName = ''src/server.js:30'', methodName = ''main''\<rparr>"
    "private_getCallerInfo (env_at 30) (ctorStack (env_at 30)) =
      \<lparr>fileName = ''src/server.js:30'', methodName = ''main''\<rparr>"
    "private_getCallerInfo (env_at 40) (stack (env_at 40)) =
      \<lparr>fileName = ''src/server.js:40'', methodName = ''main''\<rparr>"
    "private_getCallerInfo (env_at 40) (ctorStack (env_at 40)) =
      \<lparr>fileName = ''src/server.js:40'', methodName = ''main''\<rparr>"
    by (simp_all add: env_at_info decimal.simps)
  let ?s2 = "example_state\<lparr>heap := heap example_state @
            [\<lparr>timeMap = Map.empty, prefix = Some ''A -> B'',
              creationInfo = \<lparr>fileName = ''src/server.js:30'', methodName = ''main''\<rparr>,
              parentTrace = Some (Trace (Some ''A'')
                 \<lparr>fileName = ''src/server.js:3'', methodName = ''anonymous''\<rparr>
                 \<lparr>fileName = ''src/server.js:30'', methodName = ''main''\<rparr> None)\<rparr>]\<rparr>"
  have c1: "child (env_at 30) 0 (Some ''B'') True example_state = Inr (1, ?s2)"
    unfolding child_result[OF s]
    by (simp add: i child_prefix_def example_logger_def example_state_eq)
  have d1: "deref ?s2 1 = Some \<lparr>timeMap = Map.empty, prefix = Some ''A -> B'',
              creationInfo = \<lparr>fileName = ''src/server.js:30'', methodName = ''main''\<rparr>,
              parentTrace = Some (Trace (Some ''A'')
                 \<lparr>fileName = ''src/server.js:3'', methodName = ''anonymous''\<rparr>
                 \<lparr>fileName = ''src/server.js:30'', methodName = ''main''\<rparr> None)\<rparr>"
    by (simp add: deref_def example_state_eq)
  have c2: "child (env_at 40) 1 (Some ''C'') True ?s2 =
      Inr (2, ?s2\<lparr>heap := heap ?s2 @ [example_leaf]\<rparr>)"
    unfolding child_result[OF d1]
    by (simp add: i child_prefix_def example_leaf_def example_link_def example_state_eq)
  have n: "nested_state = ?s2\<lparr>heap := heap ?s2 @ [example_leaf]\<rparr>"
    unfolding nested_state_def by (simp only: c1 c2 sum.case prod.case)
  show "deref nested_state 2 = Some example_leaf"
    "globalLogLevel nested_state = ''INFO''" "console nested_state = []"
    unfolding n by (simp_all add: deref_def example_state_eq)
qed

lemma blank_state_simps:
  "deref blank_state 1 = Some (example_logger\<lparr>prefix := Some []\<rparr>)"
  "globalLogLevel blank_state = ''INFO''"
  by (simp_all add: blank_state_def new_Logger_def example_state_eq deref_def example_logger_def
      private_getCallerInfo_def example_env_def decimal.simps)


lemma private_log_TIME:
  assumes "deref st this = Some self"
  shows "private_log e this ''TIME'' [JStr line] color BgBlack st =
           Inr (this, st\<lparr>console := time_console e self color st line\<rparr>)"
proof (cases "js_less (LoggerLevels ''TIME'') (LoggerLevels (globalLogLevel st))")
  case True
  then show ?thesis
    using private_log_filtered[OF assms True] by (simp add: time_console_def)
next
  case False
  then show ?thesis
    using private_log_admitted[OF assms False] by (simp add: time_console_def)
qed

lemma timeEnd_missing_result:
  assumes "deref st this = Some self"
  shows "timeEnd_missing e this L st =
           Inr (this, st\<lparr>console := time_console e self FgRed st (L @ '': -1ms'')\<rparr>)"
  by (simp add: timeEnd_missing_def private_log_TIME[OF assms])

lemma timeEnd_found_result:
  assumes "deref st this = Some self"
  shows "timeEnd_found e this L duration st =
           Inr (this, st\<lparr>console := time_console e self FgGreen st (L @ '': '' @ duration @ ''ms''),
                        heap := (heap st)[this := self\<lparr>timeMap := (timeMap self)(L := None)\<rparr>]\<rparr>)"
  using assms by (simp add: timeEnd_found_def private_log_TIME[OF assms])

lemma timeEnd_absent:
  assumes "deref st this = Some self"
    and "timeMap_get (timeMap self) L = Missing \<or> timeMap_get (timeMap self) L = Own 0"
  shows "timeEnd e this L st =
           Inr (this, st\<lparr>console := time_console e self FgRed st (L @ '': -1ms'')\<rparr>)"
  using assms(2) by (auto simp: timeEnd_def assms(1) timeEnd_missing_result[OF assms(1)])

lemma timeEnd_running:
  assumes "deref st this = Some self" and "timeMap_get (timeMap self) L = Own s" and "s \<noteq> 0"
  shows "timeEnd e this L st =
           Inr (this, st\<lparr>console := time_console e self FgGreen st
                                  (L @ '': '' @ int_toString (dateNow e - s) @ ''ms''),
                        heap := (heap st)[this := self\<lparr>timeMap := (timeMap self)(L := None)\<rparr>]\<rparr>)"
  using assms by (simp add: timeEnd_def timeEnd_found_result[OF assms(1)])

lemma timeEnd_inherited:
  assumes "deref st this = Some self" and "timeMap_get (timeMap self) L = FromPrototype"
  shows "timeEnd e this L st =
           Inr (this, st\<lparr>console := time_console e self FgGreen st (L @ '': NaNms''),
                        heap := (heap st)[this := self\<lparr>timeMap := (timeMap self)(L := None)\<rparr>]\<rparr>)"
  using assms by (simp add: timeEnd_def timeEnd_found_result[OF assms(1)])

lemma timeMap_get_own:
  "L \<notin> set Object_prototype \<Longrightarrow>
   timeMap_get m L = (case m L of None \<Rightarrow> Missing | Some s \<Rightarrow> Own s)"
  by (simp add: timeMap_get_def split: option.splits)

lemma timeMap_set_own:
  "L \<notin> set Object_prototype \<Longrightarrow> timeMap_set m L n = m(L \<mapsto> n)"
  by (auto simp: timeMap_set_def Object_prototype_def)

lemma deref_heap_update:
  "deref st this = Some self \<Longrightarrow>
   deref (st\<lparr>heap := (heap st)[this := new]\<rparr>) r = (if r = this then Some new else deref st r)"
  by (auto simp: deref_def split: if_splits)

lemma timed_state_simps:
  "deref timed_state 0 = Some (example_logger\<lparr>timeMap := [''x'' \<mapsto> 1709806530000]\<rparr>)"
  "globalLogLevel timed_state = ''INFO''"
  "console timed_state = []"
proof -
  have s: "deref example_state 0 = Some example_logger"
    by (simp add: example_state_eq deref_def)
  have t: "timed_state = example_state\<lparr>heap := (heap example_state)[0 :=
      example_logger\<lparr>timeMap := (timeMap example_logger)(''x'' \<mapsto> dateNow example_env)\<rparr>]\<rparr>"
    unfolding timed_state_def timeStart_result[OF s] by (simp add: timeMap_set_def)
  show "deref timed_state 0 = Some (example_logger\<lparr>timeMap := [''x'' \<mapsto> 1709806530000]\<rparr>)"
    "globalLogLevel timed_state = ''INFO''" "console timed_state = []"
    unfolding t by (simp_all add: deref_def example_state_eq example_logger_def example_env_def)
qed

lemma epoch_state_simps:
  "deref epoch_state 0 = Some (example_logger\<lparr>timeMap := [''x'' \<mapsto> 0]\<rparr>)"
  "globalLogLevel epoch_state = ''INFO''"
  "console epoch_state = []"
proof -
  have s: "deref example_state 0 = Some example_logger"
    by (simp add: example_state_eq deref_def)
  have t: "epoch_state = example_state\<lparr>heap := (heap example_state)[0 :=
      example_logger\<lparr>timeMap := (timeMap example_logger)(''x'' \<mapsto> 0)\<rparr>]\<rparr>"
    unfolding epoch_state_def timeStart_result[OF s] by (simp add: timeMap_set_def)
  show "deref epoch_state 0 = Some (example_logger\<lparr>timeMap := [''x'' \<mapsto> 0]\<rparr>)"
    "globalLogLevel epoch_state = ''INFO''" "console epoch_state = []"
    unfolding t by (simp_all add: deref_def example_state_eq example_logger_def)
qed

subsection \<open>Joining clean paths\<close>

lemma splitOn_nonempty: "splitOn c s \<noteq> []"
  by (induction s) (auto split: list.splits)

lemma splitOn_append: "splitOn c (xs @ c # ys) = splitOn c xs @ splitOn c ys"
proof (induction xs)
  case Nil
  then show ?case by simp
next
  case (Cons x xs)
  then show ?case
    using splitOn_nonempty[of c xs] by (cases "splitOn c xs") auto
qed

lemma splitOn_none: "c \<notin> set s \<Longrightarrow> splitOn c s = [s]"
  by (induction s) auto

lemma joinWith_Cons: "ys \<noteq> [] \<Longrightarrow> joinWith sep (x # ys) = x @ sep @ joinWith sep ys"
  by (cases ys) auto

lemma joinWith_append:
  "xs \<noteq> [] \<Longrightarrow> ys \<noteq> [] \<Longrightarrow> joinWith sep (xs @ ys) = joinWith sep xs @ sep @ joinWith sep ys"
proof (induction xs)
  case Nil
  then show ?case by simp
next
  case (Cons x xs)
  show ?case
  proof (cases "xs = []")
    case True
    then show ?thesis using Cons.prems by (simp add: joinWith_Cons)
  next
    case False
    then show ?thesis using Cons by (simp add: joinWith_Cons)
  qed
qed

lemma splitOn_joinWith:
  "segs \<noteq> [] \<Longrightarrow> \<forall>s \<in> set segs. c \<notin> set s \<Longrightarrow> splitOn c (joinWith [c] segs) = segs"
proof (induction segs)
  case Nil
  then show ?case by simp
next
  case (Cons s segs)
  show ?case
  proof (cases "segs = []")
    case True
    then show ?thesis using Cons.prems by (simp add: splitOn_none)
  next
    case False
    then have "joinWith [c] (s # segs) = s @ c # joinWith [c] segs"
      by (simp add: joinWith_Cons)
    then show ?thesis using Cons False by (simp add: splitOn_append splitOn_none)
  qed
qed

lemma joinWith_splitOn: "joinWith [c] (splitOn c s) = s"
proof (induction s)
  case Nil
  then show ?case by simp
next
  case (Cons x xs)
  show ?case
  proof (cases "x = c")
    case True
    then show ?thesis using Cons splitOn_nonempty[of c xs] by (simp add: joinWith_Cons)
  next
    case False
    obtain w ws where w: "splitOn c xs = w # ws"
      using splitOn_nonempty[of c xs] by (cases "splitOn c xs") auto
    show ?thesis using False Cons w by (cases ws) auto
  qed
qed

lemma normalizeSegments_clean:
  "\<forall>s \<in> set segs. clean_segment s \<Longrightarrow> normalizeSegments a res segs = rev res @ segs"
  by (induction segs arbitrary: res) (auto simp: clean_segment_def)

lemma clean_segment_ends:
  assumes "clean_segment s"
  shows "s \<noteq> []" and "hd s \<noteq> CHR ''/''" and "last s \<noteq> CHR ''/''"
proof -
  show n: "s \<noteq> []" using assms by (simp add: clean_segment_def)
  have "CHR ''/'' \<notin> set s" using assms by (simp add: clean_segment_def)
  then show "hd s \<noteq> CHR ''/''" and "last s \<noteq> CHR ''/''"
    using n hd_in_set[of s] last_in_set[of s] by metis+
qed

lemma joinWith_clean_nonempty:
  assumes "segs \<noteq> []" and "\<forall>s \<in> set segs. clean_segment s"
  shows "joinWith ''/'' segs \<noteq> []"
proof (cases segs)
  case Nil
  then show ?thesis using assms(1) by simp
next
  case (Cons s rest)
  then have "s \<noteq> []" using assms(2) clean_segment_ends(1) by simp
  then show ?thesis using Cons by (cases rest) simp_all
qed

lemma joinWith_clean_hd:
  assumes "segs \<noteq> []" and "\<forall>s \<in> set segs. clean_segment s"
  shows "hd (joinWith ''/'' segs) \<noteq> CHR ''/''"
proof (cases segs)
  case Nil
  then show ?thesis using assms(1) by simp
next
  case (Cons s rest)
  then have "s \<noteq> []" "hd s \<noteq> CHR ''/''" using assms(2) clean_segment_ends by simp_all
  then show ?thesis using Cons by (cases rest) simp_all
qed

lemma joinWith_clean_last:
  "segs \<noteq> [] \<Longrightarrow> \<forall>s \<in> set segs. clean_segment s \<Longrightarrow> last (joinWith ''/'' segs) \<noteq> CHR ''/''"
proof (induction segs)
  case Nil
  then show ?case by simp
next
  case (Cons s segs)
  show ?case
  proof (cases "segs = []")
    case True
    then show ?thesis using Cons.prems clean_segment_ends(3) by simp
  next
    case False
    then show ?thesis
      using Cons joinWith_clean_nonempty[of segs] by (simp add: joinWith_Cons)
  qed
qed

lemma normalize_clean:
  assumes "segs \<noteq> []" and "\<forall>s \<in> set segs. clean_segment s"
  shows "normalize (joinWith ''/'' segs) = joinWith ''/'' segs"
    and "normalize (CHR ''/'' # joinWith ''/'' segs) = CHR ''/'' # joinWith ''/'' segs"
proof -
  let ?q = "joinWith ''/'' segs"
  have ne: "?q \<noteq> []" by (rule joinWith_clean_nonempty[OF assms])
  have hd: "hd ?q \<noteq> CHR ''/''" by (rule joinWith_clean_hd[OF assms])
  have la: "last ?q \<noteq> CHR ''/''" by (rule joinWith_clean_last[OF assms])
  have nosl: "\<forall>s \<in> set segs. CHR ''/'' \<notin> set s" using assms(2) by (simp add: clean_segment_def)
  have sp: "splitOn CHR ''/'' ?q = segs"
    using splitOn_joinWith[OF assms(1) nosl] by simp
  have ns: "\<And>a. normalizeSegments a [] segs = segs"
    using normalizeSegments_clean[OF assms(2)] by simp
  show "normalize ?q = ?q"
    using ne hd la by (simp add: normalize_def Let_def sp ns)
  show "normalize (CHR ''/'' # ?q) = CHR ''/'' # ?q"
    using ne la by (simp add: normalize_def Let_def sp ns)
qed

lemma clean_path_decompose:
  assumes "clean_path p"
  obtains root segs where "p = root @ joinWith ''/'' segs" and "root = [] \<or> root = ''/''"
    and "segs \<noteq> []" and "\<forall>s \<in> set segs. clean_segment s"
proof (cases "hd p = CHR ''/''")
  case True
  have ne: "p \<noteq> []" using assms by (simp add: clean_path_def)
  then have p: "p = ''/'' @ tl p" using True by (cases p) simp_all
  have c: "\<forall>s \<in> set (splitOn CHR ''/'' (tl p)). clean_segment s"
    using assms True by (simp add: clean_path_def list_all_iff)
  have j: "tl p = joinWith ''/'' (splitOn CHR ''/'' (tl p))"
    using joinWith_splitOn[of "CHR ''/''" "tl p"] by simp
  show ?thesis
    using that[of "''/''" "splitOn CHR ''/'' (tl p)"] p j c splitOn_nonempty by metis
next
  case False
  have c: "\<forall>s \<in> set (splitOn CHR ''/'' p). clean_segment s"
    using assms False by (simp add: clean_path_def list_all_iff)
  have j: "p = joinWith ''/'' (splitOn CHR ''/'' p)"
    using joinWith_splitOn[of "CHR ''/''" p] by simp
  show ?thesis
    using that[of "[]" "splitOn CHR ''/'' p"] j c splitOn_nonempty by (metis append_Nil)
qed

lemma clean_path_compose:
  assumes "root = [] \<or> root = ''/''" and "segs \<noteq> []" and "\<forall>s \<in> set segs. clean_segment s"
  shows "clean_path (root @ joinWith ''/'' segs)"
proof -
  let ?q = "joinWith ''/'' segs"
  have ne: "?q \<noteq> []" by (rule joinWith_clean_nonempty[OF assms(2,3)])
  have hd: "hd ?q \<noteq> CHR ''/''" by (rule joinWith_clean_hd[OF assms(2,3)])
  have nosl: "\<forall>s \<in> set segs. CHR ''/'' \<notin> set s" using assms(3) by (simp add: clean_segment_def)
  have sp: "splitOn CHR ''/'' ?q = segs"
    using splitOn_joinWith[OF assms(2) nosl] by simp
  show ?thesis
    using assms(1) ne hd sp assms(3) by (auto simp: clean_path_def list_all_iff)
qed

lemma path_join_clean:
  assumes "clean_path d" and "tail \<noteq> []" and "\<forall>s \<in> set tail. clean_segment s"
  shows "path_join d (joinWith ''/'' tail) = d @ ''/'' @ joinWith ''/'' tail"
    and "clean_path (d @ ''/'' @ joinWith ''/'' tail)"
proof -
  obtain root segs where d: "d = root @ joinWith ''/'' segs" and r: "root = [] \<or> root = ''/''"
    and ne: "segs \<noteq> []" and cl: "\<forall>s \<in> set segs. clean_segment s"
    using clean_path_decompose[OF assms(1)] by blast
  have dn: "d \<noteq> []" using assms(1) by (simp add: clean_path_def)
  have mn: "joinWith ''/'' tail \<noteq> []" by (rule joinWith_clean_nonempty[OF assms(2,3)])
  have all: "segs @ tail \<noteq> []" "\<forall>s \<in> set (segs @ tail). clean_segment s"
    using ne cl assms(3) by auto
  have e: "d @ ''/'' @ joinWith ''/'' tail = root @ joinWith ''/'' (segs @ tail)"
    using d joinWith_append[OF ne assms(2), of "''/''"] by simp
  have "path_join d (joinWith ''/'' tail) = normalize (d @ ''/'' @ joinWith ''/'' tail)"
    using dn mn by (simp add: path_join_def)
  also have "\<dots> = normalize (root @ joinWith ''/'' (segs @ tail))" by (simp only: e)
  also have "\<dots> = root @ joinWith ''/'' (segs @ tail)"
    using r normalize_clean[OF all] by auto
  finally show "path_join d (joinWith ''/'' tail) = d @ ''/'' @ joinWith ''/'' tail"
    by (simp only: e)
  show "clean_path (d @ ''/'' @ joinWith ''/'' tail)"
    unfolding e by (rule clean_path_compose[OF r all])
qed


lemma decimal_nonempty: "decimal n \<noteq> []"
  by (subst decimal.simps) simp

lemma decimal_digits: "set (decimal n) \<subseteq> set ''0123456789''"
proof (induction n rule: decimal.induct)
  case (1 n)
  show ?case
  proof (cases "n < 10")
    case True
    then have "''0123456789'' ! n \<in> set ''0123456789''" by (intro nth_mem) simp
    then show ?thesis using True by (subst decimal.simps) simp
  next
    case False
    have "''0123456789'' ! (n mod 10) \<in> set ''0123456789''" by (intro nth_mem) simp
    then show ?thesis using False 1 by (subst decimal.simps) simp
  qed
qed

lemma decimal_length:
  "n < 10 \<Longrightarrow> length (decimal n) = 1" "\<not> n < 10 \<Longrightarrow> 2 \<le> length (decimal n)"
proof -
  show "n < 10 \<Longrightarrow> length (decimal n) = 1" by (subst decimal.simps) simp
  assume "\<not> n < 10"
  moreover have "1 \<le> length (decimal (n div 10))"
    using decimal_nonempty[of "n div 10"] by (cases "decimal (n div 10)") simp_all
  ultimately show "2 \<le> length (decimal n)" by (subst decimal.simps) simp
qed

lemma padStart_two_digits: "padStart 2 CHR ''0'' (decimal n) = two_digits n"
proof (cases "n < 10")
  case True
  then show ?thesis using decimal_length(1)[OF True] by (simp add: padStart_def two_digits_def)
next
  case False
  then show ?thesis using decimal_length(2)[OF False] by (simp add: padStart_def two_digits_def)
qed

lemma decimal_plain: "CHR ''/'' \<notin> set (decimal n)" "CHR ''.'' \<notin> set (decimal n)"
  using decimal_digits[of n] by auto

lemma two_digits_plain:
  "CHR ''/'' \<notin> set (two_digits n)" "CHR ''.'' \<notin> set (two_digits n)"
  by (simp_all add: two_digits_def decimal_plain)

lemma int_toString_plain:
  "CHR ''/'' \<notin> set (int_toString i)" "CHR ''.'' \<notin> set (int_toString i)" "int_toString i \<noteq> []"
  by (simp_all add: int_toString_def decimal_plain decimal_nonempty)

lemma plain_clean:
  assumes "s \<noteq> []" and "CHR ''/'' \<notin> set s" and "CHR ''.'' \<notin> set s"
  shows "clean_segment s"
proof -
  have "s \<noteq> ''.''" "s \<noteq> ''..''" using assms(3) by auto
  then show ?thesis using assms(1,2) by (simp add: clean_segment_def)
qed

lemma long_clean:
  assumes "2 < length s" and "CHR ''/'' \<notin> set s"
  shows "clean_segment s"
proof -
  have "s \<noteq> []" "s \<noteq> ''.''" "s \<noteq> ''..''" using assms(1) by auto
  then show ?thesis using assms(2) by (simp add: clean_segment_def)
qed

lemma date_segments_clean:
  "clean_segment (int_toString y)"
  "clean_segment (int_toString y @ ''-'' @ two_digits m)"
  "clean_segment (int_toString y @ ''-'' @ two_digits m @ ''-'' @ two_digits d @ ''.log'')"
proof -
  show "clean_segment (int_toString y)"
    by (rule plain_clean) (simp_all add: int_toString_plain)
  show "clean_segment (int_toString y @ ''-'' @ two_digits m)"
    by (rule plain_clean) (simp_all add: int_toString_plain two_digits_plain)
  show "clean_segment (int_toString y @ ''-'' @ two_digits m @ ''-'' @ two_digits d @ ''.log'')"
    by (rule long_clean) (simp_all add: int_toString_plain two_digits_plain)
qed

lemma joined_day_file_clean:
  assumes "clean_path dir"
  shows "joined_day_file dir d = day_file dir d"
proof -
  let ?y = "int_toString (getFullYear d)"
  let ?m = "two_digits (getMonth d + 1)"
  let ?d = "two_digits (getDate d)"
  have two: "[?y, ?y @ ''-'' @ ?m] \<noteq> []"
    "\<forall>s \<in> set [?y, ?y @ ''-'' @ ?m]. clean_segment s"
    using date_segments_clean(1)[of "getFullYear d"]
      date_segments_clean(2)[of "getFullYear d" "getMonth d + 1"] by simp_all
  have one: "[?y @ ''-'' @ ?m @ ''-'' @ ?d @ ''.log''] \<noteq> []"
    "\<forall>s \<in> set [?y @ ''-'' @ ?m @ ''-'' @ ?d @ ''.log'']. clean_segment s"
    using date_segments_clean(3)[of "getFullYear d" "getMonth d + 1" "getDate d"] by simp_all
  have a: "path_join dir (?y @ ''/'' @ ?y @ ''-'' @ ?m) = dir @ ''/'' @ ?y @ ''/'' @ ?y @ ''-'' @ ?m"
    using path_join_clean(1)[OF assms two] by simp
  have c: "clean_path (dir @ ''/'' @ ?y @ ''/'' @ ?y @ ''-'' @ ?m)"
    using path_join_clean(2)[OF assms two] by simp
  have b: "path_join (dir @ ''/'' @ ?y @ ''/'' @ ?y @ ''-'' @ ?m)
             (?y @ ''-'' @ ?m @ ''-'' @ ?d @ ''.log'') =
           (dir @ ''/'' @ ?y @ ''/'' @ ?y @ ''-'' @ ?m) @ ''/'' @
             ?y @ ''-'' @ ?m @ ''-'' @ ?d @ ''.log''"
    using path_join_clean(1)[OF c one] by simp
  show ?thesis
    unfolding joined_day_file_def day_file_def Let_def padStart_two_digits a b by simp
qed

section \<open>The claims\<close>

text \<open>
  Claim C1, as the code has it. Let \<open>L\<close> be a recognised severity level of rank \<open>n\<close>,
  let the global minimum be a recognised level of rank \<open>g\<close>, and let \<open>m\<close> be an entry
  point that logs at \<open>L\<close> (the generic \<^verbatim>\<open>log\<close> with \<open>L\<close>, or the severity method of
  \<open>L\<close>) called on a logger with any list of fragments. If \<open>n < g\<close> the call returns the
  instance and leaves the whole state as it was: no console output, no file write. If
  \<open>n \<ge> g\<close> the call adds exactly one console write, whose eight leading arguments hold
  the level name (right-aligned in ten columns) and the prefix line of the logger (empty
  when it has no prefix), followed by all the fragments in their order, and no logger
  changes. After that write the call returns the instance, except at \<^verbatim>\<open>ERROR\<close> and
  \<^verbatim>\<open>FATAL\<close>, where the file line comes next: there the call raises, with the console
  write made, when a fragment cannot be converted to a string for the file line, or when
  file logging is enabled and the file system refuses to make the day's directory or to
  append to the day's file; the error is that of the conversion or of the file system.
\<close>

theorem C1_level_filter:
  assumes "LoggerLevels L = Rank n" and "LoggerLevels (globalLogLevel st) = Rank g"
    and "deref st this = Some self" and "(m, tr) \<in> set (entry_points L)"
  shows "if n < g then m e this msgs st = Inr (this, st)
         else (\<exists>hdr post.
                 console (state_of (m e this msgs st)) = console st @ [hdr @ msgs @ post] \<and>
                 length hdr = 8 \<and>
                 hdr ! 1 = JStr (replicate (10 - length L) CHR '' '' @ L) \<and>
                 hdr ! 6 = JStr (case prefix self of None \<Rightarrow> []
                                 | Some p \<Rightarrow> if p = [] then [] else ''\<newline>|--- '' @ p)) \<and>
              heap (state_of (m e this msgs st)) = heap st \<and>
              (if (L = ''ERROR'' \<or> L = ''FATAL'') \<and>
                  ((\<exists>err. join '' '' (msgs @ (if tr then rendered_trace self else [])) = Inl err) \<or>
                   (enableFileLogging st \<and> \<not> sink_accepts e st))
               then \<exists>err. m e this msgs st = Inl (err, state_of (m e this msgs st)) \<and>
                      ((\<exists>what. err = Thrown what) \<or> (\<exists>code. err = FsError code))
               else m e this msgs st = Inr (this, state_of (m e this msgs st)))"
proof -
  let ?frags = "msgs @ (if tr then rendered_trace self else [])"
  obtain c b where m: "m e this msgs st = private_log e this L ?frags c b st"
    using entry_point_as_private_log[OF assms(4,3)] by blast
  show ?thesis
  proof (cases "n < g")
    case True
    then have "js_less (LoggerLevels L) (LoggerLevels (globalLogLevel st))"
      using assms(1,2) by simp
    then show ?thesis using True m private_log_filtered[OF assms(3)] by simp
  next
    case False
    then have adm: "\<not> js_less (LoggerLevels L) (LoggerLevels (globalLogLevel st))"
      using assms(1,2) by simp
    let ?hdr = "console_block e self L c b"
    have c: "console (state_of (m e this msgs st)) =
        console st @ [?hdr @ msgs @ ((if tr then rendered_trace self else []) @ [JStr ''\<newline>''])]"
      unfolding m using private_log_admitted_console(1)[OF assms(3) adm, of e ?frags c b]
      by simp
    have l: "length ?hdr = 8" by (simp add: console_block_def)
    have p1: "?hdr ! 1 = JStr (replicate (10 - length L) CHR '' '' @ L)"
      by (simp add: console_block_def padStart_def)
    have p6: "?hdr ! 6 = JStr (case prefix self of None \<Rightarrow> []
                                 | Some p \<Rightarrow> if p = [] then [] else ''\<newline>|--- '' @ p)"
      by (simp add: console_block_def split: option.splits)
    from c l p1 p6 have x: "\<exists>hdr post.
                 console (state_of (m e this msgs st)) = console st @ [hdr @ msgs @ post] \<and>
                 length hdr = 8 \<and>
                 hdr ! 1 = JStr (replicate (10 - length L) CHR '' '' @ L) \<and>
                 hdr ! 6 = JStr (case prefix self of None \<Rightarrow> []
                                 | Some p \<Rightarrow> if p = [] then [] else ''\<newline>|--- '' @ p)"
      by blast
    have h: "heap (state_of (m e this msgs st)) = heap st"
      unfolding m by (rule private_log_admitted_console(2)[OF assms(3) adm])
    have y: "if (L = ''ERROR'' \<or> L = ''FATAL'') \<and>
                  ((\<exists>err. join '' '' ?frags = Inl err) \<or>
                   (enableFileLogging st \<and> \<not> sink_accepts e st))
               then \<exists>err. m e this msgs st = Inl (err, state_of (m e this msgs st)) \<and>
                      ((\<exists>what. err = Thrown what) \<or> (\<exists>code. err = FsError code))
               else m e this msgs st = Inr (this, state_of (m e this msgs st))"
    proof (cases "(L = ''ERROR'' \<or> L = ''FATAL'') \<and>
                  ((\<exists>err. join '' '' ?frags = Inl err) \<or>
                   (enableFileLogging st \<and> \<not> sink_accepts e st))")
      case True
      then obtain err where r: "private_log e this L ?frags c b st =
           Inl (err, state_of (private_log e this L ?frags c b st))"
        using private_log_admitted_raises[OF assms(3) adm, of ?frags e c b] by blast
      have "(\<exists>what. err = Thrown what) \<or> (\<exists>code. err = FsError code)"
        using private_log_raised[OF r] assms(3) by auto
      with r have "\<exists>err. m e this msgs st = Inl (err, state_of (m e this msgs st)) \<and>
                      ((\<exists>what. err = Thrown what) \<or> (\<exists>code. err = FsError code))"
        unfolding m by blast
      then show ?thesis unfolding if_P[OF True] .
    next
      case False
      then have "(L \<noteq> ''ERROR'' \<and> L \<noteq> ''FATAL'') \<or>
         ((\<exists>joined. join '' '' ?frags = Inr joined) \<and>
          (enableFileLogging st \<longrightarrow> sink_accepts e st))"
        by (cases "join '' '' ?frags") auto
      from private_log_admitted_returns[OF assms(3) adm this, of c b]
      have "m e this msgs st = Inr (this, state_of (m e this msgs st))"
        unfolding m .
      then show ?thesis unfolding if_not_P[OF False] .
    qed
    show ?thesis unfolding if_not_P[OF False] by (rule conjI[OF x conjI[OF h y]])
  qed
qed

theorem C1_level_filter_witness:
  "LoggerLevels ''DEBUG'' = Rank 2 \<and> LoggerLevels ''INFO'' = Rank 4 \<and>
   LoggerLevels ''ERROR'' = Rank 9 \<and>
   LoggerLevels (globalLogLevel example_state) = Rank 4 \<and>
   deref example_state 0 = Some example_logger \<and>
   (debug, False) \<in> set (entry_points ''DEBUG'') \<and>
   (info, False) \<in> set (entry_points ''INFO'') \<and>
   (error, False) \<in> set (entry_points ''ERROR'') \<and>
   join '' '' [JStr ''hi''] = Inr ''hi'' \<and> sink_accepts example_env example_state \<and>
   debug example_env 0 [JStr ''hi''] example_state = Inr (0, example_state) \<and>
   (\<exists>st' hdr post. info example_env 0 [JStr ''hi''] example_state = Inr (0, st') \<and>
       heap st' = heap example_state \<and>
       console st' = console example_state @ [hdr @ [JStr ''hi''] @ post] \<and> length hdr = 8 \<and>
       hdr ! Suc 0 = JStr ''      INFO'' \<and> hdr ! 6 = JStr ''\<newline>|--- A'') \<and>
   (\<exists>st' hdr post. error example_env 0 [JStr ''hi''] example_state = Inr (0, st') \<and>
       heap st' = heap example_state \<and>
       console st' = console example_state @ [hdr @ [JStr ''hi''] @ post] \<and> length hdr = 8 \<and>
       hdr ! Suc 0 = JStr ''     ERROR'' \<and> hdr ! 6 = JStr ''\<newline>|--- A'') \<and>
   LoggerLevels (globalLogLevel devnull_state) = Rank 4 \<and>
   deref devnull_state 0 = Some example_logger \<and>
   enableFileLogging devnull_state \<and> \<not> sink_accepts refusing_env devnull_state \<and>
   (\<exists>st' err hdr post. error refusing_env 0 [JStr ''hi''] devnull_state = Inl (err, st') \<and>
       ((\<exists>what. err = Thrown what) \<or> (\<exists>code. err = FsError code)) \<and>
       heap st' = heap devnull_state \<and>
       console st' = console devnull_state @ [hdr @ [JStr ''hi''] @ post] \<and> length hdr = 8 \<and>
       hdr ! Suc 0 = JStr ''     ERROR'' \<and> hdr ! 6 = JStr ''\<newline>|--- A'')"
proof -
  have d: "LoggerLevels ''DEBUG'' = Rank 2" and i: "LoggerLevels ''INFO'' = Rank 4"
    and x: "LoggerLevels ''ERROR'' = Rank 9"
    by (simp_all add: LoggerLevels_simps)
  have g: "LoggerLevels (globalLogLevel example_state) = Rank 4"
    by (simp add: example_state_eq LoggerLevels_simps)
  have s: "deref example_state 0 = Some example_logger"
    by (simp add: example_state_eq deref_def)
  have md: "(debug, False) \<in> set (entry_points ''DEBUG'')"
    by (simp add: entry_points_def shortcuts_def)
  have mi: "(info, False) \<in> set (entry_points ''INFO'')"
    by (simp add: entry_points_def shortcuts_def)
  have mx: "(error, False) \<in> set (entry_points ''ERROR'')"
    by (simp add: entry_points_def shortcuts_def)
  have j: "join '' '' [JStr ''hi''] = Inr ''hi''" by simp
  have k: "sink_accepts example_env example_state"
    by (simp add: sink_accepts_def example_env_def)
  have r1: "debug example_env 0 [JStr ''hi''] example_state = Inr (0, example_state)"
    using C1_level_filter [OF d g s md, of example_env "[JStr ''hi'']"] by simp
  have "(\<exists>hdr post.
       console (state_of (info example_env 0 [JStr ''hi''] example_state)) =
         console example_state @ [hdr @ [JStr ''hi''] @ post] \<and> length hdr = 8 \<and>
       hdr ! Suc 0 = JStr ''      INFO'' \<and> hdr ! 6 = JStr ''\<newline>|--- A'') \<and>
     heap (state_of (info example_env 0 [JStr ''hi''] example_state)) = heap example_state \<and>
     info example_env 0 [JStr ''hi''] example_state =
       Inr (0, state_of (info example_env 0 [JStr ''hi''] example_state))"
    using C1_level_filter [OF i g s mi, of example_env "[JStr ''hi'']"]
    by (simp add: example_logger_def eval_nat_numeral)
  then have r2: "\<exists>st' hdr post. info example_env 0 [JStr ''hi''] example_state = Inr (0, st') \<and>
       heap st' = heap example_state \<and>
       console st' = console example_state @ [hdr @ [JStr ''hi''] @ post] \<and> length hdr = 8 \<and>
       hdr ! Suc 0 = JStr ''      INFO'' \<and> hdr ! 6 = JStr ''\<newline>|--- A''"
    by blast
  have "(\<exists>hdr post.
       console (state_of (error example_env 0 [JStr ''hi''] example_state)) =
         console example_state @ [hdr @ [JStr ''hi''] @ post] \<and> length hdr = 8 \<and>
       hdr ! Suc 0 = JStr ''     ERROR'' \<and> hdr ! 6 = JStr ''\<newline>|--- A'') \<and>
     heap (state_of (error example_env 0 [JStr ''hi''] example_state)) = heap example_state \<and>
     error example_env 0 [JStr ''hi''] example_state =
       Inr (0, state_of (error example_env 0 [JStr ''hi''] example_state))"
    using C1_level_filter [OF x g s mx, of example_env "[JStr ''hi'']"] k
    by (simp add: example_logger_def eval_nat_numeral)
  then have r3: "\<exists>st' hdr post. error example_env 0 [JStr ''hi''] example_state = Inr (0, st') \<and>
       heap st' = heap example_state \<and>
       console st' = console example_state @ [hdr @ [JStr ''hi''] @ post] \<and> length hdr = 8 \<and>
       hdr ! Suc 0 = JStr ''     ERROR'' \<and> hdr ! 6 = JStr ''\<newline>|--- A''"
    by blast
  have gd: "LoggerLevels (globalLogLevel devnull_state) = Rank 4"
    by (simp add: devnull_state_def example_state_eq LoggerLevels_simps)
  have sd: "deref devnull_state 0 = Some example_logger"
    by (simp add: devnull_state_def example_state_eq deref_def)
  have ed: "enableFileLogging devnull_state"
    by (simp add: devnull_state_def example_state_eq)
  have nd: "\<not> sink_accepts refusing_env devnull_state"
    by (simp add: sink_accepts_def refusing_env_def existsSync_def devnull_state_def
        example_state_eq)
  have "(\<exists>hdr post.
       console (state_of (error refusing_env 0 [JStr ''hi''] devnull_state)) =
         console devnull_state @ [hdr @ [JStr ''hi''] @ post] \<and> length hdr = 8 \<and>
       hdr ! Suc 0 = JStr ''     ERROR'' \<and> hdr ! 6 = JStr ''\<newline>|--- A'') \<and>
     heap (state_of (error refusing_env 0 [JStr ''hi''] devnull_state)) = heap devnull_state \<and>
     (\<exists>err. error refusing_env 0 [JStr ''hi''] devnull_state =
         Inl (err, state_of (error refusing_env 0 [JStr ''hi''] devnull_state)) \<and>
         ((\<exists>what. err = Thrown what) \<or> (\<exists>code. err = FsError code)))"
    using C1_level_filter [OF x gd sd mx, of refusing_env "[JStr ''hi'']"] ed nd
    by (simp add: example_logger_def eval_nat_numeral)
  then have r4: "\<exists>st' err hdr post. error refusing_env 0 [JStr ''hi''] devnull_state = Inl (err, st') \<and>
       ((\<exists>what. err = Thrown what) \<or> (\<exists>code. err = FsError code)) \<and>
       heap st' = heap devnull_state \<and>
       console st' = console devnull_state @ [hdr @ [JStr ''hi''] @ post] \<and> length hdr = 8 \<and>
       hdr ! Suc 0 = JStr ''     ERROR'' \<and> hdr ! 6 = JStr ''\<newline>|--- A''"
    by blast
  from d i x g s md mi mx j k r1 r2 r3 gd sd ed nd r4 show ?thesis by blast
qed

text \<open>
  Claim C1 as worded says that every admitted call returns the logger instance. With the
  log directory under \<^verbatim>\<open>/dev/null\<close>, where the file system refuses the directory,
  \<^verbatim>\<open>error('boom')\<close> under the minimum \<^verbatim>\<open>INFO\<close> makes its console write and then
  raises the error of \<^verbatim>\<open>mkdirSync\<close>; with a file system that refuses the append it
  raises the error of \<^verbatim>\<open>appendFileSync\<close>; and \<^verbatim>\<open>error\<close> with a fragment whose
  conversion to a string throws makes its console write and then raises that exception,
  with the file system in order.
\<close>

theorem C1_counterexample:
  "LoggerLevels ''ERROR'' = Rank 9 \<and> LoggerLevels (globalLogLevel devnull_state) = Rank 4 \<and>
   LoggerLevels (globalLogLevel example_state) = Rank 4 \<and>
   deref devnull_state 0 = Some example_logger \<and>
   deref example_state 0 = Some example_logger \<and>
   (error, False) \<in> set (entry_points ''ERROR'') \<and>
   (\<exists>st'. error refusing_env 0 [JStr ''boom''] devnull_state = Inl (FsError ''ENOTDIR'', st') \<and>
      length (console st') = 1 \<and> files st' = Map.empty) \<and>
   (\<exists>st'. error readonly_env 0 [JStr ''boom''] example_state = Inl (FsError ''EACCES'', st') \<and>
      length (console st') = 1 \<and> files st' = Map.empty) \<and>
   (\<exists>st'. error example_env 0 [JOther (Throws ''Cannot convert a Symbol value to a string'')]
             example_state =
           Inl (Thrown ''Cannot convert a Symbol value to a string'', st') \<and>
      length (console st') = 1 \<and> files st' = Map.empty)"
proof -
  have x: "LoggerLevels ''ERROR'' = Rank 9" by (simp add: LoggerLevels_simps)
  have g: "LoggerLevels (globalLogLevel devnull_state) = Rank 4"
    by (simp add: devnull_state_def example_state_eq LoggerLevels_simps)
  have g': "LoggerLevels (globalLogLevel example_state) = Rank 4"
    by (simp add: example_state_eq LoggerLevels_simps)
  have s: "deref devnull_state 0 = Some example_logger"
    by (simp add: devnull_state_def example_state_eq deref_def)
  have s': "deref example_state 0 = Some example_logger"
    by (simp add: example_state_eq deref_def)
  have mx: "(error, False) \<in> set (entry_points ''ERROR'')"
    by (simp add: entry_points_def shortcuts_def)
  have a: "\<not> js_less (LoggerLevels ''ERROR'') (LoggerLevels (globalLogLevel devnull_state))"
    by (simp add: x g)
  have a': "\<not> js_less (LoggerLevels ''ERROR'') (LoggerLevels (globalLogLevel example_state))"
    by (simp add: x g')
  have r1: "\<exists>st'. error refusing_env 0 [JStr ''boom''] devnull_state =
        Inl (FsError ''ENOTDIR'', st') \<and> length (console st') = 1 \<and> files st' = Map.empty"
    unfolding error_def private_log_admitted[OF s a]
    by (simp add: returning_def private_logToFile_cases existsSync_def refusing_env_def
        devnull_state_def example_state_eq)
  have r3: "\<exists>st'. error readonly_env 0 [JStr ''boom''] example_state =
        Inl (FsError ''EACCES'', st') \<and> length (console st') = 1 \<and> files st' = Map.empty"
    unfolding error_def private_log_admitted[OF s' a']
    by (simp add: returning_def private_logToFile_cases existsSync_def readonly_env_def
        example_env_def example_state_eq)
  have r2: "\<exists>st'. error example_env 0 [JOther (Throws ''Cannot convert a Symbol value to a string'')]
             example_state =
           Inl (Thrown ''Cannot convert a Symbol value to a string'', st') \<and>
      length (console st') = 1 \<and> files st' = Map.empty"
    unfolding error_def private_log_admitted[OF s' a']
    by (simp add: example_state_eq)
  from x g g' s s' mx r1 r3 r2 show ?thesis by blast
qed

text \<open>
  Claim C2, as the code has it. Among admitted calls, only those at \<^verbatim>\<open>ERROR\<close> and
  \<^verbatim>\<open>FATAL\<close> reach the file sink, and such a call changes the files exactly when file
  logging is enabled, every fragment can be converted to a string, and the file system
  accepts the write: then the line
  \<^verbatim>\<open><ISO timestamp> | <LEVEL> | <location> | <function>[ | <prefix>] | <fragments joined by spaces>\<close>
  and a newline are appended to the day's file, whose path is the one \<^verbatim>\<open>path.join\<close>
  builds from the log directory and the current date; it is \<open>day_file\<close>, the path as
  the specification writes it, whenever the log directory is a clean path. In every
  other case no file changes: at every other level, with file logging off, when the join
  of the fragments throws (it comes before the sink is called), and when the file
  system refuses the directory or the append. The fragments of the generic \<^verbatim>\<open>log\<close>
  include the rendered trace lines.
\<close>

theorem C2_file_sink:
  assumes "deref st this = Some self" and "(m, tr) \<in> set (entry_points L)"
    and "\<not> js_less (LoggerLevels L) (LoggerLevels (globalLogLevel st))"
  shows "files (state_of (m e this msgs st)) =
           (if (L = ''ERROR'' \<or> L = ''FATAL'') \<and> enableFileLogging st \<and> sink_accepts e st
            then (case join '' '' (msgs @ (if tr then rendered_trace self else [])) of
                    Inl err \<Rightarrow> files st
                  | Inr joined \<Rightarrow>
                      (files st)(joined_day_file (logDirectory st) (today e) \<mapsto>
                        (case files st (joined_day_file (logDirectory st) (today e)) of
                           None \<Rightarrow> [] | Some old \<Rightarrow> old) @
                        (toISOString (now e) @ '' | '' @ L @ '' | '' @
                         fileName (private_getCallerInfo e (stack e)) @ '' | '' @
                         methodName (private_getCallerInfo e (stack e)) @
                         (case prefix self of
                            None \<Rightarrow> [] | Some p \<Rightarrow> if p = [] then [] else '' | '' @ p) @
                         '' | '' @ joined) @
                        ''\<newline>''))
            else files st) \<and>
         (clean_path (logDirectory st) \<longrightarrow>
            joined_day_file (logDirectory st) (today e) = day_file (logDirectory st) (today e))"
proof -
  let ?frags = "msgs @ (if tr then rendered_trace self else [])"
  obtain c b where m: "m e this msgs st = private_log e this L ?frags c b st"
    using entry_point_as_private_log[OF assms(2,1)] by blast
  have fl: "file_line e self L joined =
      toISOString (now e) @ '' | '' @ L @ '' | '' @
      fileName (private_getCallerInfo e (stack e)) @ '' | '' @
      methodName (private_getCallerInfo e (stack e)) @
      (case prefix self of None \<Rightarrow> [] | Some p \<Rightarrow> if p = [] then [] else '' | '' @ p) @
      '' | '' @ joined" for joined
    by (simp add: file_line_def split: option.splits)
  have f: "files (state_of (m e this msgs st)) =
           (if (L = ''ERROR'' \<or> L = ''FATAL'') \<and> enableFileLogging st \<and> sink_accepts e st
            then (case join '' '' ?frags of
                    Inl err \<Rightarrow> files st
                  | Inr joined \<Rightarrow>
                      (files st)(joined_day_file (logDirectory st) (today e) \<mapsto>
                        (case files st (joined_day_file (logDirectory st) (today e)) of
                           None \<Rightarrow> [] | Some old \<Rightarrow> old) @
                        file_line e self L joined @ ''\<newline>''))
            else files st)"
    unfolding m private_log_admitted_files[OF assms(1,3)]
    by (cases "join '' '' ?frags"; cases "L = ''ERROR'' \<or> L = ''FATAL''") simp_all
  have p: "clean_path (logDirectory st) \<longrightarrow>
              joined_day_file (logDirectory st) (today e) = day_file (logDirectory st) (today e)"
    using joined_day_file_clean by blast
  show ?thesis using f p unfolding fl by (rule conjI)
qed

theorem C2_file_sink_witness:
  "deref example_state 0 = Some example_logger \<and>
   (error, False) \<in> set (entry_points ''ERROR'') \<and>
   (info, False) \<in> set (entry_points ''INFO'') \<and>
   \<not> js_less (LoggerLevels ''ERROR'') (LoggerLevels (globalLogLevel example_state)) \<and>
   \<not> js_less (LoggerLevels ''INFO'') (LoggerLevels (globalLogLevel example_state)) \<and>
   enableFileLogging example_state \<and> sink_accepts example_env example_state \<and>
   logDirectory example_state = ''/tmp/logs'' \<and> clean_path ''/tmp/logs'' \<and>
   getFullYear (today example_env) = 2024 \<and> getMonth (today example_env) = 2 \<and>
   getDate (today example_env) = 7 \<and>
   files (state_of (error example_env 0 [JStr ''boom'', JOther (Text ''1e+21'')] example_state)) =
        [''/tmp/logs/2024/2024-03/2024-03-07.log'' \<mapsto>
         ''2024-03-07T10:15:30.000Z | ERROR | src/server.js:12 | main | A | boom 1e+21\<newline>''] \<and>
   files (state_of (info example_env 0 [JStr ''boom'', JOther (Text ''1e+21'')] example_state)) =
        Map.empty \<and>
   join '' '' [JOther (Throws ''Cannot convert a Symbol value to a string'')] =
        Inl (Thrown ''Cannot convert a Symbol value to a string'') \<and>
   files (state_of (error example_env 0
        [JOther (Throws ''Cannot convert a Symbol value to a string'')] example_state)) =
        Map.empty"
proof -
  have s: "deref example_state 0 = Some example_logger"
    by (simp add: example_state_eq deref_def)
  have me: "(error, False) \<in> set (entry_points ''ERROR'')"
    by (simp add: entry_points_def shortcuts_def)
  have mi: "(info, False) \<in> set (entry_points ''INFO'')"
    by (simp add: entry_points_def shortcuts_def)
  have ae: "\<not> js_less (LoggerLevels ''ERROR'') (LoggerLevels (globalLogLevel example_state))"
    by (simp add: example_state_eq LoggerLevels_simps)
  have ai: "\<not> js_less (LoggerLevels ''INFO'') (LoggerLevels (globalLogLevel example_state))"
    by (simp add: example_state_eq LoggerLevels_simps)
  have ld: "logDirectory example_state = ''/tmp/logs''" by (simp add: example_state_eq)
  have cp: "clean_path ''/tmp/logs''" by (simp add: clean_path_def clean_segment_def)
  have dt: "getFullYear (today example_env) = 2024" "getMonth (today example_env) = 2"
    "getDate (today example_env) = 7"
    by (simp_all add: example_env_def)
  have df: "day_file ''/tmp/logs'' (today example_env) = ''/tmp/logs/2024/2024-03/2024-03-07.log''"
    by (simp add: day_file_def dt two_digits_def int_toString_def decimal.simps)
  have i: "private_getCallerInfo example_env (stack example_env) =
      \<lparr>fileName = ''src/server.js:12'', methodName = ''main''\<rparr>"
    by (simp add: private_getCallerInfo_def example_env_def decimal.simps)
  have ts: "toISOString (now example_env) = ''2024-03-07T10:15:30.000Z''"
    by (simp add: example_env_def)
  have fe: "files example_state = Map.empty" "enableFileLogging example_state"
    by (simp_all add: example_state_eq)
  have k: "sink_accepts example_env example_state"
    by (simp add: sink_accepts_def example_env_def)
  have pf: "prefix example_logger = Some ''A''" by (simp add: example_logger_def)
  note t1 = C2_file_sink [OF s me ae, of example_env "[JStr ''boom'', JOther (Text ''1e+21'')]"]
  have jd: "joined_day_file (logDirectory example_state) (today example_env) =
      ''/tmp/logs/2024/2024-03/2024-03-07.log''"
    using t1 cp by (simp add: ld df)
  have f1: "files (state_of (error example_env 0 [JStr ''boom'', JOther (Text ''1e+21'')] example_state)) =
        [''/tmp/logs/2024/2024-03/2024-03-07.log'' \<mapsto>
         ''2024-03-07T10:15:30.000Z | ERROR | src/server.js:12 | main | A | boom 1e+21\<newline>'']"
    using t1 unfolding jd by (simp add: fe k i ts pf)
  have f2: "files (state_of (info example_env 0 [JStr ''boom'', JOther (Text ''1e+21'')] example_state)) =
        Map.empty"
    using C2_file_sink [OF s mi ai, of example_env "[JStr ''boom'', JOther (Text ''1e+21'')]"]
    by (simp add: fe)
  have jt: "join '' '' [JOther (Throws ''Cannot convert a Symbol value to a string'')] =
        Inl (Thrown ''Cannot convert a Symbol value to a string'')"
    by simp
  have f3: "files (state_of (error example_env 0
        [JOther (Throws ''Cannot convert a Symbol value to a string'')] example_state)) =
        Map.empty"
    using C2_file_sink [OF s me ae, of example_env
        "[JOther (Throws ''Cannot convert a Symbol value to a string'')]"]
    by (simp add: fe k)
  from s me mi ae ai fe(2) k ld cp dt f1 f2 jt f3 show ?thesis by blast
qed

text \<open>
  Claim C2 as worded says that an admitted \<^verbatim>\<open>ERROR\<close> call with file logging enabled
  appends its line to \<^verbatim>\<open><logDirectory>/<YYYY>/<YYYY>-<MM>/<YYYY>-<MM>-<DD>.log\<close>. With
  file logging enabled and the minimum at \<^verbatim>\<open>INFO\<close>: \<^verbatim>\<open>error\<close> with a fragment whose
  conversion throws writes no file; \<^verbatim>\<open>error('boom')\<close> with the log directory under
  \<^verbatim>\<open>/dev/null\<close>, where the file system refuses the directory, writes no file, and
  neither does it with a file system that refuses the append; and
  \<^verbatim>\<open>error('boom')\<close> with the log directory \<^verbatim>\<open>./logs\<close> on 2024-03-07 writes to
  \<^verbatim>\<open>logs/2024/2024-03/2024-03-07.log\<close>, which is not the path
  \<^verbatim>\<open>./logs/2024/2024-03/2024-03-07.log\<close> of the claim.
\<close>

theorem C2_counterexample:
  "deref example_state 0 = Some example_logger \<and>
   deref devnull_state 0 = Some example_logger \<and>
   deref dotted_state 0 = Some example_logger \<and>
   (error, False) \<in> set (entry_points ''ERROR'') \<and>
   \<not> js_less (LoggerLevels ''ERROR'') (LoggerLevels (globalLogLevel example_state)) \<and>
   \<not> js_less (LoggerLevels ''ERROR'') (LoggerLevels (globalLogLevel devnull_state)) \<and>
   \<not> js_less (LoggerLevels ''ERROR'') (LoggerLevels (globalLogLevel dotted_state)) \<and>
   enableFileLogging example_state \<and> enableFileLogging devnull_state \<and>
   enableFileLogging dotted_state \<and>
   files (state_of (error example_env 0
       [JStr ''boom'', JOther (Throws ''Cannot convert a Symbol value to a string'')]
       example_state)) = Map.empty \<and>
   files (state_of (error refusing_env 0 [JStr ''boom''] devnull_state)) = Map.empty \<and>
   files (state_of (error readonly_env 0 [JStr ''boom''] example_state)) = Map.empty \<and>
   logDirectory dotted_state = ''./logs'' \<and>
   day_file ''./logs'' (today example_env) = ''./logs/2024/2024-03/2024-03-07.log'' \<and>
   files (state_of (error example_env 0 [JStr ''boom''] dotted_state)) =
     [''logs/2024/2024-03/2024-03-07.log'' \<mapsto>
      ''2024-03-07T10:15:30.000Z | ERROR | src/server.js:12 | main | A | boom\<newline>'']"
proof -
  have s: "deref example_state 0 = Some example_logger"
    "deref devnull_state 0 = Some example_logger"
    "deref dotted_state 0 = Some example_logger"
    by (simp_all add: devnull_state_def dotted_state_def example_state_eq deref_def)
  have me: "(error, False) \<in> set (entry_points ''ERROR'')"
    by (simp add: entry_points_def shortcuts_def)
  have a: "\<not> js_less (LoggerLevels ''ERROR'') (LoggerLevels (globalLogLevel example_state))"
    "\<not> js_less (LoggerLevels ''ERROR'') (LoggerLevels (globalLogLevel devnull_state))"
    "\<not> js_less (LoggerLevels ''ERROR'') (LoggerLevels (globalLogLevel dotted_state))"
    by (simp_all add: devnull_state_def dotted_state_def example_state_eq LoggerLevels_simps)
  have en: "enableFileLogging example_state" "enableFileLogging devnull_state"
    "enableFileLogging dotted_state"
    by (simp_all add: devnull_state_def dotted_state_def example_state_eq)
  have i: "private_getCallerInfo example_env (stack example_env) =
      \<lparr>fileName = ''src/server.js:12'', methodName = ''main''\<rparr>"
    by (simp add: private_getCallerInfo_def example_env_def decimal.simps)
  have ts: "toISOString (now example_env) = ''2024-03-07T10:15:30.000Z''"
    by (simp add: example_env_def)
  have dt: "getFullYear (today example_env) = 2024" "getMonth (today example_env) = 2"
    "getDate (today example_env) = 7"
    by (simp_all add: example_env_def)
  have r1: "files (state_of (error example_env 0
       [JStr ''boom'', JOther (Throws ''Cannot convert a Symbol value to a string'')]
       example_state)) = Map.empty"
    unfolding error_def private_log_admitted_files[OF s(1) a(1)]
    by (simp add: example_state_eq)
  have n: "\<not> sink_accepts refusing_env devnull_state"
    by (simp add: sink_accepts_def refusing_env_def existsSync_def devnull_state_def
        example_state_eq)
  have r2: "files (state_of (error refusing_env 0 [JStr ''boom''] devnull_state)) = Map.empty"
    unfolding error_def private_log_admitted_files[OF s(2) a(2)]
    by (simp add: n) (simp add: devnull_state_def example_state_eq)
  have n': "\<not> sink_accepts readonly_env example_state"
    by (simp add: sink_accepts_def readonly_env_def)
  have r2': "files (state_of (error readonly_env 0 [JStr ''boom''] example_state)) = Map.empty"
    unfolding error_def private_log_admitted_files[OF s(1) a(1)]
    by (simp add: n') (simp add: example_state_eq)
  have ld: "logDirectory dotted_state = ''./logs''"
    by (simp add: dotted_state_def)
  have df: "day_file ''./logs'' (today example_env) = ''./logs/2024/2024-03/2024-03-07.log''"
    by (simp add: day_file_def dt two_digits_def int_toString_def decimal.simps)
  have jd: "joined_day_file ''./logs'' (today example_env) = ''logs/2024/2024-03/2024-03-07.log''"
    by (simp add: joined_day_file_def dt int_toString_def decimal.simps padStart_def
        path_join_def normalize_def Let_def)
  have k: "sink_accepts example_env dotted_state"
    by (simp add: sink_accepts_def example_env_def)
  have fe: "files dotted_state = Map.empty"
    by (simp add: dotted_state_def example_state_eq)
  have r3: "files (state_of (error example_env 0 [JStr ''boom''] dotted_state)) =
     [''logs/2024/2024-03/2024-03-07.log'' \<mapsto>
      ''2024-03-07T10:15:30.000Z | ERROR | src/server.js:12 | main | A | boom\<newline>'']"
    unfolding error_def private_log_admitted_files[OF s(3) a(3)]
    by (simp add: k en ld jd fe file_line_def i ts example_logger_def)
  from s me a en r1 r2 r2' ld df r3 show ?thesis by blast
qed

text \<open>
  Claim C3, as the code has it. A level name \<open>N\<close> that is no recognised severity is not
  rejected by the generic \<^verbatim>\<open>log\<close>: the call raises nothing and returns the instance.
  When the global minimum is a recognised level, the rank lookup of \<open>N\<close> is not a number
  and the filter's comparison with the rank of the minimum is false, so the call is
  admitted whatever that minimum is: one console write labelled \<open>N\<close> with the fragments
  in order, no file write, no logger changed. The severity methods never raise the
  invalid-level error.
\<close>

theorem C3_unknown_level_logged:
  assumes "\<forall>n. LoggerLevels N \<noteq> Rank n" and "deref st this = Some self"
  shows "(\<exists>st'. log e this N msgs st = Inr (this, st') \<and>
            (\<forall>g. LoggerLevels (globalLogLevel st) = Rank g \<longrightarrow>
               \<not> js_less (LoggerLevels N) (LoggerLevels (globalLogLevel st)) \<and>
               (\<exists>hdr post. console st' = console st @ [hdr @ msgs @ post] \<and> length hdr = 8 \<and>
                  hdr ! 1 = JStr (replicate (10 - length N) CHR '' '' @ N)) \<and>
               files st' = files st \<and> heap st' = heap st)) \<and>
         (\<forall>name m e' r ms s s' x. (name, m) \<in> set shortcuts \<longrightarrow>
            m e' r ms s \<noteq> Inl (Error (''Invalid log level: '' @ x), s'))"
proof -
  have N: "N \<noteq> ''ERROR''" "N \<noteq> ''FATAL''"
    using assms(1) by (auto simp: LoggerLevels_simps)
  let ?frags = "msgs @ rendered_trace self"
  have l: "log e this N msgs st = private_log e this N ?frags Reset Reset st"
    by (rule log_as_private_log[OF assms(2)])
  have a: "\<exists>st'. log e this N msgs st = Inr (this, st') \<and>
            (\<forall>g. LoggerLevels (globalLogLevel st) = Rank g \<longrightarrow>
               \<not> js_less (LoggerLevels N) (LoggerLevels (globalLogLevel st)) \<and>
               (\<exists>hdr post. console st' = console st @ [hdr @ msgs @ post] \<and> length hdr = 8 \<and>
                  hdr ! 1 = JStr (replicate (10 - length N) CHR '' '' @ N)) \<and>
               files st' = files st \<and> heap st' = heap st)"
  proof (cases "js_less (LoggerLevels N) (LoggerLevels (globalLogLevel st))")
    case True
    then have nr: "\<forall>g. LoggerLevels (globalLogLevel st) \<noteq> Rank g"
      using assms(1) by (cases "LoggerLevels N"; cases "LoggerLevels (globalLogLevel st)") auto
    show ?thesis using l private_log_filtered[OF assms(2) True] nr by simp
  next
    case False
    let ?hdr = "console_block e self N Reset Reset"
    let ?st' = "st\<lparr>console := console st @ [?hdr @ ?frags @ [JStr ''\<newline>'']]\<rparr>"
    have r: "log e this N msgs st = Inr (this, ?st')"
      using l private_log_admitted[OF assms(2) False] N by simp
    have c: "console ?st' = console st @ [?hdr @ msgs @ (rendered_trace self @ [JStr ''\<newline>''])]"
      by simp
    have h: "length ?hdr = 8" "?hdr ! 1 = JStr (replicate (10 - length N) CHR '' '' @ N)"
      by (simp_all add: console_block_def padStart_def)
    have f: "files ?st' = files st" "heap ?st' = heap st" by simp_all
    from r c h f False show ?thesis by blast
  qed
  have b: "\<forall>name m e' r ms s s' x. (name, m) \<in> set shortcuts \<longrightarrow>
            m e' r ms s \<noteq> Inl (Error (''Invalid log level: '' @ x), s')"
  proof (intro allI impI)
    fix name m e' r ms s s' x
    assume "(name, m) \<in> set shortcuts"
    then obtain c b where "m e' r ms s = private_log e' r name ms c b s"
      using shortcut_private_log by blast
    then show "m e' r ms s \<noteq> Inl (Error (''Invalid log level: '' @ x), s')"
      using private_log_no_Error by simp
  qed
  from a b show ?thesis by (rule conjI)
qed

theorem C3_unknown_level_logged_witness:
  "(\<forall>n. LoggerLevels ''BOGUS'' \<noteq> Rank n) \<and> deref strict_state 0 = Some example_logger \<and>
   LoggerLevels (globalLogLevel strict_state) = Rank 10 \<and>
   \<not> js_less (LoggerLevels ''BOGUS'') (LoggerLevels (globalLogLevel strict_state)) \<and>
   (\<exists>st'. log example_env 0 ''BOGUS'' [JStr ''x''] strict_state = Inr (0, st') \<and>
      (\<exists>hdr post. console st' = console strict_state @ [hdr @ [JStr ''x''] @ post] \<and>
          length hdr = 8 \<and> hdr ! 1 = JStr (replicate (10 - length ''BOGUS'') CHR '' '' @ ''BOGUS'')) \<and>
      files st' = files strict_state \<and> heap st' = heap strict_state) \<and>
   (''INFO'', info) \<in> set shortcuts \<and>
   (\<forall>s'. info example_env 0 [JStr ''x''] strict_state \<noteq>
      Inl (Error (''Invalid log level: '' @ ''INFO''), s'))"
proof -
  have n: "\<forall>n. LoggerLevels ''BOGUS'' \<noteq> Rank n"
    by (simp add: LoggerLevels_def levels_def decimal.simps Object_prototype_def)
  have g: "LoggerLevels (globalLogLevel strict_state) = Rank 10"
    by (simp add: strict_state_simps LoggerLevels_simps)
  have i: "(''INFO'', info) \<in> set shortcuts" by (simp add: shortcuts_def)
  note t = C3_unknown_level_logged [OF n strict_state_simps(1), of example_env "[JStr ''x'']"]
  from t g have a: "\<exists>st'. log example_env 0 ''BOGUS'' [JStr ''x''] strict_state = Inr (0, st') \<and>
      \<not> js_less (LoggerLevels ''BOGUS'') (LoggerLevels (globalLogLevel strict_state)) \<and>
      (\<exists>hdr post. console st' = console strict_state @ [hdr @ [JStr ''x''] @ post] \<and>
          length hdr = 8 \<and> hdr ! 1 = JStr (replicate (10 - length ''BOGUS'') CHR '' '' @ ''BOGUS'')) \<and>
      files st' = files strict_state \<and> heap st' = heap strict_state"
    by blast
  from t i have b: "\<forall>s'. info example_env 0 [JStr ''x''] strict_state \<noteq>
      Inl (Error (''Invalid log level: '' @ ''INFO''), s')"
    by blast
  from n g a i b strict_state_simps(1) show ?thesis by blast
qed

text \<open>
  The claim as stated asks \<^verbatim>\<open>log\<close> to raise for an unrecognised name. With the minimum
  at \<^verbatim>\<open>FATAL\<close>, \<^verbatim>\<open>log('BOGUS', 'x')\<close> raises nothing and writes to the console.
  Admission is stated under a recognised minimum because the comparison can hold
  otherwise: \<^verbatim>\<open>setLogLevel\<close> accepts the key \<^verbatim>\<open>"1"\<close>, and under that minimum
  \<^verbatim>\<open>log('0', 'x')\<close> compares the names \<^verbatim>\<open>SILLY\<close> and \<^verbatim>\<open>TRACE\<close> as strings and is
  dropped, again without raising.
\<close>

theorem C3_counterexample:
  "LoggerLevels ''BOGUS'' = Undefined \<and>
   \<not> (\<exists>err. log example_env 0 ''BOGUS'' [JStr ''x''] strict_state = Inl err) \<and>
   (\<exists>st'. log example_env 0 ''BOGUS'' [JStr ''x''] strict_state = Inr (0, st') \<and>
      length (console st') = 1) \<and>
   LoggerLevels ''0'' = Name ''SILLY'' \<and> LoggerLevels ''1'' = Name ''TRACE'' \<and>
   setLogLevel ''1'' example_state = Inr (example_state\<lparr>globalLogLevel := ''1''\<rparr>) \<and>
   js_less (LoggerLevels ''0'') (LoggerLevels ''1'') \<and>
   log example_env 0 ''0'' [JStr ''x''] (example_state\<lparr>globalLogLevel := ''1''\<rparr>) =
     Inr (0, example_state\<lparr>globalLogLevel := ''1''\<rparr>)"
proof -
  have u: "LoggerLevels ''BOGUS'' = Undefined"
    by (simp add: LoggerLevels_def levels_def decimal.simps Object_prototype_def)
  have adm: "\<not> js_less (LoggerLevels ''BOGUS'') (LoggerLevels (globalLogLevel strict_state))"
    by (simp add: u)
  have "log example_env 0 ''BOGUS'' [JStr ''x''] strict_state =
        private_log example_env 0 ''BOGUS'' ([JStr ''x''] @ rendered_trace example_logger) Reset Reset strict_state"
    by (rule log_as_private_log[OF strict_state_simps(1)])
  also have "\<dots> = Inr (0, strict_state\<lparr>console := console strict_state @
       [console_block example_env example_logger ''BOGUS'' Reset Reset @
        ([JStr ''x''] @ rendered_trace example_logger) @ [JStr ''\<newline>'']]\<rparr>)"
    using private_log_admitted[OF strict_state_simps(1) adm] by simp
  finally have r: "log example_env 0 ''BOGUS'' [JStr ''x''] strict_state = Inr (0, strict_state\<lparr>console := console strict_state @
       [console_block example_env example_logger ''BOGUS'' Reset Reset @
        ([JStr ''x''] @ rendered_trace example_logger) @ [JStr ''\<newline>'']]\<rparr>)" .
  have 1: "\<not> (\<exists>err. log example_env 0 ''BOGUS'' [JStr ''x''] strict_state = Inl err)"
    "\<exists>st'. log example_env 0 ''BOGUS'' [JStr ''x''] strict_state = Inr (0, st') \<and>
      length (console st') = 1"
    using r by (simp_all add: strict_state_simps)
  have k: "LoggerLevels ''0'' = Name ''SILLY''" "LoggerLevels ''1'' = Name ''TRACE''"
    by (simp_all add: LoggerLevels_def levels_def decimal.simps)
  have sl: "setLogLevel ''1'' example_state = Inr (example_state\<lparr>globalLogLevel := ''1''\<rparr>)"
    by (simp add: setLogLevel_def k)
  have lt: "js_less (LoggerLevels ''0'') (LoggerLevels ''1'')"
    by (simp add: k)
  have d: "deref (example_state\<lparr>globalLogLevel := ''1''\<rparr>) 0 = Some example_logger"
    by (simp add: example_state_eq deref_def)
  have lt': "js_less (LoggerLevels ''0'')
      (LoggerLevels (globalLogLevel (example_state\<lparr>globalLogLevel := ''1''\<rparr>)))"
    using lt by simp
  have dr: "log example_env 0 ''0'' [JStr ''x''] (example_state\<lparr>globalLogLevel := ''1''\<rparr>) =
     Inr (0, example_state\<lparr>globalLogLevel := ''1''\<rparr>)"
    unfolding log_as_private_log[OF d] by (rule private_log_filtered[OF d lt'])
  from u 1 k sl lt dr show ?thesis by blast
qed

text \<open>
  Claim C4, at the input where the code leaves it. \<^verbatim>\<open>setLogLevel\<close> accepts every key
  whose lookup in \<^verbatim>\<open>LoggerLevels\<close> is not \<^verbatim>\<open>undefined\<close>, and the enum's
  reverse entries make \<^verbatim>\<open>"0"\<close> such a key though it is no severity name:
  \<^verbatim>\<open>setLogLevel("0")\<close> raises nothing and stores \<^verbatim>\<open>"0"\<close> as the global minimum.
  The previous minimum \<^verbatim>\<open>INFO\<close> dropped a \<^verbatim>\<open>SILLY\<close> call; after the call the
  same \<^verbatim>\<open>SILLY\<close> call is written to the console. A name whose lookup is
  \<^verbatim>\<open>undefined\<close> is rejected, and a severity name is stored.
\<close>

theorem C4_reverse_key_accepted:
  "LoggerLevels ''0'' = Name ''SILLY'' \<and>
   silly example_env 0 [JStr ''x''] example_state = Inr (0, example_state) \<and>
   setLogLevel ''0'' example_state = Inr (example_state\<lparr>globalLogLevel := ''0''\<rparr>) \<and>
   (\<exists>st'. silly example_env 0 [JStr ''x''] (example_state\<lparr>globalLogLevel := ''0''\<rparr>) = Inr (0, st') \<and>
       length (console st') = 1) \<and>
   setLogLevel ''BOGUS'' example_state = Inl (Error ''Invalid log level: BOGUS'') \<and>
   setLogLevel ''DEBUG'' example_state = Inr (example_state\<lparr>globalLogLevel := ''DEBUG''\<rparr>)"
proof -
  have k: "LoggerLevels ''0'' = Name ''SILLY''"
    by (simp add: LoggerLevels_def levels_def decimal.simps)
  have s: "deref example_state 0 = Some example_logger"
    by (simp add: example_state_eq deref_def)
  have s': "deref (example_state\<lparr>globalLogLevel := ''0''\<rparr>) 0 = Some example_logger"
    by (simp add: example_state_eq deref_def)
  have f: "js_less (LoggerLevels ''SILLY'') (LoggerLevels (globalLogLevel example_state))"
    by (simp add: example_state_eq LoggerLevels_simps)
  have a: "\<not> js_less (LoggerLevels ''SILLY'') (LoggerLevels (globalLogLevel (example_state\<lparr>globalLogLevel := ''0''\<rparr>)))"
    by (simp add: k LoggerLevels_simps)
  have r1: "silly example_env 0 [JStr ''x''] example_state = Inr (0, example_state)"
    unfolding silly_def by (rule private_log_filtered[OF s f])
  have r2: "setLogLevel ''0'' example_state = Inr (example_state\<lparr>globalLogLevel := ''0''\<rparr>)"
    by (simp add: setLogLevel_def k)
  have r3: "\<exists>st'. silly example_env 0 [JStr ''x''] (example_state\<lparr>globalLogLevel := ''0''\<rparr>) = Inr (0, st') \<and>
       length (console st') = 1"
    unfolding silly_def using private_log_admitted[OF s' a] by (simp add: example_state_eq)
  have r4: "setLogLevel ''BOGUS'' example_state = Inl (Error ''Invalid log level: BOGUS'')"
    by (simp add: setLogLevel_def LoggerLevels_def levels_def decimal.simps Object_prototype_def)
  have r5: "setLogLevel ''DEBUG'' example_state = Inr (example_state\<lparr>globalLogLevel := ''DEBUG''\<rparr>)"
    by (simp add: setLogLevel_def LoggerLevels_simps)
  from k r1 r2 r3 r4 r5 show ?thesis by blast
qed


text \<open>
  Claim C5, at the input where the code leaves it. On a logger whose prefix is
  \<^verbatim>\<open>A\<close>, \<^verbatim>\<open>child(undefined)\<close> (with either trace flag) returns a new logger whose
  prefix is the text \<^verbatim>\<open>A -> undefined\<close>: the separator is inserted and the missing
  segment is rendered by the template literal.
\<close>

theorem C5_child_without_prefix:
  assumes "deref st this = Some self" and "prefix self = Some ''A''"
  shows "\<exists>c st' new. child e this None tr st = Inr (c, st') \<and> deref st' c = Some new \<and>
           prefix new = Some ''A -> undefined''"
  unfolding child_result[OF assms(1)]
  by (simp add: deref_def child_prefix_def assms(2))

theorem C5_child_without_prefix_witness:
  "deref example_state 0 = Some example_logger \<and> prefix example_logger = Some ''A'' \<and>
   (\<exists>c st' new. child example_env 0 None False example_state = Inr (c, st') \<and>
       deref st' c = Some new \<and> prefix new = Some ''A -> undefined'')"
proof -
  have s: "deref example_state 0 = Some example_logger"
    by (simp add: example_state_eq deref_def)
  have p: "prefix example_logger = Some ''A''" by (simp add: example_logger_def)
  from C5_child_without_prefix [OF s p, of example_env False] s p show ?thesis by blast
qed

text \<open>
  Claim C6. A logger with a trace link that logs through the generic \<^verbatim>\<open>log\<close> hands
  to \<^verbatim>\<open>__log\<close> its fragments followed by one line per link of its chain, the oldest
  ancestor's first (the reverse of the traversal), each of the form
  \<^verbatim>\<open>Trace: Parent created at <parent location>, Child created at <child location>\<close>
  (\<open>trace_line\<close>); an admitted call shows them in that place of the console write, which
  is made before the file line of an \<^verbatim>\<open>ERROR\<close> or \<^verbatim>\<open>FATAL\<close> call, so it is there
  in the state the call ends in whether the file write raises or not; the call returns
  the instance at every other level, and at these two when the fragments can be joined
  and the file system accepts the write. For
  \<^verbatim>\<open>root.child("A", true).child("B", true)\<close> the chain of the leaf renders exactly
  two lines: root to A first, then A to B.
\<close>

theorem C6_trace_rendering:
  assumes "deref st this = Some self" and "parentTrace self = Some link"
  shows "log e this L msgs st =
           private_log e this L (msgs @ map (\<lambda>t. JStr (trace_line t)) (rev (chain link)))
             Reset Reset st \<and>
         (\<not> js_less (LoggerLevels L) (LoggerLevels (globalLogLevel st)) \<longrightarrow>
            (\<exists>hdr. length hdr = 8 \<and>
               console (state_of (log e this L msgs st)) = console st @
                 [hdr @ msgs @ map (\<lambda>t. JStr (trace_line t)) (rev (chain link)) @
                  [JStr ''\<newline>'']]) \<and>
            ((L \<noteq> ''ERROR'' \<and> L \<noteq> ''FATAL'') \<or>
             ((\<exists>joined. join '' '' (msgs @ map (\<lambda>t. JStr (trace_line t)) (rev (chain link))) =
                 Inr joined) \<and>
              (enableFileLogging st \<longrightarrow> sink_accepts e st)) \<longrightarrow>
             log e this L msgs st = Inr (this, state_of (log e this L msgs st)))) \<and>
         (\<exists>r s1 a s2 b s3 leaf nested.
            new_Logger e0 p0 st0 = (r, s1) \<and>
            child e1 r (Some ''A'') True s1 = Inr (a, s2) \<and>
            child e2 a (Some ''B'') True s2 = Inr (b, s3) \<and>
            deref s3 b = Some leaf \<and> parentTrace leaf = Some nested \<and>
            map trace_line (rev (chain nested)) =
              [''Trace: Parent created at '' @
                 fileName (private_getCallerInfo e0 (ctorStack e0)) @
               '', Child created at '' @ fileName (private_getCallerInfo e1 (stack e1)),
               ''Trace: Parent created at '' @
                 fileName (private_getCallerInfo e1 (ctorStack e1)) @
               '', Child created at '' @ fileName (private_getCallerInfo e2 (stack e2))])"
proof -
  note 1 = log_with_trace[OF assms, of e L msgs]
  let ?frags = "msgs @ map (\<lambda>t. JStr (trace_line t)) (rev (chain link))"
  have 2: "\<not> js_less (LoggerLevels L) (LoggerLevels (globalLogLevel st)) \<longrightarrow>
            (\<exists>hdr. length hdr = 8 \<and>
               console (state_of (log e this L msgs st)) = console st @
                 [hdr @ msgs @ map (\<lambda>t. JStr (trace_line t)) (rev (chain link)) @
                  [JStr ''\<newline>'']]) \<and>
            ((L \<noteq> ''ERROR'' \<and> L \<noteq> ''FATAL'') \<or>
             ((\<exists>joined. join '' '' (msgs @ map (\<lambda>t. JStr (trace_line t)) (rev (chain link))) =
                 Inr joined) \<and>
              (enableFileLogging st \<longrightarrow> sink_accepts e st)) \<longrightarrow>
             log e this L msgs st = Inr (this, state_of (log e this L msgs st)))"
  proof
    assume adm: "\<not> js_less (LoggerLevels L) (LoggerLevels (globalLogLevel st))"
    let ?hdr = "console_block e self L Reset Reset"
    have c: "console (state_of (log e this L msgs st)) =
        console st @ [?hdr @ msgs @ map (\<lambda>t. JStr (trace_line t)) (rev (chain link)) @ [JStr ''\<newline>'']]"
      unfolding 1 using private_log_admitted_console(1)[OF assms(1) adm, of e ?frags Reset Reset]
      by simp
    have h: "length ?hdr = 8" by (simp add: console_block_def)
    from c h have x: "\<exists>hdr. length hdr = 8 \<and>
               console (state_of (log e this L msgs st)) = console st @
                 [hdr @ msgs @ map (\<lambda>t. JStr (trace_line t)) (rev (chain link)) @
                  [JStr ''\<newline>'']]"
      by blast
    have y: "(L \<noteq> ''ERROR'' \<and> L \<noteq> ''FATAL'') \<or>
             ((\<exists>joined. join '' '' ?frags = Inr joined) \<and>
              (enableFileLogging st \<longrightarrow> sink_accepts e st)) \<longrightarrow>
             log e this L msgs st = Inr (this, state_of (log e this L msgs st))"
      unfolding 1 using private_log_admitted_returns[OF assms(1) adm, of ?frags e Reset Reset]
      by blast
    from x y show "(\<exists>hdr. length hdr = 8 \<and>
               console (state_of (log e this L msgs st)) = console st @
                 [hdr @ msgs @ map (\<lambda>t. JStr (trace_line t)) (rev (chain link)) @
                  [JStr ''\<newline>'']]) \<and>
            ((L \<noteq> ''ERROR'' \<and> L \<noteq> ''FATAL'') \<or>
             ((\<exists>joined. join '' '' (msgs @ map (\<lambda>t. JStr (trace_line t)) (rev (chain link))) =
                 Inr joined) \<and>
              (enableFileLogging st \<longrightarrow> sink_accepts e st)) \<longrightarrow>
             log e this L msgs st = Inr (this, state_of (log e this L msgs st)))"
      by (rule conjI)
  qed
  obtain r s1 where n: "new_Logger e0 p0 st0 = (r, s1)" by (cases "new_Logger e0 p0 st0")
  let ?root = "\<lparr>timeMap = Map.empty, prefix = p0,
        creationInfo = private_getCallerInfo e0 (ctorStack e0), parentTrace = None\<rparr>"
  have dr: "deref s1 r = Some ?root" using new_Logger_deref[OF n] by blast
  obtain a s2 la where ca: "child e1 r (Some ''A'') True s1 = Inr (a, s2)"
    and da: "deref s2 a = Some la"
    and pa: "parentTrace la = Some (Trace (prefix ?root) (creationInfo ?root)
               (private_getCallerInfo e1 (stack e1)) (parentTrace ?root))"
    and ia: "creationInfo la = private_getCallerInfo e1 (ctorStack e1)"
    using child_trace[OF dr, of e1 "Some ''A''" True] by auto
  obtain b s3 lb where cb: "child e2 a (Some ''B'') True s2 = Inr (b, s3)"
    and db: "deref s3 b = Some lb"
    and pb: "parentTrace lb = Some (Trace (prefix la) (creationInfo la)
               (private_getCallerInfo e2 (stack e2)) (parentTrace la))"
    using child_trace[OF da, of e2 "Some ''B''" True] by auto
  let ?nested = "Trace (prefix la) (creationInfo la)
               (private_getCallerInfo e2 (stack e2)) (parentTrace la)"
  have l: "map trace_line (rev (chain ?nested)) =
              [''Trace: Parent created at '' @
                 fileName (private_getCallerInfo e0 (ctorStack e0)) @
               '', Child created at '' @ fileName (private_getCallerInfo e1 (stack e1)),
               ''Trace: Parent created at '' @
                 fileName (private_getCallerInfo e1 (ctorStack e1)) @
               '', Child created at '' @ fileName (private_getCallerInfo e2 (stack e2))]"
    by (simp add: pa ia trace_line_def)
  from n ca cb db pb l have 3: "\<exists>r s1 a s2 b s3 leaf nested.
            new_Logger e0 p0 st0 = (r, s1) \<and>
            child e1 r (Some ''A'') True s1 = Inr (a, s2) \<and>
            child e2 a (Some ''B'') True s2 = Inr (b, s3) \<and>
            deref s3 b = Some leaf \<and> parentTrace leaf = Some nested \<and>
            map trace_line (rev (chain nested)) =
              [''Trace: Parent created at '' @
                 fileName (private_getCallerInfo e0 (ctorStack e0)) @
               '', Child created at '' @ fileName (private_getCallerInfo e1 (stack e1)),
               ''Trace: Parent created at '' @
                 fileName (private_getCallerInfo e1 (ctorStack e1)) @
               '', Child created at '' @ fileName (private_getCallerInfo e2 (stack e2))]"
    by simp
  from 1 2 3 show ?thesis by blast
qed


theorem C6_trace_rendering_witness:
  "deref nested_state 2 = Some example_leaf \<and> parentTrace example_leaf = Some example_link \<and>
   \<not> js_less (LoggerLevels ''INFO'') (LoggerLevels (globalLogLevel nested_state)) \<and>
   (\<exists>st' hdr. log (env_at 50) 2 ''INFO'' [JStr ''hi''] nested_state = Inr (2, st') \<and>
      length hdr = 8 \<and>
      console st' = console nested_state @
        [hdr @ [JStr ''hi''] @
         [JStr ''Trace: Parent created at src/server.js:3, Child created at src/server.js:30'',
          JStr ''Trace: Parent created at src/server.js:30, Child created at src/server.js:40''] @
         [JStr ''\<newline>'']])"
proof -
  have p: "parentTrace example_leaf = Some example_link" by (simp add: example_leaf_def)
  have a: "\<not> js_less (LoggerLevels ''INFO'') (LoggerLevels (globalLogLevel nested_state))"
    by (simp add: nested_state_simps LoggerLevels_simps)
  have l: "map (\<lambda>t. JStr (trace_line t)) (rev (chain example_link)) =
     [JStr ''Trace: Parent created at src/server.js:3, Child created at src/server.js:30'',
      JStr ''Trace: Parent created at src/server.js:30, Child created at src/server.js:40'']"
    by (simp add: example_link_def trace_line_def)
  from C6_trace_rendering [OF nested_state_simps(1) p, of "env_at 50" "''INFO''" "[JStr ''hi'']"
        example_env None example_state example_env example_env] a
  have "(\<exists>hdr. length hdr = 8 \<and>
      console (state_of (log (env_at 50) 2 ''INFO'' [JStr ''hi''] nested_state)) =
        console nested_state @
        [hdr @ [JStr ''hi''] @ map (\<lambda>t. JStr (trace_line t)) (rev (chain example_link)) @
         [JStr ''\<newline>'']]) \<and>
     (''INFO'' \<noteq> ''ERROR'' \<and> ''INFO'' \<noteq> ''FATAL'' \<longrightarrow>
      log (env_at 50) 2 ''INFO'' [JStr ''hi''] nested_state =
        Inr (2, state_of (log (env_at 50) 2 ''INFO'' [JStr ''hi''] nested_state)))"
    by blast
  then have "(\<exists>hdr. length hdr = 8 \<and>
      console (state_of (log (env_at 50) 2 ''INFO'' [JStr ''hi''] nested_state)) =
        console nested_state @
        [hdr @ [JStr ''hi''] @ map (\<lambda>t. JStr (trace_line t)) (rev (chain example_link)) @
         [JStr ''\<newline>'']]) \<and>
      log (env_at 50) 2 ''INFO'' [JStr ''hi''] nested_state =
        Inr (2, state_of (log (env_at 50) 2 ''INFO'' [JStr ''hi''] nested_state))"
    by simp
  then have "\<exists>st' hdr. log (env_at 50) 2 ''INFO'' [JStr ''hi''] nested_state = Inr (2, st') \<and>
      length hdr = 8 \<and>
      console st' = console nested_state @
        [hdr @ [JStr ''hi''] @ map (\<lambda>t. JStr (trace_line t)) (rev (chain example_link)) @
         [JStr ''\<newline>'']]"
    by blast
  then have "\<exists>st' hdr. log (env_at 50) 2 ''INFO'' [JStr ''hi''] nested_state = Inr (2, st') \<and>
      length hdr = 8 \<and>
      console st' = console nested_state @
        [hdr @ [JStr ''hi''] @
         [JStr ''Trace: Parent created at src/server.js:3, Child created at src/server.js:30'',
          JStr ''Trace: Parent created at src/server.js:30, Child created at src/server.js:40''] @
         [JStr ''\<newline>'']]"
    by (simp only: l)
  with nested_state_simps(1) p a show ?thesis by blast
qed


text \<open>
  Claim C7. On any logger, \<^verbatim>\<open>child(prefix, false)\<close> returns a logger without a trace
  link, whatever link the parent holds; \<^verbatim>\<open>child(prefix, true)\<close> returns one whose
  link records the parent's prefix, the parent's creation info, the location of the
  \<^verbatim>\<open>child\<close> call, and the parent's own link as the inherited one. Hence along any
  line of descent the chain of the last logger is as long as the run of trace-enabled
  edges that ends at it (from a root it is exactly that run; from a logger reached by
  trace-enabled edges only, the parent's chain is added). The traversal is a total
  function: it gives one line per link and ends at a link with no inherited one.
\<close>

theorem C7_trace_per_edge:
  assumes "deref st this = Some self"
  shows "(\<exists>c st' new. child e this pfx False st = Inr (c, st') \<and> deref st' c = Some new \<and>
            parentTrace new = None) \<and>
         (\<exists>c st' new. child e this pfx True st = Inr (c, st') \<and> deref st' c = Some new \<and>
            parentTrace new = Some (Trace (prefix self) (creationInfo self)
               (private_getCallerInfo e (stack e)) (parentTrace self))) \<and>
         (\<exists>l st' new. descend edges this st = Inr (l, st') \<and> deref st' l = Some new \<and>
            chain_length (parentTrace new) =
              (if list_all (\<lambda>(e, pfx, tr). tr) edges
               then chain_length (parentTrace self) + length edges
               else length (takeWhile (\<lambda>(e, pfx, tr). tr) (rev edges)))) \<and>
         (\<exists>l st' new. descend edges (fst (new_Logger e0 p0 st0)) (snd (new_Logger e0 p0 st0)) =
               Inr (l, st') \<and> deref st' l = Some new \<and>
            chain_length (parentTrace new) = length (takeWhile (\<lambda>(e, pfx, tr). tr) (rev edges))) \<and>
         (\<forall>link. length (traceMessages link) = length (chain link) \<and> chain link \<noteq> [] \<and>
            inheritedTrace (last (chain link)) = None)"
proof -
  have 1: "\<exists>c st' new. child e this pfx False st = Inr (c, st') \<and> deref st' c = Some new \<and>
            parentTrace new = None"
    using child_trace[OF assms, of e pfx False] by auto
  have 2: "\<exists>c st' new. child e this pfx True st = Inr (c, st') \<and> deref st' c = Some new \<and>
            parentTrace new = Some (Trace (prefix self) (creationInfo self)
               (private_getCallerInfo e (stack e)) (parentTrace self))"
    using child_trace[OF assms, of e pfx True] by auto
  note 3 = descend_chain[OF assms, of edges]
  obtain r s1 where n: "new_Logger e0 p0 st0 = (r, s1)" by (cases "new_Logger e0 p0 st0")
  let ?root = "\<lparr>timeMap = Map.empty, prefix = p0,
        creationInfo = private_getCallerInfo e0 (ctorStack e0), parentTrace = None\<rparr>"
  have d: "deref s1 r = Some ?root" using new_Logger_deref[OF n] by blast
  have a: "list_all (\<lambda>(e, pfx, tr). tr) edges \<Longrightarrow>
      length (takeWhile (\<lambda>(e, pfx, tr). tr) (rev edges)) = length edges"
    by (simp add: list_all_iff takeWhile_eq_all_conv[THEN iffD2])
  have 4: "\<exists>l st' new. descend edges (fst (new_Logger e0 p0 st0)) (snd (new_Logger e0 p0 st0)) =
               Inr (l, st') \<and> deref st' l = Some new \<and>
            chain_length (parentTrace new) = length (takeWhile (\<lambda>(e, pfx, tr). tr) (rev edges))"
    using descend_chain[OF d, of edges] a n by (auto simp: chain_length_def split: if_splits)
  have 5: "\<forall>link. length (traceMessages link) = length (chain link) \<and> chain link \<noteq> [] \<and>
            inheritedTrace (last (chain link)) = None"
    by (simp add: traceMessages_chain chain_nonempty chain_last)
  from 1 2 3 4 5 show ?thesis by blast
qed


theorem C7_trace_per_edge_witness:
  "deref example_state 0 = Some example_logger \<and>
   (\<exists>c st' new. child example_env 0 (Some ''B'') False example_state = Inr (c, st') \<and>
       deref st' c = Some new \<and> parentTrace new = None) \<and>
   (\<exists>c st' new. child example_env 0 (Some ''B'') True example_state = Inr (c, st') \<and>
       deref st' c = Some new \<and>
       parentTrace new = Some (Trace (Some ''A'')
         \<lparr>fileName = ''src/server.js:3'', methodName = ''anonymous''\<rparr>
         \<lparr>fileName = ''src/server.js:12'', methodName = ''main''\<rparr> None)) \<and>
   (\<exists>l st' new. descend [(env_at 30, Some ''B'', True), (env_at 40, None, False),
                           (env_at 50, Some ''C'', True), (env_at 60, Some ''D'', True)]
                    0 example_state = Inr (l, st') \<and>
       deref st' l = Some new \<and> chain_length (parentTrace new) = 2)"
proof -
  have s: "deref example_state 0 = Some example_logger"
    by (simp add: example_state_eq deref_def)
  have i: "private_getCallerInfo example_env (stack example_env) =
      \<lparr>fileName = ''src/server.js:12'', methodName = ''main''\<rparr>"
    by (simp add: private_getCallerInfo_def example_env_def decimal.simps)
  note t = C7_trace_per_edge [OF s, of example_env "Some ''B''"
      "[(env_at 30, Some ''B'', True), (env_at 40, None, False),
        (env_at 50, Some ''C'', True), (env_at 60, Some ''D'', True)]"
      example_env None example_state]
  from t have a: "\<exists>c st' new. child example_env 0 (Some ''B'') False example_state = Inr (c, st') \<and>
       deref st' c = Some new \<and> parentTrace new = None" by blast
  from t have b: "\<exists>c st' new. child example_env 0 (Some ''B'') True example_state = Inr (c, st') \<and>
       deref st' c = Some new \<and>
       parentTrace new = Some (Trace (Some ''A'')
         \<lparr>fileName = ''src/server.js:3'', methodName = ''anonymous''\<rparr>
         \<lparr>fileName = ''src/server.js:12'', methodName = ''main''\<rparr> None)"
    by (simp add: example_logger_def i)
  have v: "(if list_all (\<lambda>(e, pfx, tr). tr)
                 [(env_at 30, Some ''B'', True), (env_at 40, None, False),
                  (env_at 50, Some ''C'', True), (env_at 60, Some ''D'', True)]
             then chain_length (parentTrace example_logger) +
                  length [(env_at 30, Some ''B'', True), (env_at 40, None, False),
                          (env_at 50, Some ''C'', True), (env_at 60, Some ''D'', True)]
             else length (takeWhile (\<lambda>(e, pfx, tr). tr)
                  (rev [(env_at 30, Some ''B'', True), (env_at 40, None, False),
                        (env_at 50, Some ''C'', True), (env_at 60, Some ''D'', True)]))) = 2"
    by simp
  from t have "\<exists>l st' new. descend [(env_at 30, Some ''B'', True), (env_at 40, None, False),
                           (env_at 50, Some ''C'', True), (env_at 60, Some ''D'', True)]
                    0 example_state = Inr (l, st') \<and>
       deref st' l = Some new \<and> chain_length (parentTrace new) =
         (if list_all (\<lambda>(e, pfx, tr). tr)
                 [(env_at 30, Some ''B'', True), (env_at 40, None, False),
                  (env_at 50, Some ''C'', True), (env_at 60, Some ''D'', True)]
             then chain_length (parentTrace example_logger) +
                  length [(env_at 30, Some ''B'', True), (env_at 40, None, False),
                          (env_at 50, Some ''C'', True), (env_at 60, Some ''D'', True)]
             else length (takeWhile (\<lambda>(e, pfx, tr). tr)
                  (rev [(env_at 30, Some ''B'', True), (env_at 40, None, False),
                        (env_at 50, Some ''C'', True), (env_at 60, Some ''D'', True)])))"
    by blast
  then have c: "\<exists>l st' new. descend [(env_at 30, Some ''B'', True), (env_at 40, None, False),
                           (env_at 50, Some ''C'', True), (env_at 60, Some ''D'', True)]
                    0 example_state = Inr (l, st') \<and>
       deref st' l = Some new \<and> chain_length (parentTrace new) = 2"
    by (simp only: v)
  from s a b c show ?thesis by blast
qed


text \<open>
  Claim C8, as the code has it, for a label \<open>L\<close> that is not the name of a property of
  \<^verbatim>\<open>Object.prototype\<close>. \<^verbatim>\<open>timeStart(L)\<close> stores the current time under \<open>L\<close>,
  replacing an earlier start, writes nothing and returns the instance. \<^verbatim>\<open>timeEnd(L)\<close>
  with a start \<open>s\<close> other than 0 recorded makes a \<^verbatim>\<open>TIME\<close>-level log call with the
  fragment \<^verbatim>\<open><L>: <now - s>ms\<close> in green (no sign when the clock has not gone back
  since the start), removes \<open>L\<close> from the map, so that a second \<^verbatim>\<open>timeEnd(L)\<close> makes
  the call with \<^verbatim>\<open><L>: -1ms\<close>; with no start recorded it makes a \<^verbatim>\<open>TIME\<close>-level
  call with \<^verbatim>\<open><L>: -1ms\<close> in red and raises nothing. Both return the instance and
  touch no file. The \<^verbatim>\<open>TIME\<close> line reaches the console unless \<^verbatim>\<open>TIME\<close> is below
  the global minimum (\<open>time_console\<close>); then nothing is written.
\<close>

theorem C8_timers:
  assumes "deref st this = Some self" and "L \<notin> set Object_prototype"
  shows "(\<exists>st'. timeStart e this L st = Inr (this, st') \<and>
            deref st' this = Some (self\<lparr>timeMap := (timeMap self)(L \<mapsto> dateNow e)\<rparr>) \<and>
            console st' = console st \<and> files st' = files st) \<and>
         (\<forall>s. timeMap self L = Some s \<and> s \<noteq> 0 \<longrightarrow>
            (\<exists>st'. timeEnd e this L st = Inr (this, st') \<and>
               deref st' this = Some (self\<lparr>timeMap := (timeMap self)(L := None)\<rparr>) \<and>
               console st' = time_console e self FgGreen st
                               (L @ '': '' @ int_toString (dateNow e - s) @ ''ms'') \<and>
               files st' = files st \<and>
               (s \<le> dateNow e \<longrightarrow> int_toString (dateNow e - s) = decimal (nat (dateNow e - s))) \<and>
               (\<forall>e2. \<exists>st2. timeEnd e2 this L st' = Inr (this, st2) \<and>
                  console st2 = time_console e2 (self\<lparr>timeMap := (timeMap self)(L := None)\<rparr>)
                                  FgRed st' (L @ '': -1ms'')))) \<and>
         (timeMap self L = None \<longrightarrow>
            (\<exists>st'. timeEnd e this L st = Inr (this, st') \<and> deref st' this = Some self \<and>
               console st' = time_console e self FgRed st (L @ '': -1ms'') \<and>
               files st' = files st))"
proof -
  note own = timeMap_get_own[OF assms(2)]
  have A: "\<exists>st'. timeStart e this L st = Inr (this, st') \<and>
            deref st' this = Some (self\<lparr>timeMap := (timeMap self)(L \<mapsto> dateNow e)\<rparr>) \<and>
            console st' = console st \<and> files st' = files st"
    unfolding timeStart_result[OF assms(1)] timeMap_set_own[OF assms(2)]
    by (simp add: deref_heap_update[OF assms(1)])
  have B: "\<forall>s. timeMap self L = Some s \<and> s \<noteq> 0 \<longrightarrow>
            (\<exists>st'. timeEnd e this L st = Inr (this, st') \<and>
               deref st' this = Some (self\<lparr>timeMap := (timeMap self)(L := None)\<rparr>) \<and>
               console st' = time_console e self FgGreen st
                               (L @ '': '' @ int_toString (dateNow e - s) @ ''ms'') \<and>
               files st' = files st \<and>
               (s \<le> dateNow e \<longrightarrow> int_toString (dateNow e - s) = decimal (nat (dateNow e - s))) \<and>
               (\<forall>e2. \<exists>st2. timeEnd e2 this L st' = Inr (this, st2) \<and>
                  console st2 = time_console e2 (self\<lparr>timeMap := (timeMap self)(L := None)\<rparr>)
                                  FgRed st' (L @ '': -1ms'')))"
  proof (intro allI impI)
    fix s assume h: "timeMap self L = Some s \<and> s \<noteq> 0"
    let ?self' = "self\<lparr>timeMap := (timeMap self)(L := None)\<rparr>"
    let ?st' = "st\<lparr>console := time_console e self FgGreen st
                                  (L @ '': '' @ int_toString (dateNow e - s) @ ''ms''),
                    heap := (heap st)[this := ?self']\<rparr>"
    have g: "timeMap_get (timeMap self) L = Own s" using h by (simp add: own)
    have r: "timeEnd e this L st = Inr (this, ?st')"
      using timeEnd_running[OF assms(1) g] h by blast
    have d: "deref ?st' this = Some ?self'"
      using assms(1) by (auto simp: deref_def split: if_splits)
    have c: "console ?st' = time_console e self FgGreen st
                               (L @ '': '' @ int_toString (dateNow e - s) @ ''ms'')"
      by simp
    have f: "files ?st' = files st" by simp
    have n: "s \<le> dateNow e \<longrightarrow> int_toString (dateNow e - s) = decimal (nat (dateNow e - s))"
      by (simp add: int_toString_def)
    have m: "timeMap_get (timeMap ?self') L = Missing \<or> timeMap_get (timeMap ?self') L = Own 0"
      by (simp add: timeMap_get_own[OF assms(2)])
    have again: "\<forall>e2. \<exists>st2. timeEnd e2 this L ?st' = Inr (this, st2) \<and>
                  console st2 = time_console e2 ?self' FgRed ?st' (L @ '': -1ms'')"
      using timeEnd_absent[OF d m] by simp
    from r d c f n again show "\<exists>st'. timeEnd e this L st = Inr (this, st') \<and>
               deref st' this = Some ?self' \<and>
               console st' = time_console e self FgGreen st
                               (L @ '': '' @ int_toString (dateNow e - s) @ ''ms'') \<and>
               files st' = files st \<and>
               (s \<le> dateNow e \<longrightarrow> int_toString (dateNow e - s) = decimal (nat (dateNow e - s))) \<and>
               (\<forall>e2. \<exists>st2. timeEnd e2 this L st' = Inr (this, st2) \<and>
                  console st2 = time_console e2 ?self' FgRed st' (L @ '': -1ms''))"
      by blast
  qed
  have C: "timeMap self L = None \<longrightarrow>
            (\<exists>st'. timeEnd e this L st = Inr (this, st') \<and> deref st' this = Some self \<and>
               console st' = time_console e self FgRed st (L @ '': -1ms'') \<and>
               files st' = files st)"
  proof
    assume "timeMap self L = None"
    then have "timeMap_get (timeMap self) L = Missing \<or> timeMap_get (timeMap self) L = Own 0"
      by (simp add: own)
    from timeEnd_absent[OF assms(1) this, of e]
    show "\<exists>st'. timeEnd e this L st = Inr (this, st') \<and> deref st' this = Some self \<and>
               console st' = time_console e self FgRed st (L @ '': -1ms'') \<and>
               files st' = files st"
      using assms(1) by simp
  qed
  show ?thesis by (rule conjI[OF A conjI[OF B C]])
qed

theorem C8_timers_witness:
  "deref timed_state 0 = Some (example_logger\<lparr>timeMap := [''x'' \<mapsto> 1709806530000]\<rparr>) \<and>
   ''x'' \<notin> set Object_prototype \<and> ''never-started'' \<notin> set Object_prototype \<and>
   timeMap (example_logger\<lparr>timeMap := [''x'' \<mapsto> 1709806530000]\<rparr>) ''x'' = Some 1709806530000 \<and>
   (1709806530000 :: int) \<noteq> 0 \<and> 1709806530000 \<le> dateNow later_env \<and>
   \<not> js_less (LoggerLevels ''TIME'') (LoggerLevels (globalLogLevel timed_state)) \<and>
   (\<exists>st'. timeEnd later_env 0 ''x'' timed_state = Inr (0, st') \<and>
      deref st' 0 = Some example_logger \<and>
      console st' =
        [console_block later_env (example_logger\<lparr>timeMap := [''x'' \<mapsto> 1709806530000]\<rparr>)
           ''TIME'' FgGreen BgBlack @ [JStr ''x: 250ms'', JStr ''\<newline>'']] \<and>
      (\<exists>st2. timeEnd later_env 0 ''x'' st' = Inr (0, st2) \<and>
         console st2 = console st' @
           [console_block later_env example_logger ''TIME'' FgRed BgBlack @
            [JStr ''x: -1ms'', JStr ''\<newline>'']])) \<and>
   timeMap example_logger ''never-started'' = None \<and>
   (\<exists>st'. timeEnd example_env 0 ''never-started'' example_state = Inr (0, st') \<and>
      console st' =
        [console_block example_env example_logger ''TIME'' FgRed BgBlack @
         [JStr ''never-started: -1ms'', JStr ''\<newline>'']])"
proof -
  let ?self = "example_logger\<lparr>timeMap := [''x'' \<mapsto> 1709806530000]\<rparr>"
  have s: "deref example_state 0 = Some example_logger"
    by (simp add: example_state_eq deref_def)
  have o: "''x'' \<notin> set Object_prototype" "''never-started'' \<notin> set Object_prototype"
    by (simp_all add: Object_prototype_def)
  have m: "timeMap ?self ''x'' = Some 1709806530000" by simp
  have z: "(1709806530000 :: int) \<noteq> 0" by simp
  have le: "1709806530000 \<le> dateNow later_env" by (simp add: later_env_def example_env_def)
  have a: "\<not> js_less (LoggerLevels ''TIME'') (LoggerLevels (globalLogLevel timed_state))"
    by (simp add: timed_state_simps LoggerLevels_simps)
  have a0: "\<not> js_less (LoggerLevels ''TIME'') (LoggerLevels (globalLogLevel example_state))"
    by (simp add: example_state_eq LoggerLevels_simps)
  have d: "int_toString (dateNow later_env - 1709806530000) = ''250''"
    by (simp add: later_env_def example_env_def int_toString_def decimal.simps)
  have e: "?self\<lparr>timeMap := (timeMap ?self)(''x'' := None)\<rparr> = example_logger"
    by (simp add: example_logger_def)
  have n: "timeMap example_logger ''never-started'' = None" by (simp add: example_logger_def)
  have gx: "timeMap_get (timeMap ?self) ''x'' = Own 1709806530000"
    by (simp add: timeMap_get_def)
  from C8_timers [OF timed_state_simps(1) o(1), of later_env] m z
  obtain st' where r: "timeEnd later_env 0 ''x'' timed_state = Inr (0, st')"
    and ds: "deref st' 0 = Some (?self\<lparr>timeMap := (timeMap ?self)(''x'' := None)\<rparr>)"
    and cs: "console st' = time_console later_env ?self FgGreen timed_state
                (''x'' @ '': '' @ int_toString (dateNow later_env - 1709806530000) @ ''ms'')"
    and ag: "\<forall>e2. \<exists>st2. timeEnd e2 0 ''x'' st' = Inr (0, st2) \<and>
                  console st2 = time_console e2 (?self\<lparr>timeMap := (timeMap ?self)(''x'' := None)\<rparr>)
                                  FgRed st' (''x'' @ '': -1ms'')"
    by blast
  have g': "globalLogLevel st' = ''INFO''"
    using r timeEnd_running[OF timed_state_simps(1) gx z, of later_env]
    by (auto simp: timed_state_simps)
  have ds': "deref st' 0 = Some example_logger" using ds e by simp
  have cs': "console st' =
        [console_block later_env ?self ''TIME'' FgGreen BgBlack @ [JStr ''x: 250ms'', JStr ''\<newline>'']]"
    using cs a by (simp add: time_console_def d timed_state_simps)
  from ag obtain st2 where r2: "timeEnd later_env 0 ''x'' st' = Inr (0, st2)"
    and c2: "console st2 = time_console later_env (?self\<lparr>timeMap := (timeMap ?self)(''x'' := None)\<rparr>)
                                  FgRed st' (''x'' @ '': -1ms'')"
    by blast
  have c2': "console st2 = console st' @
           [console_block later_env example_logger ''TIME'' FgRed BgBlack @
            [JStr ''x: -1ms'', JStr ''\<newline>'']]"
    using c2 unfolding e by (simp add: time_console_def g' LoggerLevels_simps)
  from C8_timers [OF s o(2), of example_env] n
  obtain st3 where r3: "timeEnd example_env 0 ''never-started'' example_state = Inr (0, st3)"
    and c3: "console st3 = time_console example_env example_logger FgRed example_state
                 (''never-started'' @ '': -1ms'')"
    by blast
  have c3': "console st3 =
        [console_block example_env example_logger ''TIME'' FgRed BgBlack @
         [JStr ''never-started: -1ms'', JStr ''\<newline>'']]"
    using c3 a0 by (simp add: time_console_def example_state_eq)
  from timed_state_simps(1) o m z le a r ds' cs' r2 c2' n r3 c3' show ?thesis by blast
qed

text \<open>
  The claim as stated has \<^verbatim>\<open>timeEnd\<close> emit its line in every configuration, with a
  non-negative duration whenever a start is recorded, and the sentinel whenever none
  is. With the global minimum at \<^verbatim>\<open>FATAL\<close>, \<^verbatim>\<open>timeEnd("never-started")\<close> returns the
  instance and the console stays empty. Under the minimum \<^verbatim>\<open>INFO\<close>: when the clock
  has gone back by 100 ms since \<^verbatim>\<open>timeStart("x")\<close>, \<^verbatim>\<open>timeEnd("x")\<close> logs
  \<^verbatim>\<open>x: -100ms\<close>; when \<^verbatim>\<open>timeStart("x")\<close> read the clock at 0, \<^verbatim>\<open>timeEnd("x")\<close>
  logs the sentinel \<^verbatim>\<open>x: -1ms\<close> in red and keeps the entry; and
  \<^verbatim>\<open>timeEnd("toString")\<close> with no start recorded finds the property inherited from
  \<^verbatim>\<open>Object.prototype\<close> and logs \<^verbatim>\<open>toString: NaNms\<close> in green, while
  \<^verbatim>\<open>timeStart("__proto__")\<close> records nothing.
\<close>

theorem C8_counterexample:
  "deref strict_state 0 = Some example_logger \<and>
   timeMap example_logger ''never-started'' = None \<and>
   globalLogLevel strict_state = ''FATAL'' \<and> console strict_state = [] \<and>
   (\<exists>st'. timeEnd example_env 0 ''never-started'' strict_state = Inr (0, st') \<and>
      console st' = []) \<and>
   deref timed_state 0 = Some (example_logger\<lparr>timeMap := [''x'' \<mapsto> 1709806530000]\<rparr>) \<and>
   dateNow earlier_env = 1709806530000 - 100 \<and>
   (\<exists>st'. timeEnd earlier_env 0 ''x'' timed_state = Inr (0, st') \<and>
      console st' =
        [console_block earlier_env (example_logger\<lparr>timeMap := [''x'' \<mapsto> 1709806530000]\<rparr>)
           ''TIME'' FgGreen BgBlack @ [JStr ''x: -100ms'', JStr ''\<newline>'']]) \<and>
   deref epoch_state 0 = Some (example_logger\<lparr>timeMap := [''x'' \<mapsto> 0]\<rparr>) \<and>
   (\<exists>st'. timeEnd example_env 0 ''x'' epoch_state = Inr (0, st') \<and>
      deref st' 0 = Some (example_logger\<lparr>timeMap := [''x'' \<mapsto> 0]\<rparr>) \<and>
      console st' =
        [console_block example_env (example_logger\<lparr>timeMap := [''x'' \<mapsto> 0]\<rparr>)
           ''TIME'' FgRed BgBlack @ [JStr ''x: -1ms'', JStr ''\<newline>'']]) \<and>
   deref example_state 0 = Some example_logger \<and>
   timeMap example_logger ''toString'' = None \<and>
   (\<exists>st'. timeEnd example_env 0 ''toString'' example_state = Inr (0, st') \<and>
      console st' =
        [console_block example_env example_logger ''TIME'' FgGreen BgBlack @
         [JStr ''toString: NaNms'', JStr ''\<newline>'']]) \<and>
   (\<exists>st'. timeStart example_env 0 ''__proto__'' example_state = Inr (0, st') \<and>
      deref st' 0 = Some example_logger)"
proof -
  have s: "deref example_state 0 = Some example_logger"
    by (simp add: example_state_eq deref_def)
  have n: "timeMap example_logger ''never-started'' = None"
    "timeMap example_logger ''toString'' = None"
    by (simp_all add: example_logger_def)
  have n': "timeMap_get (timeMap example_logger) ''never-started'' = Missing \<or>
           timeMap_get (timeMap example_logger) ''never-started'' = Own 0"
    by (simp add: example_logger_def timeMap_get_def Object_prototype_def)
  have f: "js_less (LoggerLevels ''TIME'') (LoggerLevels (globalLogLevel strict_state))"
    by (simp add: strict_state_simps LoggerLevels_simps)
  have 1: "\<exists>st'. timeEnd example_env 0 ''never-started'' strict_state = Inr (0, st') \<and>
      console st' = []"
    using timeEnd_absent[OF strict_state_simps(1) n', of example_env] f
    by (simp add: strict_state_simps time_console_def)
  have dn: "dateNow earlier_env = 1709806530000 - 100"
    by (simp add: earlier_env_def example_env_def)
  let ?self = "example_logger\<lparr>timeMap := [''x'' \<mapsto> 1709806530000]\<rparr>"
  have gx: "timeMap_get (timeMap ?self) ''x'' = Own 1709806530000"
    by (simp add: timeMap_get_def)
  have z: "(1709806530000 :: int) \<noteq> 0" by simp
  have a: "\<not> js_less (LoggerLevels ''TIME'') (LoggerLevels (globalLogLevel timed_state))"
    by (simp add: timed_state_simps LoggerLevels_simps)
  have d: "int_toString (dateNow earlier_env - 1709806530000) = ''-100''"
    by (simp add: dn int_toString_def decimal.simps)
  have 2: "\<exists>st'. timeEnd earlier_env 0 ''x'' timed_state = Inr (0, st') \<and>
      console st' =
        [console_block earlier_env ?self ''TIME'' FgGreen BgBlack @
         [JStr ''x: -100ms'', JStr ''\<newline>'']]"
    unfolding timeEnd_running[OF timed_state_simps(1) gx z, of earlier_env] d
    using a by (simp add: time_console_def timed_state_simps)
  let ?zero = "example_logger\<lparr>timeMap := [''x'' \<mapsto> 0]\<rparr>"
  have g0: "timeMap_get (timeMap ?zero) ''x'' = Missing \<or> timeMap_get (timeMap ?zero) ''x'' = Own 0"
    by (simp add: timeMap_get_def)
  have a0: "\<not> js_less (LoggerLevels ''TIME'') (LoggerLevels (globalLogLevel epoch_state))"
    by (simp add: epoch_state_simps LoggerLevels_simps)
  have 3: "\<exists>st'. timeEnd example_env 0 ''x'' epoch_state = Inr (0, st') \<and>
      deref st' 0 = Some ?zero \<and>
      console st' =
        [console_block example_env ?zero ''TIME'' FgRed BgBlack @
         [JStr ''x: -1ms'', JStr ''\<newline>'']]"
    unfolding timeEnd_absent[OF epoch_state_simps(1) g0, of example_env]
    using a0 by (simp add: time_console_def epoch_state_simps)
  have gt: "timeMap_get (timeMap example_logger) ''toString'' = FromPrototype"
    by (simp add: timeMap_get_def example_logger_def Object_prototype_def)
  have ae: "\<not> js_less (LoggerLevels ''TIME'') (LoggerLevels (globalLogLevel example_state))"
    by (simp add: example_state_eq LoggerLevels_simps)
  have 4: "\<exists>st'. timeEnd example_env 0 ''toString'' example_state = Inr (0, st') \<and>
      console st' =
        [console_block example_env example_logger ''TIME'' FgGreen BgBlack @
         [JStr ''toString: NaNms'', JStr ''\<newline>'']]"
    unfolding timeEnd_inherited[OF s gt, of example_env]
    using ae by (simp add: time_console_def) (simp add: example_state_eq)
  have 5: "\<exists>st'. timeStart example_env 0 ''__proto__'' example_state = Inr (0, st') \<and>
      deref st' 0 = Some example_logger"
    unfolding timeStart_result[OF s]
    by (simp add: timeMap_set_def deref_def example_state_eq)
  from strict_state_simps n(1) 1 timed_state_simps(1) dn 2 epoch_state_simps(1) 3 s n(2) 4 5
  show ?thesis by blast
qed

text \<open>
  Claim C9. \<^verbatim>\<open>child\<close> on a logger \<open>this\<close>, with any prefix argument and trace flag,
  returns a reference that was not allocated before and differs from \<open>this\<close>; the
  object at \<open>this\<close> (prefix, creation info, trace link, timer map) and every other
  object are as before; the new object's timer map is empty, and starting a timer on
  the child leaves the parent as it was.
\<close>

theorem C9_child_frame:
  assumes "deref st this = Some self"
  shows "\<exists>c st' new. child e this pfx tr st = Inr (c, st') \<and> c \<noteq> this \<and> deref st c = None \<and>
           deref st' this = Some self \<and> deref st' c = Some new \<and> timeMap new = Map.empty \<and>
           (\<forall>r. r \<noteq> c \<longrightarrow> deref st' r = deref st r) \<and>
           (\<forall>e2 label. \<exists>st2. timeStart e2 c label st' = Inr (c, st2) \<and>
                                deref st2 this = Some self)"
proof -
  let ?c = "length (heap st)"
  let ?new = "\<lparr>timeMap = Map.empty, prefix = child_prefix self pfx,
              creationInfo = private_getCallerInfo e (ctorStack e),
              parentTrace = (if tr then Some (Trace (prefix self) (creationInfo self)
                   (private_getCallerInfo e (stack e)) (parentTrace self)) else None)\<rparr>"
  let ?st' = "st\<lparr>heap := heap st @ [?new]\<rparr>"
  have lt: "this < ?c" using assms by (simp add: deref_def split: if_splits)
  have r: "child e this pfx tr st = Inr (?c, ?st')" by (rule child_result[OF assms])
  have 1: "?c \<noteq> this" using lt by simp
  have 2: "deref st ?c = None" by (simp add: deref_def)
  have 3: "deref ?st' this = Some self" using assms lt by (simp add: deref_def nth_append)
  have 4: "deref ?st' ?c = Some ?new" by (simp add: deref_def)
  have 5: "timeMap ?new = Map.empty" by simp
  have 6: "\<forall>r. r \<noteq> ?c \<longrightarrow> deref ?st' r = deref st r" by (auto simp: deref_def nth_append)
  have 7: "\<forall>e2 label. \<exists>st2. timeStart e2 ?c label ?st' = Inr (?c, st2) \<and> deref st2 this = Some self"
  proof (intro allI)
    fix e2 label
    show "\<exists>st2. timeStart e2 ?c label ?st' = Inr (?c, st2) \<and> deref st2 this = Some self"
      unfolding timeStart_result[OF 4] using assms lt
      by (simp add: deref_def nth_append)
  qed
  from r 1 2 3 4 5 6 7 show ?thesis by blast
qed


theorem C9_child_frame_witness:
  "deref example_state 0 = Some example_logger \<and>
   (\<exists>c st' new. child example_env 0 (Some ''B'') True example_state = Inr (c, st') \<and> c \<noteq> 0 \<and>
           deref example_state c = None \<and>
           deref st' 0 = Some example_logger \<and> deref st' c = Some new \<and> timeMap new = Map.empty \<and>
           (\<forall>e2 label. \<exists>st2. timeStart e2 c label st' = Inr (c, st2) \<and>
                                deref st2 0 = Some example_logger))"
proof -
  have s: "deref example_state 0 = Some example_logger"
    by (simp add: example_state_eq deref_def)
  from C9_child_frame [OF s, of example_env "Some ''B''" True] s show ?thesis by blast
qed


text \<open>
  Claim C10. A logger whose prefix is the empty string behaves as one without prefix.
  Every entry point gives the same answer (the instance returned, or the error raised)
  and the same console, files and directories as on the state where that logger has no
  prefix; in an admitted call the prefix argument of the console write is the empty
  string, and the line handed to \<^verbatim>\<open>__logToFile\<close> for \<^verbatim>\<open>ERROR\<close> and \<^verbatim>\<open>FATAL\<close>,
  once the fragments are joined, has no prefix field (the call returns the instance at
  every other level, and at these two when the fragments can be joined and the file
  system accepts the write); \<^verbatim>\<open>child(p)\<close> returns a logger whose prefix is the
  argument as it was given, with no separator.
\<close>

theorem C10_empty_prefix:
  assumes "deref st this = Some self" and "prefix self = Some []"
    and "(m, tr) \<in> set (entry_points L)"
  shows "(answer_of (m e this msgs st) = answer_of (m e this msgs (drop_prefix this st)) \<and>
          console (state_of (m e this msgs st)) =
            console (state_of (m e this msgs (drop_prefix this st))) \<and>
          files (state_of (m e this msgs st)) =
            files (state_of (m e this msgs (drop_prefix this st))) \<and>
          directories (state_of (m e this msgs st)) =
            directories (state_of (m e this msgs (drop_prefix this st)))) \<and>
         (\<not> js_less (LoggerLevels L) (LoggerLevels (globalLogLevel st)) \<longrightarrow>
            (\<exists>hdr post.
               console (state_of (m e this msgs st)) = console st @ [hdr @ msgs @ post] \<and>
               length hdr = 8 \<and> hdr ! 6 = JStr []) \<and>
            ((L \<noteq> ''ERROR'' \<and> L \<noteq> ''FATAL'') \<or>
             ((\<exists>joined. join '' '' (msgs @ (if tr then rendered_trace self else [])) = Inr joined) \<and>
              (enableFileLogging st \<longrightarrow> sink_accepts e st)) \<longrightarrow>
             m e this msgs st = Inr (this, state_of (m e this msgs st))) \<and>
            ((L = ''ERROR'' \<or> L = ''FATAL'') \<longrightarrow>
               (\<forall>joined. join '' '' (msgs @ (if tr then rendered_trace self else [])) = Inr joined \<longrightarrow>
                  (\<exists>s1. m e this msgs st =
                     returning this (private_logToFile e
                       (toISOString (now e) @ '' | '' @ L @ '' | '' @
                        fileName (private_getCallerInfo e (stack e)) @ '' | '' @
                        methodName (private_getCallerInfo e (stack e)) @ '' | '' @
                        joined) s1))))) \<and>
         (\<exists>c s new. child e this pfx t st = Inr (c, s) \<and> deref s c = Some new \<and>
            prefix new = pfx)"
proof -
  obtain c b where m: "\<And>e this msgs st self. deref st this = Some self \<Longrightarrow>
      m e this msgs st = private_log e this L (msgs @ (if tr then rendered_trace self else [])) c b st"
    using entry_point_uniform[OF assms(3)] by blast
  let ?frags = "msgs @ (if tr then rendered_trace self else [])"
  let ?st0 = "drop_prefix this st"
  let ?self0 = "self\<lparr>prefix := None\<rparr>"
  have d0: "deref ?st0 this = Some ?self0" by (rule deref_drop_prefix[OF assms(1)])
  have rt: "rendered_trace ?self0 = rendered_trace self" by (simp add: rendered_trace_def)
  have m1: "m e this msgs st = private_log e this L ?frags c b st" by (rule m[OF assms(1)])
  have m0: "m e this msgs ?st0 = private_log e this L ?frags c b ?st0"
    using m[OF d0] rt by simp
  let ?hdr = "console_block e self L c b"
  have A: "answer_of (m e this msgs st) = answer_of (m e this msgs ?st0) \<and>
          console (state_of (m e this msgs st)) = console (state_of (m e this msgs ?st0)) \<and>
          files (state_of (m e this msgs st)) = files (state_of (m e this msgs ?st0)) \<and>
          directories (state_of (m e this msgs st)) =
            directories (state_of (m e this msgs ?st0))"
    unfolding m1 m0 by (intro conjI private_log_drop_prefix[OF assms(1,2)])
  have B: "\<not> js_less (LoggerLevels L) (LoggerLevels (globalLogLevel st)) \<longrightarrow>
            (\<exists>hdr post.
               console (state_of (m e this msgs st)) = console st @ [hdr @ msgs @ post] \<and>
               length hdr = 8 \<and> hdr ! 6 = JStr []) \<and>
            ((L \<noteq> ''ERROR'' \<and> L \<noteq> ''FATAL'') \<or>
             ((\<exists>joined. join '' '' ?frags = Inr joined) \<and>
              (enableFileLogging st \<longrightarrow> sink_accepts e st)) \<longrightarrow>
             m e this msgs st = Inr (this, state_of (m e this msgs st))) \<and>
            ((L = ''ERROR'' \<or> L = ''FATAL'') \<longrightarrow>
               (\<forall>joined. join '' '' ?frags = Inr joined \<longrightarrow>
                  (\<exists>s1. m e this msgs st =
                     returning this (private_logToFile e
                       (toISOString (now e) @ '' | '' @ L @ '' | '' @
                        fileName (private_getCallerInfo e (stack e)) @ '' | '' @
                        methodName (private_getCallerInfo e (stack e)) @ '' | '' @
                        joined) s1))))"
  proof
    assume adm: "\<not> js_less (LoggerLevels L) (LoggerLevels (globalLogLevel st))"
    have c: "console (state_of (m e this msgs st)) =
        console st @ [?hdr @ msgs @ ((if tr then rendered_trace self else []) @ [JStr ''\<newline>''])]"
      unfolding m1 using private_log_admitted_console(1)[OF assms(1) adm, of e ?frags c b]
      by simp
    have h: "length ?hdr = 8" "?hdr ! 6 = JStr []"
      by (simp_all add: console_block_def assms(2))
    from c h have x: "\<exists>hdr post.
               console (state_of (m e this msgs st)) = console st @ [hdr @ msgs @ post] \<and>
               length hdr = 8 \<and> hdr ! 6 = JStr []"
      by blast
    have y: "(L \<noteq> ''ERROR'' \<and> L \<noteq> ''FATAL'') \<or>
             ((\<exists>joined. join '' '' ?frags = Inr joined) \<and>
              (enableFileLogging st \<longrightarrow> sink_accepts e st)) \<longrightarrow>
             m e this msgs st = Inr (this, state_of (m e this msgs st))"
      unfolding m1 using private_log_admitted_returns[OF assms(1) adm, of ?frags e c b]
      by blast
    have z: "(L = ''ERROR'' \<or> L = ''FATAL'') \<longrightarrow>
               (\<forall>joined. join '' '' ?frags = Inr joined \<longrightarrow>
                  (\<exists>s1. m e this msgs st =
                     returning this (private_logToFile e
                       (toISOString (now e) @ '' | '' @ L @ '' | '' @
                        fileName (private_getCallerInfo e (stack e)) @ '' | '' @
                        methodName (private_getCallerInfo e (stack e)) @ '' | '' @
                        joined) s1)))"
      unfolding m1 private_log_admitted[OF assms(1) adm]
      by (auto simp: file_line_def assms(2))
    show "(\<exists>hdr post.
               console (state_of (m e this msgs st)) = console st @ [hdr @ msgs @ post] \<and>
               length hdr = 8 \<and> hdr ! 6 = JStr []) \<and>
            ((L \<noteq> ''ERROR'' \<and> L \<noteq> ''FATAL'') \<or>
             ((\<exists>joined. join '' '' ?frags = Inr joined) \<and>
              (enableFileLogging st \<longrightarrow> sink_accepts e st)) \<longrightarrow>
             m e this msgs st = Inr (this, state_of (m e this msgs st))) \<and>
            ((L = ''ERROR'' \<or> L = ''FATAL'') \<longrightarrow>
               (\<forall>joined. join '' '' ?frags = Inr joined \<longrightarrow>
                  (\<exists>s1. m e this msgs st =
                     returning this (private_logToFile e
                       (toISOString (now e) @ '' | '' @ L @ '' | '' @
                        fileName (private_getCallerInfo e (stack e)) @ '' | '' @
                        methodName (private_getCallerInfo e (stack e)) @ '' | '' @
                        joined) s1))))"
      by (rule conjI[OF x conjI[OF y z]])
  qed
  have C: "\<exists>c s new. child e this pfx t st = Inr (c, s) \<and> deref s c = Some new \<and> prefix new = pfx"
    unfolding child_result[OF assms(1)]
    by (simp add: deref_def child_prefix_def assms(2))
  show ?thesis by (rule conjI[OF A conjI[OF B C]])
qed


theorem C10_empty_prefix_witness:
  "deref blank_state 1 = Some (example_logger\<lparr>prefix := Some []\<rparr>) \<and>
   prefix (example_logger\<lparr>prefix := Some []\<rparr>) = Some [] \<and>
   (error, False) \<in> set (entry_points ''ERROR'') \<and>
   \<not> js_less (LoggerLevels ''ERROR'') (LoggerLevels (globalLogLevel blank_state)) \<and>
   join '' '' [JStr ''boom''] = Inr ''boom'' \<and> sink_accepts example_env blank_state \<and>
   (\<exists>s s0. error example_env 1 [JStr ''boom''] blank_state = Inr (1, s) \<and>
        answer_of (error example_env 1 [JStr ''boom''] (drop_prefix 1 blank_state)) = Inr 1 \<and>
        state_of (error example_env 1 [JStr ''boom''] (drop_prefix 1 blank_state)) = s0 \<and>
        console s = console s0 \<and> files s = files s0 \<and> directories s = directories s0) \<and>
   (\<exists>hdr post s1.
        console (state_of (error example_env 1 [JStr ''boom''] blank_state)) =
          console blank_state @ [hdr @ [JStr ''boom''] @ post] \<and> length hdr = 8 \<and>
        hdr ! 6 = JStr [] \<and>
        error example_env 1 [JStr ''boom''] blank_state =
          returning 1 (private_logToFile example_env
              ''2024-03-07T10:15:30.000Z | ERROR | src/server.js:12 | main | boom'' s1)) \<and>
   (\<exists>c s new. child example_env 1 (Some ''p'') False blank_state = Inr (c, s) \<and>
        deref s c = Some new \<and> prefix new = Some ''p'')"
proof -
  have p: "prefix (example_logger\<lparr>prefix := Some []\<rparr>) = Some []" by simp
  have m: "(error, False) \<in> set (entry_points ''ERROR'')"
    by (simp add: entry_points_def shortcuts_def)
  have a: "\<not> js_less (LoggerLevels ''ERROR'') (LoggerLevels (globalLogLevel blank_state))"
    by (simp add: blank_state_simps LoggerLevels_simps)
  have j: "join '' '' [JStr ''boom''] = Inr ''boom''" by simp
  have k: "sink_accepts example_env blank_state"
    by (simp add: sink_accepts_def example_env_def)
  have i: "private_getCallerInfo example_env (stack example_env) =
      \<lparr>fileName = ''src/server.js:12'', methodName = ''main''\<rparr>"
    by (simp add: private_getCallerInfo_def example_env_def decimal.simps)
  have ts: "toISOString (now example_env) = ''2024-03-07T10:15:30.000Z''"
    by (simp add: example_env_def)
  let ?R = "error example_env 1 [JStr ''boom''] blank_state"
  let ?Q = "error example_env 1 [JStr ''boom''] (drop_prefix 1 blank_state)"
  note t = C10_empty_prefix [OF blank_state_simps(1) p m, of example_env "[JStr ''boom'']"
      "Some ''p''" False]
  from t have tA: "answer_of ?R = answer_of ?Q \<and> console (state_of ?R) = console (state_of ?Q) \<and>
      files (state_of ?R) = files (state_of ?Q) \<and>
      directories (state_of ?R) = directories (state_of ?Q)"
    by blast
  from t a have tB1: "\<exists>hdr post. console (state_of ?R) =
        console blank_state @ [hdr @ [JStr ''boom''] @ post] \<and> length hdr = 8 \<and> hdr ! 6 = JStr []"
    by blast
  from t a have tB2: "(''ERROR'' \<noteq> ''ERROR'' \<and> ''ERROR'' \<noteq> ''FATAL'') \<or>
        ((\<exists>joined. join '' '' ([JStr ''boom''] @
             (if False then rendered_trace (example_logger\<lparr>prefix := Some []\<rparr>) else [])) =
            Inr joined) \<and>
         (enableFileLogging blank_state \<longrightarrow> sink_accepts example_env blank_state)) \<longrightarrow>
        ?R = Inr (1, state_of ?R)"
    by blast
  from t a have tB3: "\<forall>joined. join '' '' ([JStr ''boom''] @
             (if False then rendered_trace (example_logger\<lparr>prefix := Some []\<rparr>) else [])) =
            Inr joined \<longrightarrow>
        (\<exists>s1. ?R = returning 1 (private_logToFile example_env
           (toISOString (now example_env) @ '' | '' @ ''ERROR'' @ '' | '' @
            fileName (private_getCallerInfo example_env (stack example_env)) @ '' | '' @
            methodName (private_getCallerInfo example_env (stack example_env)) @ '' | '' @
            joined) s1))"
    by blast
  from t have 3: "\<exists>c s new. child example_env 1 (Some ''p'') False blank_state = Inr (c, s) \<and>
        deref s c = Some new \<and> prefix new = Some ''p''"
    by blast
  have g: "(\<exists>joined. join '' '' ([JStr ''boom''] @
             (if False then rendered_trace (example_logger\<lparr>prefix := Some []\<rparr>) else [])) =
            Inr joined) \<and>
         (enableFileLogging blank_state \<longrightarrow> sink_accepts example_env blank_state)"
    using k by simp
  have r: "?R = Inr (1, state_of ?R)" using tB2 g by blast
  have a0: "answer_of ?Q = Inr 1" using tA by (subst (asm) r) simp
  have 1: "\<exists>s s0. ?R = Inr (1, s) \<and> answer_of ?Q = Inr 1 \<and> state_of ?Q = s0 \<and>
        console s = console s0 \<and> files s = files s0 \<and> directories s = directories s0"
    using r a0 tA by blast
  have j': "join '' '' ([JStr ''boom''] @
             (if False then rendered_trace (example_logger\<lparr>prefix := Some []\<rparr>) else [])) =
            Inr ''boom''"
    by simp
  have l: "toISOString (now example_env) @ '' | '' @ ''ERROR'' @ '' | '' @
            fileName (private_getCallerInfo example_env (stack example_env)) @ '' | '' @
            methodName (private_getCallerInfo example_env (stack example_env)) @ '' | '' @
            ''boom'' = ''2024-03-07T10:15:30.000Z | ERROR | src/server.js:12 | main | boom''"
    unfolding i ts by simp
  from tB3 j' have "\<exists>s1. ?R = returning 1 (private_logToFile example_env
           (toISOString (now example_env) @ '' | '' @ ''ERROR'' @ '' | '' @
            fileName (private_getCallerInfo example_env (stack example_env)) @ '' | '' @
            methodName (private_getCallerInfo example_env (stack example_env)) @ '' | '' @
            ''boom'') s1)"
    by blast
  then have z: "\<exists>s1. ?R = returning 1 (private_logToFile example_env
              ''2024-03-07T10:15:30.000Z | ERROR | src/server.js:12 | main | boom'' s1)"
    unfolding l .
  from tB1 z have 2: "\<exists>hdr post s1.
        console (state_of ?R) = console blank_state @ [hdr @ [JStr ''boom''] @ post] \<and>
        length hdr = 8 \<and> hdr ! 6 = JStr [] \<and>
        ?R = returning 1 (private_logToFile example_env
              ''2024-03-07T10:15:30.000Z | ERROR | src/server.js:12 | main | boom'' s1)"
    by blast
  from blank_state_simps(1) p m a j k 1 2 3 show ?thesis by blast
qed

end
